theory Spec2Isabelle
  imports Complex_Main "HOL-Library.Sublist" "HOL-Library.AList"
begin

section \<open>Data model (internal/model/bangumi.go)\<close>

text \<open>
  Go structs are records. Go's \<open>int\<close> is modelled as \<open>int\<close>: the code only compares
  identifiers and never does arithmetic on them; the bound of the engine's 64-bit keys is
  written out where the engine assigns a key. A nullable pointer (\<open>*int\<close>,
  \<open>*MikanItem\<close>) is an \<open>option\<close>. Field names that occur in several structs carry a
  prefix for the struct (\<open>mi_\<close>, \<open>ti_\<close>, \<open>em_\<close>); the fields of \<open>Bangumi\<close> keep
  their names. \<open>ti_VoteAverage\<close> is a payload the code never inspects.
\<close>

record MikanItem =
  mi_ID :: int
  mi_OfficialTitle :: string
  mi_Season :: int
  mi_PosterLink :: string

record TmdbItem =
  ti_ID :: int
  ti_Year :: string
  ti_OriginalTitle :: string
  ti_AirDate :: string
  ti_EpisodeCount :: int
  ti_Title :: string
  ti_Season :: int
  ti_PosterLink :: string
  ti_VoteAverage :: real

record EpisodeMetadata =
  em_ID :: int
  em_Title :: string
  em_Season :: int
  em_SeasonRaw :: string
  em_Episode :: int
  em_Sub :: string
  em_SubType :: string
  em_Group :: string
  em_Year :: string
  em_Resolution :: string
  em_Source :: string
  em_AudioInfo :: string
  em_VideoInfo :: string
  em_BangumiID :: int

record Bangumi =
  ID :: int
  OfficialTitle :: string
  Year :: string
  Season :: int
  MikanID :: "int option"
  TmdbID :: "int option"
  MikanItem :: "MikanItem option"
  TmdbItem :: "TmdbItem option"
  RRSSLink :: string
  EpisodeMetadata :: "EpisodeMetadata list"
  EpsCollect :: bool
  Offset :: int
  IncludeFilter :: string
  ExcludeFilter :: string
  Parse :: string
  PosterLink :: string
  Deleted :: bool

text \<open>The zero value of \<open>model.Bangumi\<close>, what \<open>var oldBangumi model.Bangumi\<close> holds.\<close>

definition zero_Bangumi :: Bangumi where
  "zero_Bangumi =
     \<lparr>ID = 0, OfficialTitle = [], Year = [], Season = 0, MikanID = None, TmdbID = None,
      MikanItem = None, TmdbItem = None, RRSSLink = [], EpisodeMetadata = [],
      EpsCollect = False, Offset = 0, IncludeFilter = [], ExcludeFilter = [], Parse = [],
      PosterLink = [], Deleted = False\<rparr>"

section \<open>Storage\<close>

text \<open>
  Modelled from the spec: the release record \<open>model.Torrent\<close> is not among the sources.
  The fields are the ones the spec lists for a Release and the code reads: the release
  name, the source URL, the download correlation identifier, the downloaded and renamed
  flags, the owning entity's identifier and the feed URL (\<open>t.Bangumi.RRSSLink\<close>).
\<close>

record Torrent =
  Name :: string
  URL :: string
  DownloadUID :: string
  Downloaded :: bool
  Renamed :: bool
  BangumiID :: int
  RssLink :: string

text \<open>
  The store is the database behind \<open>gorm.DB\<close>, one list of rows per table that
  \<open>NewDB\<close> migrates, in the order the rows were inserted. A row of the entity table is
  a \<open>Bangumi\<close> whose association fields are empty: the catalog records and the child
  records live in their own tables and are joined by \<open>Preload\<close>.
\<close>

record DB =
  bangumis :: "Bangumi list"
  mikan_items :: "MikanItem list"
  tmdb_items :: "TmdbItem list"
  episode_metadata :: "EpisodeMetadata list"
  torrents :: "Torrent list"

text \<open>
  \<open>ErrRecordNotFound\<close> is \<open>gorm.ErrRecordNotFound\<close>; \<open>ErrUniqueConstraint\<close> is the error
  of a write that violates \<open>idx_episode_metadata_unique\<close>; \<open>ErrFull\<close> is the error of an
  insert into a table whose largest key is the largest 64-bit integer; \<open>ErrStorage\<close> is
  any other error of the engine. Whether the engine fails in that way is decided by the
  environment: every storage call takes a fault, \<open>None\<close> when the engine works.
\<close>

datatype error = ErrRecordNotFound | ErrUniqueConstraint | ErrFull | ErrStorage string

type_synonym fault = "string option"

subsection \<open>Keys and column defaults\<close>

text \<open>
  The integer primary keys are \<open>AUTOINCREMENT\<close> columns: a row inserted with the zero
  key gets a key one larger than the largest key of the table and than zero, and the
  insert fails when that key is the largest 64-bit integer. (The keys of deleted rows,
  which the engine also remembers, are not modelled: nothing here deletes.)
\<close>

definition max_key :: "int list \<Rightarrow> int" where
  "max_key keys = fold max keys 0"

definition next_key :: "int list \<Rightarrow> int option" where
  "next_key keys =
     (if max_key keys < 9223372036854775807 then Some (max_key keys + 1) else None)"

text \<open>
  An insert replaces the zero value of a column by the column's default. The defaults
  that differ from the zero value are \<open>default:1\<close> of the season columns and
  \<open>default:'tmdb'\<close> of the parser column. An update writes the zero value.
\<close>

definition default_season :: "int \<Rightarrow> int" where
  "default_season s = (if s = 0 then 1 else s)"

definition default_parse :: "string \<Rightarrow> string" where
  "default_parse p = (if p = [] then ''tmdb'' else p)"

subsection \<open>The lookup of CreateBangumi\<close>

text \<open>
  \<open>Preload\<close>: the catalog record whose key is the row's foreign key, when there is one,
  and the child records whose \<open>bangumi_id\<close> is the row's key, by their keys.
\<close>

definition preload :: "DB \<Rightarrow> Bangumi \<Rightarrow> Bangumi" where
  "preload db r =
     r\<lparr>MikanItem :=
         (case MikanID r of
            None \<Rightarrow> None
          | Some k \<Rightarrow> find (\<lambda>it. mi_ID it = k) (mikan_items db)),
       TmdbItem :=
         (case TmdbID r of
            None \<Rightarrow> None
          | Some k \<Rightarrow> find (\<lambda>it. ti_ID it = k) (tmdb_items db)),
       EpisodeMetadata :=
         filter (\<lambda>m. em_BangumiID m = ID r) (sort_key em_ID (episode_metadata db))\<rparr>"

text \<open>
  \<open>Where("mikan_id = ?", mikanID).Or("tmdb_id", tmdbID).First(&oldBangumi)\<close>: the first
  row in primary-key order one of whose link columns equals the argument, with its
  associations loaded. A null column equals nothing. On an error the destination keeps
  its zero value.
\<close>

definition link_match :: "int \<Rightarrow> int \<Rightarrow> Bangumi \<Rightarrow> bool" where
  "link_match mikanID tmdbID r \<longleftrightarrow> MikanID r = Some mikanID \<or> TmdbID r = Some tmdbID"

definition First_by_links :: "fault \<Rightarrow> DB \<Rightarrow> int \<Rightarrow> int \<Rightarrow> Bangumi \<times> error option" where
  "First_by_links flt db mikanID tmdbID =
     (case flt of
        Some msg \<Rightarrow> (zero_Bangumi, Some (ErrStorage msg))
      | None \<Rightarrow>
          (case find (link_match mikanID tmdbID) (sort_key ID (bangumis db)) of
             None \<Rightarrow> (zero_Bangumi, Some ErrRecordNotFound)
           | Some r \<Rightarrow> (preload db r, None)))"

subsection \<open>db.Save of an entity\<close>

text \<open>
  \<open>db.Save\<close> of an entity is one transaction of three steps; an error in any of them
  leaves the store as it was.

  First the belongs-to records. An attached catalog record is inserted with
  \<open>ON CONFLICT DO NOTHING\<close>: with the zero key it gets the next key of its table; with a
  key the table has, the stored record stays as it is; otherwise it is inserted under
  its key. The entity's foreign key becomes the key of the record.
\<close>

definition save_MikanItem :: "MikanItem list \<Rightarrow> MikanItem \<Rightarrow> error + MikanItem list \<times> int" where
  "save_MikanItem tbl it =
     (if mi_ID it = 0
      then (case next_key (map mi_ID tbl) of
              None \<Rightarrow> Inl ErrFull
            | Some k \<Rightarrow>
                Inr (tbl @ [it\<lparr>mi_ID := k, mi_Season := default_season (mi_Season it)\<rparr>], k))
      else if mi_ID it \<in> set (map mi_ID tbl) then Inr (tbl, mi_ID it)
      else Inr (tbl @ [it\<lparr>mi_Season := default_season (mi_Season it)\<rparr>], mi_ID it))"

definition save_TmdbItem :: "TmdbItem list \<Rightarrow> TmdbItem \<Rightarrow> error + TmdbItem list \<times> int" where
  "save_TmdbItem tbl it =
     (if ti_ID it = 0
      then (case next_key (map ti_ID tbl) of
              None \<Rightarrow> Inl ErrFull
            | Some k \<Rightarrow>
                Inr (tbl @ [it\<lparr>ti_ID := k, ti_Season := default_season (ti_Season it)\<rparr>], k))
      else if ti_ID it \<in> set (map ti_ID tbl) then Inr (tbl, ti_ID it)
      else Inr (tbl @ [it\<lparr>ti_Season := default_season (ti_Season it)\<rparr>], ti_ID it))"

definition save_mikan_link :: "DB \<Rightarrow> Bangumi \<Rightarrow> error + DB \<times> Bangumi" where
  "save_mikan_link db b =
     (case MikanItem b of
        None \<Rightarrow> Inr (db, b)
      | Some it \<Rightarrow>
          (case save_MikanItem (mikan_items db) it of
             Inl e \<Rightarrow> Inl e
           | Inr (tbl, k) \<Rightarrow> Inr (db\<lparr>mikan_items := tbl\<rparr>, b\<lparr>MikanID := Some k\<rparr>)))"

definition save_tmdb_link :: "DB \<Rightarrow> Bangumi \<Rightarrow> error + DB \<times> Bangumi" where
  "save_tmdb_link db b =
     (case TmdbItem b of
        None \<Rightarrow> Inr (db, b)
      | Some it \<Rightarrow>
          (case save_TmdbItem (tmdb_items db) it of
             Inl e \<Rightarrow> Inl e
           | Inr (tbl, k) \<Rightarrow> Inr (db\<lparr>tmdb_items := tbl\<rparr>, b\<lparr>TmdbID := Some k\<rparr>)))"

definition save_belongs :: "DB \<Rightarrow> Bangumi \<Rightarrow> error + DB \<times> Bangumi" where
  "save_belongs db b =
     (case save_mikan_link db b of
        Inl e \<Rightarrow> Inl e
      | Inr (db1, b1) \<Rightarrow> save_tmdb_link db1 b1)"

text \<open>
  Then the entity's own row, which holds its columns only. With a non-zero key that the
  table has, the row is updated: every column is written as the entity has it. Otherwise
  the row is inserted, under the entity's key or, for the zero key, the next key of the
  table, with the column defaults.
\<close>

definition row_of :: "Bangumi \<Rightarrow> Bangumi" where
  "row_of b = b\<lparr>MikanItem := None, TmdbItem := None, EpisodeMetadata := []\<rparr>"

definition save_row :: "Bangumi list \<Rightarrow> Bangumi \<Rightarrow> error + Bangumi list \<times> int" where
  "save_row tbl b =
     (if ID b \<noteq> 0 \<and> ID b \<in> set (map ID tbl)
      then Inr (map (\<lambda>r. if ID r = ID b then row_of b else r) tbl, ID b)
      else (case (if ID b = 0 then next_key (map ID tbl) else Some (ID b)) of
              None \<Rightarrow> Inl ErrFull
            | Some k \<Rightarrow>
                Inr (tbl @ [(row_of b)\<lparr>ID := k, Season := default_season (Season b),
                                        Parse := default_parse (Parse b)\<rparr>], k)))"

text \<open>
  Last the has-many records, one after the other, each with the entity's key as
  \<open>bangumi_id\<close>, by \<open>INSERT ... ON CONFLICT (id) DO UPDATE SET bangumi_id\<close>. A record
  whose key the table has is not inserted: the stored row with that key gets the
  entity's key as \<open>bangumi_id\<close> and keeps its other columns. Any other record is
  inserted, under its key or the next key of the table, with the default of the season
  column and without \<open>Episode\<close> and \<open>Year\<close>, which have no column. The statement fails
  when the row it writes agrees with another row on the columns of
  \<open>idx_episode_metadata_unique\<close>.
\<close>

definition unique_key :: "EpisodeMetadata \<Rightarrow> string \<times> int \<times> string \<times> string \<times> string \<times> int" where
  "unique_key m =
     (em_Title m, em_Season m, em_SubType m, em_Group m, em_Resolution m, em_BangumiID m)"

definition metadata_row :: "int \<Rightarrow> int \<Rightarrow> EpisodeMetadata \<Rightarrow> EpisodeMetadata" where
  "metadata_row k bangumiID m =
     m\<lparr>em_ID := k, em_Season := default_season (em_Season m), em_Episode := 0,
       em_Year := [], em_BangumiID := bangumiID\<rparr>"

definition save_child :: "int \<Rightarrow> EpisodeMetadata list \<Rightarrow> EpisodeMetadata \<Rightarrow> error + EpisodeMetadata list" where
  "save_child bangumiID tbl m =
     (if em_ID m \<noteq> 0 \<and> em_ID m \<in> set (map em_ID tbl)
      then (if \<exists>r \<in> set tbl. em_ID r = em_ID m \<and>
                 unique_key (r\<lparr>em_BangumiID := bangumiID\<rparr>)
                   \<in> set (map unique_key (filter (\<lambda>x. em_ID x \<noteq> em_ID m) tbl))
            then Inl ErrUniqueConstraint
            else Inr (map (\<lambda>r. if em_ID r = em_ID m then r\<lparr>em_BangumiID := bangumiID\<rparr> else r) tbl))
      else (case (if em_ID m = 0 then next_key (map em_ID tbl) else Some (em_ID m)) of
              None \<Rightarrow> Inl ErrFull
            | Some k \<Rightarrow>
                (if unique_key (metadata_row k bangumiID m) \<in> set (map unique_key tbl)
                 then Inl ErrUniqueConstraint
                 else Inr (tbl @ [metadata_row k bangumiID m]))))"

fun save_children :: "int \<Rightarrow> EpisodeMetadata list \<Rightarrow> EpisodeMetadata list \<Rightarrow> error + EpisodeMetadata list" where
  "save_children bangumiID tbl [] = Inr tbl"
| "save_children bangumiID tbl (m # rest) =
     (case save_child bangumiID tbl m of
        Inl e \<Rightarrow> Inl e
      | Inr tbl' \<Rightarrow> save_children bangumiID tbl' rest)"

definition Save :: "fault \<Rightarrow> DB \<Rightarrow> Bangumi \<Rightarrow> DB \<times> error option" where
  "Save flt db b =
     (case flt of
        Some msg \<Rightarrow> (db, Some (ErrStorage msg))
      | None \<Rightarrow>
          (case save_belongs db b of
             Inl e \<Rightarrow> (db, Some e)
           | Inr (db1, b1) \<Rightarrow>
               (case save_row (bangumis db1) b1 of
                  Inl e \<Rightarrow> (db, Some e)
                | Inr (rows, k) \<Rightarrow>
                    (case save_children k (episode_metadata db1) (EpisodeMetadata b1) of
                       Inl e \<Rightarrow> (db, Some e)
                     | Inr tbl \<Rightarrow> (db1\<lparr>bangumis := rows, episode_metadata := tbl\<rparr>, None)))))"

section \<open>CreateBangumi (database package)\<close>

text \<open>The faults of the two storage calls of \<open>CreateBangumi\<close>.\<close>

record Env =
  first_fault :: fault
  save_fault :: fault

definition extract_tmdbID :: "Bangumi \<Rightarrow> int" where
  "extract_tmdbID bangumi =
     (case TmdbID bangumi of
        Some t \<Rightarrow> t
      | None \<Rightarrow> (case TmdbItem bangumi of Some it \<Rightarrow> ti_ID it | None \<Rightarrow> 0))"

definition extract_mikanID :: "Bangumi \<Rightarrow> int" where
  "extract_mikanID bangumi =
     (case MikanID bangumi of
        Some m \<Rightarrow> m
      | None \<Rightarrow> (case MikanItem bangumi of Some it \<Rightarrow> mi_ID it | None \<Rightarrow> 0))"

text \<open>The comparison of the inner loop: the five fields it tests.\<close>

definition same_record :: "EpisodeMetadata \<Rightarrow> EpisodeMetadata \<Rightarrow> bool" where
  "same_record existingMeta newMeta \<longleftrightarrow>
     em_Title existingMeta = em_Title newMeta \<and>
     em_Season existingMeta = em_Season newMeta \<and>
     em_Group existingMeta = em_Group newMeta \<and>
     em_Resolution existingMeta = em_Resolution newMeta \<and>
     em_SubType existingMeta = em_SubType newMeta"

text \<open>The inner loop: \<open>exists\<close> becomes true at the first match, and the loop breaks.\<close>

fun meta_exists :: "EpisodeMetadata list \<Rightarrow> EpisodeMetadata \<Rightarrow> bool" where
  "meta_exists [] newMeta = False"
| "meta_exists (existingMeta # rest) newMeta =
     (if same_record existingMeta newMeta then True else meta_exists rest newMeta)"

text \<open>
  The outer loop over \<open>bangumi.EpisodeMetadata\<close>. It appends to
  \<open>oldBangumi.EpisodeMetadata\<close>, which the inner loop of the next round reads.
\<close>

fun merge_metadata :: "Bangumi \<Rightarrow> EpisodeMetadata list \<Rightarrow> Bangumi" where
  "merge_metadata oldBangumi [] = oldBangumi"
| "merge_metadata oldBangumi (newMeta # rest) =
     merge_metadata
       (if meta_exists (EpisodeMetadata oldBangumi) newMeta then oldBangumi
        else oldBangumi\<lparr>EpisodeMetadata :=
               EpisodeMetadata oldBangumi @ [newMeta\<lparr>em_BangumiID := ID oldBangumi\<rparr>]\<rparr>)
       rest"

definition attach_links :: "Bangumi \<Rightarrow> Bangumi \<Rightarrow> Bangumi" where
  "attach_links oldBangumi bangumi =
     (let old1 = (if MikanID oldBangumi = None \<and> MikanItem bangumi \<noteq> None
                  then oldBangumi\<lparr>MikanItem := MikanItem bangumi\<rparr> else oldBangumi)
      in if TmdbID old1 = None \<and> TmdbItem bangumi \<noteq> None
         then old1\<lparr>TmdbItem := TmdbItem bangumi\<rparr> else old1)"

text \<open>
  \<open>CreateBangumi\<close> returns the error; the model returns the store with it. The lock
  is not modelled: a call runs from its first to its last line on its own.
\<close>

definition CreateBangumi :: "Env \<Rightarrow> DB \<Rightarrow> Bangumi \<Rightarrow> DB \<times> error option" where
  "CreateBangumi env db bangumi =
     (let tmdbID = extract_tmdbID bangumi;
          mikanID = extract_mikanID bangumi;
          (oldBangumi, err) = First_by_links (first_fault env) db mikanID tmdbID
      in if err \<noteq> None \<and> err \<noteq> Some ErrRecordNotFound then (db, err)
         else if ID oldBangumi \<noteq> 0
         then Save (save_fault env) db
                (merge_metadata (attach_links oldBangumi bangumi) (EpisodeMetadata bangumi))
         else Save (save_fault env) db bangumi)"

section \<open>The Title Match Index (database package)\<close>

text \<open>
  SQLite's \<open>instr(X, Y)\<close>: the position, counted from 1, of the first occurrence of
  \<open>Y\<close> in \<open>X\<close>, and 0 when there is none. The empty string occurs at position 1.
\<close>

fun instr :: "string \<Rightarrow> string \<Rightarrow> nat" where
  "instr [] y = (if y = [] then 1 else 0)"
| "instr (c # cs) y =
     (if prefix y (c # cs) then 1
      else (case instr cs y of 0 \<Rightarrow> 0 | Suc k \<Rightarrow> Suc (Suc k)))"

text \<open>The condition \<open>instr(?, title) > 0 AND instr(?, `group`) > 0\<close> on a row.\<close>

definition title_match :: "string \<Rightarrow> EpisodeMetadata \<Rightarrow> bool" where
  "title_match torrentName m \<longleftrightarrow>
     instr torrentName (em_Title m) > 0 \<and> instr torrentName (em_Group m) > 0"

text \<open>
  \<open>GetBangumiParseByTitle\<close> returns \<open>(nil, err)\<close> or \<open>(&parser, nil)\<close>: a sum.
  \<open>First\<close> returns the matching row with the least key.
\<close>

definition GetBangumiParseByTitle :: "fault \<Rightarrow> DB \<Rightarrow> string \<Rightarrow> error + EpisodeMetadata" where
  "GetBangumiParseByTitle flt db torrentName =
     (case flt of
        Some msg \<Rightarrow> Inl (ErrStorage msg)
      | None \<Rightarrow>
          (case find (title_match torrentName) (sort_key em_ID (episode_metadata db)) of
             None \<Rightarrow> Inl ErrRecordNotFound
           | Some parser \<Rightarrow> Inr parser))"

section \<open>Releases (database package)\<close>

definition GetTorrentByURL :: "fault \<Rightarrow> DB \<Rightarrow> string \<Rightarrow> error + Torrent" where
  "GetTorrentByURL flt db url =
     (case flt of
        Some msg \<Rightarrow> Inl (ErrStorage msg)
      | None \<Rightarrow>
          (case find (\<lambda>t. URL t = url) (torrents db) of
             None \<Rightarrow> Inl ErrRecordNotFound
           | Some torrent \<Rightarrow> Inr torrent))"

text \<open>
  Modelled from the spec: \<open>CreateTorrent\<close> is \<open>db.Save(torrent)\<close> on the release table,
  whose key is declared in \<open>model.Torrent\<close>, not among the sources. The spec has a
  release deduplicated by its URL, so the write replaces the row with the release's URL
  or adds a row.
\<close>

definition CreateTorrent :: "fault \<Rightarrow> DB \<Rightarrow> Torrent \<Rightarrow> DB \<times> error option" where
  "CreateTorrent flt db torrent =
     (case flt of
        Some msg \<Rightarrow> (db, Some (ErrStorage msg))
      | None \<Rightarrow>
          (db\<lparr>torrents :=
                (if URL torrent \<in> set (map URL (torrents db))
                 then map (\<lambda>t. if URL t = URL torrent then torrent else t) (torrents db)
                 else torrents db @ [torrent])\<rparr>, None))"

text \<open>
  The loop of \<open>CheckNewTorrents\<close>, with \<open>newTorrents\<close> as accumulator. The result is the
  pair the Go function returns; the nil slice is the empty list. The fault of a lookup
  is given for its URL.
\<close>

fun CheckNewTorrents_loop ::
  "(string \<Rightarrow> fault) \<Rightarrow> DB \<Rightarrow> Torrent list \<Rightarrow> Torrent list \<Rightarrow> Torrent list \<times> error option" where
  "CheckNewTorrents_loop flt db newTorrents [] = (newTorrents, None)"
| "CheckNewTorrents_loop flt db newTorrents (torrent # rest) =
     (case GetTorrentByURL (flt (URL torrent)) db (URL torrent) of
        Inl err \<Rightarrow>
          (if err \<noteq> ErrRecordNotFound then ([], Some err)
           else CheckNewTorrents_loop flt db (newTorrents @ [torrent]) rest)
      | Inr existing \<Rightarrow>
          (if \<not> Downloaded existing
           then CheckNewTorrents_loop flt db (newTorrents @ [torrent]) rest
           else CheckNewTorrents_loop flt db newTorrents rest))"

definition CheckNewTorrents ::
  "(string \<Rightarrow> fault) \<Rightarrow> DB \<Rightarrow> Torrent list \<Rightarrow> Torrent list \<times> error option" where
  "CheckNewTorrents flt db torrents_in = CheckNewTorrents_loop flt db [] torrents_in"

section \<open>The feed refresh pipeline (refresh package)\<close>

text \<open>
  The collaborators of the package are parameters: \<open>GetTorrents\<close> is the feed client
  (its error is dropped by the callers, so only the list counts), \<open>FilterTorrent\<close> the
  admissibility filter called with a nil entity, \<open>TitleMetaParse\<close> the title parser
  (\<open>None\<close> for nil). The faults of the storage calls are given per call site and
  argument.
\<close>

record RefreshEnv =
  GetTorrents :: "string \<Rightarrow> Torrent list"
  FilterTorrent :: "Torrent \<Rightarrow> bool"
  TitleMetaParse :: "string \<Rightarrow> EpisodeMetadata option"
  check_fault :: "string \<Rightarrow> fault"
  meta_fault :: "string \<Rightarrow> fault"
  exist_fault :: "string \<Rightarrow> fault"
  create_fault :: "string \<Rightarrow> fault"

definition getTorrents :: "RefreshEnv \<Rightarrow> DB \<Rightarrow> string \<Rightarrow> Torrent list" where
  "getTorrents env db url = fst (CheckNewTorrents (check_fault env) db (GetTorrents env url))"

definition pullRss :: "RefreshEnv \<Rightarrow> DB \<Rightarrow> string \<Rightarrow> Torrent list" where
  "pullRss env db url = map (\<lambda>t. t\<lparr>RssLink := url\<rparr>) (getTorrents env db url)"

text \<open>
  Modelled from the spec: the download queue (\<open>download.DQueue\<close>) is not among the
  sources. The spec has its \<open>enqueue\<close> fire-and-forget, so \<open>Add\<close> appends the release
  to the queue and returns.

  What \<open>RefreshRSS\<close> does to the world: the store, the download queue and the log
  (\<open>slog.Warn\<close> with the release name, \<open>slog.Debug\<close> with the URL).
\<close>

datatype event = Warn string | Debug string

record World =
  store :: DB
  queue :: "Torrent list"
  events :: "event list"

text \<open>One round of the loop of \<open>RefreshRSS\<close>; \<open>continue\<close> ends the round.\<close>

definition RefreshRSS_step :: "RefreshEnv \<Rightarrow> World \<Rightarrow> Torrent \<Rightarrow> World" where
  "RefreshRSS_step env w t =
     (case GetBangumiParseByTitle (meta_fault env (Name t)) (store w) (Name t) of
        Inl err \<Rightarrow> w\<lparr>events := events w @ [Warn (Name t)]\<rparr>
      | Inr metaData \<Rightarrow>
          (let t' = t\<lparr>BangumiID := em_BangumiID metaData\<rparr>;
               existingTorrent =
                 (case GetTorrentByURL (exist_fault env (URL t')) (store w) (URL t') of
                    Inl err \<Rightarrow> None | Inr e \<Rightarrow> Some e)
           in if existingTorrent \<noteq> None \<and> Downloaded (the existingTorrent)
              then w\<lparr>events := events w @ [Debug (URL t')]\<rparr>
              else w\<lparr>store := fst (CreateTorrent (create_fault env (URL t')) (store w) t'),
                     queue := queue w @ [t']\<rparr>))"

fun RefreshRSS_loop :: "RefreshEnv \<Rightarrow> World \<Rightarrow> Torrent list \<Rightarrow> World" where
  "RefreshRSS_loop env w [] = w"
| "RefreshRSS_loop env w (t # rest) = RefreshRSS_loop env (RefreshRSS_step env w t) rest"

definition RefreshRSS :: "RefreshEnv \<Rightarrow> World \<Rightarrow> string \<Rightarrow> World" where
  "RefreshRSS env w url = RefreshRSS_loop env w (pullRss env (store w) url)"

text \<open>
  \<open>FindNewBangumi\<close>: the state of its loop is the Go map \<open>newTorrents\<close>, an association
  list with one entry per key, and the list of the names the title parser was called
  with. One \<open>createBangumi\<close> goroutine is started for every value of the map.
\<close>

record Discovery =
  newTorrents :: "(string \<times> Torrent) list"
  parsed :: "string list"

definition FindNewBangumi_step :: "RefreshEnv \<Rightarrow> DB \<Rightarrow> Discovery \<Rightarrow> Torrent \<Rightarrow> Discovery" where
  "FindNewBangumi_step env db d t =
     (case GetBangumiParseByTitle (meta_fault env (Name t)) db (Name t) of
        Inr found \<Rightarrow> d
      | Inl err \<Rightarrow>
          (if FilterTorrent env t
           then (case TitleMetaParse env (Name t) of
                   None \<Rightarrow> d\<lparr>parsed := parsed d @ [Name t]\<rparr>
                 | Some raw \<Rightarrow>
                     d\<lparr>newTorrents := AList.update (em_Title raw) t (newTorrents d),
                       parsed := parsed d @ [Name t]\<rparr>)
           else d))"

fun FindNewBangumi_loop :: "RefreshEnv \<Rightarrow> DB \<Rightarrow> Discovery \<Rightarrow> Torrent list \<Rightarrow> Discovery" where
  "FindNewBangumi_loop env db d [] = d"
| "FindNewBangumi_loop env db d (t # rest) =
     FindNewBangumi_loop env db (FindNewBangumi_step env db d t) rest"

definition FindNewBangumi :: "RefreshEnv \<Rightarrow> DB \<Rightarrow> string \<Rightarrow> Discovery" where
  "FindNewBangumi env db url =
     FindNewBangumi_loop env db \<lparr>newTorrents = [], parsed = []\<rparr> (GetTorrents env url)"

definition dispatched :: "Discovery \<Rightarrow> Torrent list" where
  "dispatched d = map snd (newTorrents d)"

section \<open>Notions of the specification\<close>

text \<open>
  The dedup key of the specification: title, season, subtitle group, resolution and
  subtitle type.
\<close>

definition dedup_key :: "EpisodeMetadata \<Rightarrow> string \<times> int \<times> string \<times> string \<times> string" where
  "dedup_key m = (em_Title m, em_Season m, em_Group m, em_Resolution m, em_SubType m)"

text \<open>
  Step 3c of the specification's merge, in its words: for each entry of the candidate,
  if no attached entry has its dedup key, the entry is appended, and the later entries
  see it as attached; otherwise it is discarded. \<open>new_entries\<close> are the entries
  appended.
\<close>

fun new_entries :: "EpisodeMetadata list \<Rightarrow> EpisodeMetadata list \<Rightarrow> EpisodeMetadata list" where
  "new_entries attached [] = []"
| "new_entries attached (entry # rest) =
     (if dedup_key entry \<in> set (map dedup_key attached) then new_entries attached rest
      else entry # new_entries (attached @ [entry]) rest)"


text \<open>
  An entry as the title parser hands it over: it has no key yet, and it has a season.
\<close>

definition fresh_entry :: "EpisodeMetadata \<Rightarrow> bool" where
  "fresh_entry m \<longleftrightarrow> em_ID m = 0 \<and> em_Season m \<noteq> 0"

text \<open>
  The constraints of the metadata table: the keys are not zero and pairwise different,
  and no two rows agree on the columns of \<open>idx_episode_metadata_unique\<close>.
\<close>

definition index_holds :: "DB \<Rightarrow> bool" where
  "index_holds db \<longleftrightarrow>
     0 \<notin> set (map em_ID (episode_metadata db)) \<and>
     distinct (map em_ID (episode_metadata db)) \<and>
     distinct (map unique_key (episode_metadata db))"

text \<open>
  A table has room for \<open>n\<close> rows when \<open>n\<close> inserts do not reach the largest key; a
  store has room for a candidate when its tables have room for what one call inserts.
\<close>

definition key_room :: "int list \<Rightarrow> nat \<Rightarrow> bool" where
  "key_room keys n \<longleftrightarrow> max_key keys + int n < 9223372036854775807"

definition room_for :: "DB \<Rightarrow> Bangumi \<Rightarrow> bool" where
  "room_for db c \<longleftrightarrow>
     key_room (map ID (bangumis db)) 1 \<and>
     key_room (map mi_ID (mikan_items db)) 1 \<and>
     key_room (map ti_ID (tmdb_items db)) 1 \<and>
     key_room (map em_ID (episode_metadata db)) (length (EpisodeMetadata c))"

text \<open>
  The rows that the entries \<open>ms\<close>, none with a key, become in a metadata table whose
  largest key is \<open>k\<close>, as children of the entity \<open>bangumiID\<close>.
\<close>

fun fresh_rows :: "int \<Rightarrow> int \<Rightarrow> EpisodeMetadata list \<Rightarrow> EpisodeMetadata list" where
  "fresh_rows k bangumiID [] = []"
| "fresh_rows k bangumiID (m # ms) =
     metadata_row (k + 1) bangumiID m # fresh_rows (k + 1) bangumiID ms"

text \<open>
  What a write does with an attached catalog record: the key under which the record is
  then found is its own key or, for the zero key, the next key of the table; the table
  gets the record, with the default of its season column, unless it has a record with
  that key.
\<close>

definition mikan_key :: "MikanItem list \<Rightarrow> MikanItem \<Rightarrow> int" where
  "mikan_key tbl it = (if mi_ID it = 0 then max_key (map mi_ID tbl) + 1 else mi_ID it)"

definition tmdb_key :: "TmdbItem list \<Rightarrow> TmdbItem \<Rightarrow> int" where
  "tmdb_key tbl it = (if ti_ID it = 0 then max_key (map ti_ID tbl) + 1 else ti_ID it)"

definition mikan_items_with :: "MikanItem list \<Rightarrow> MikanItem \<Rightarrow> MikanItem list" where
  "mikan_items_with tbl it =
     (if mi_ID it \<noteq> 0 \<and> mi_ID it \<in> set (map mi_ID tbl) then tbl
      else tbl @ [it\<lparr>mi_ID := mikan_key tbl it, mi_Season := default_season (mi_Season it)\<rparr>])"

definition tmdb_items_with :: "TmdbItem list \<Rightarrow> TmdbItem \<Rightarrow> TmdbItem list" where
  "tmdb_items_with tbl it =
     (if ti_ID it \<noteq> 0 \<and> ti_ID it \<in> set (map ti_ID tbl) then tbl
      else tbl @ [it\<lparr>ti_ID := tmdb_key tbl it, ti_Season := default_season (ti_Season it)\<rparr>])"

text \<open>
  A release is eligible for the title parser when the metadata lookup for its name
  returns an error and the admissibility filter accepts it.
\<close>

definition eligible :: "RefreshEnv \<Rightarrow> DB \<Rightarrow> Torrent \<Rightarrow> bool" where
  "eligible env db t \<longleftrightarrow>
     isl (GetBangumiParseByTitle (meta_fault env (Name t)) db (Name t)) \<and> FilterTorrent env t"

section \<open>Concrete inputs\<close>

definition zero_EpisodeMetadata :: EpisodeMetadata where
  "zero_EpisodeMetadata =
     \<lparr>em_ID = 0, em_Title = [], em_Season = 0, em_SeasonRaw = [], em_Episode = 0,
      em_Sub = [], em_SubType = [], em_Group = [], em_Year = [], em_Resolution = [],
      em_Source = [], em_AudioInfo = [], em_VideoInfo = [], em_BangumiID = 0\<rparr>"

definition frieren_1080 :: EpisodeMetadata where
  "frieren_1080 =
     zero_EpisodeMetadata\<lparr>em_Title := ''Frieren'', em_Season := 1, em_Group := ''ABC'',
       em_Resolution := ''1080p''\<rparr>"

definition frieren_720 :: EpisodeMetadata where
  "frieren_720 = frieren_1080\<lparr>em_Resolution := ''720p''\<rparr>"

text \<open>The same entries as the title parser leaves them when a name has no season.\<close>

definition frieren_s0_1080 :: EpisodeMetadata where
  "frieren_s0_1080 = frieren_1080\<lparr>em_Season := 0\<rparr>"

definition frieren_s0_720 :: EpisodeMetadata where
  "frieren_s0_720 = frieren_720\<lparr>em_Season := 0\<rparr>"

definition mikan_5 :: MikanItem where
  "mikan_5 = \<lparr>mi_ID = 5, mi_OfficialTitle = ''Frieren'', mi_Season = 1, mi_PosterLink = []\<rparr>"

definition tmdb_9 :: TmdbItem where
  "tmdb_9 =
     \<lparr>ti_ID = 9, ti_Year = ''2023'', ti_OriginalTitle = ''Frieren'', ti_AirDate = [],
      ti_EpisodeCount = 28, ti_Title = ''Frieren'', ti_Season = 1, ti_PosterLink = [],
      ti_VoteAverage = 0\<rparr>"

definition empty_db :: DB where
  "empty_db =
     \<lparr>bangumis = [], mikan_items = [], tmdb_items = [], episode_metadata = [], torrents = []\<rparr>"

definition no_faults :: Env where
  "no_faults = \<lparr>first_fault = None, save_fault = None\<rparr>"

definition faulty_lookup :: Env where
  "faulty_lookup = \<lparr>first_fault = Some ''database is locked'', save_fault = None\<rparr>"

text \<open>Candidates with the embedded release-tracker record 5.\<close>

definition cand_mikan_a :: Bangumi where
  "cand_mikan_a =
     zero_Bangumi\<lparr>OfficialTitle := ''Frieren'', Season := 1, MikanItem := Some mikan_5,
       EpisodeMetadata := [frieren_1080], Parse := ''tmdb''\<rparr>"

definition cand_mikan_b :: Bangumi where
  "cand_mikan_b =
     zero_Bangumi\<lparr>OfficialTitle := ''Sousou no Frieren'', Season := 2,
       MikanItem := Some mikan_5, TmdbItem := Some tmdb_9,
       EpisodeMetadata := [frieren_720, frieren_1080, frieren_720], Parse := ''mikan'',
       RRSSLink := ''https://feed/b''\<rparr>"

text \<open>The same candidates with entries that have no season.\<close>

definition cand_s0_a :: Bangumi where
  "cand_s0_a = cand_mikan_a\<lparr>EpisodeMetadata := [frieren_s0_1080]\<rparr>"

definition cand_s0_b :: Bangumi where
  "cand_s0_b = cand_mikan_a\<lparr>EpisodeMetadata := [frieren_s0_1080, frieren_s0_720]\<rparr>"

definition cand_s0_c :: Bangumi where
  "cand_s0_c = cand_mikan_a\<lparr>EpisodeMetadata := [frieren_720, frieren_s0_1080]\<rparr>"

text \<open>A candidate for the same title with only a metadata-catalog record.\<close>

definition cand_tmdb_only :: Bangumi where
  "cand_tmdb_only =
     zero_Bangumi\<lparr>OfficialTitle := ''Frieren'', Season := 1, TmdbItem := Some tmdb_9,
       Parse := ''tmdb''\<rparr>"

text \<open>A candidate whose identifiers are given by the scalar fields only.\<close>

definition cand_scalar :: Bangumi where
  "cand_scalar =
     zero_Bangumi\<lparr>OfficialTitle := ''Frieren'', Season := 1, MikanID := Some 5,
       TmdbID := Some 9\<rparr>"

text \<open>The store after \<open>cand_mikan_a\<close> was created in the empty store.\<close>

definition row_a :: Bangumi where
  "row_a =
     zero_Bangumi\<lparr>ID := 1, OfficialTitle := ''Frieren'', Season := 1, MikanID := Some 5,
       Parse := ''tmdb''\<rparr>"

definition child_1080 :: EpisodeMetadata where
  "child_1080 = frieren_1080\<lparr>em_ID := 1, em_BangumiID := 1\<rparr>"

definition db_a :: DB where
  "db_a =
     \<lparr>bangumis = [row_a], mikan_items = [mikan_5], tmdb_items = [],
      episode_metadata = [child_1080], torrents = []\<rparr>"

text \<open>The entity of \<open>db_a\<close> as the lookup returns it.\<close>

definition loaded_a :: Bangumi where
  "loaded_a = row_a\<lparr>MikanItem := Some mikan_5, EpisodeMetadata := [child_1080]\<rparr>"

text \<open>The store after the merge of \<open>cand_mikan_b\<close> into \<open>db_a\<close>.\<close>

definition child_720 :: EpisodeMetadata where
  "child_720 = frieren_720\<lparr>em_ID := 2, em_BangumiID := 1\<rparr>"

definition db_ab :: DB where
  "db_ab =
     \<lparr>bangumis = [row_a\<lparr>TmdbID := Some 9\<rparr>], mikan_items = [mikan_5], tmdb_items = [tmdb_9],
      episode_metadata = [child_1080, child_720], torrents = []\<rparr>"

text \<open>The store after \<open>cand_tmdb_only\<close> was created in \<open>db_a\<close>.\<close>

definition row_t :: Bangumi where
  "row_t =
     zero_Bangumi\<lparr>ID := 1, OfficialTitle := ''Frieren'', Season := 1, TmdbID := Some 9,
       Parse := ''tmdb''\<rparr>"

definition db_a2 :: DB where
  "db_a2 =
     \<lparr>bangumis = [row_a, row_t\<lparr>ID := 2\<rparr>], mikan_items = [mikan_5], tmdb_items = [tmdb_9],
      episode_metadata = [child_1080], torrents = []\<rparr>"

text \<open>
  A store whose only entity has a metadata-catalog link and no release-tracker link,
  that entity as the lookup returns it, and the store after the merge of
  \<open>cand_mikan_b\<close> into it.
\<close>

definition db_t :: DB where
  "db_t =
     \<lparr>bangumis = [row_t], mikan_items = [], tmdb_items = [tmdb_9], episode_metadata = [],
      torrents = []\<rparr>"

definition loaded_t :: Bangumi where
  "loaded_t = row_t\<lparr>TmdbItem := Some tmdb_9\<rparr>"

definition db_tb :: DB where
  "db_tb =
     \<lparr>bangumis = [row_t\<lparr>MikanID := Some 5\<rparr>], mikan_items = [mikan_5], tmdb_items = [tmdb_9],
      episode_metadata = [frieren_720\<lparr>em_ID := 1, em_BangumiID := 1\<rparr>,
                          frieren_1080\<lparr>em_ID := 2, em_BangumiID := 1\<rparr>],
      torrents = []\<rparr>"

text \<open>
  A feed with two releases of a known title, one of an unknown title and one the
  filter rejects; environments with a fault in the pull, with faults in the loop, with
  a fault in the write of a release, and with a fault in the metadata lookup of a
  release whose title the parser knows.
\<close>

definition feed_url :: string where
  "feed_url = ''https://feed/rss''"

definition release_5 :: Torrent where
  "release_5 =
     \<lparr>Name = ''[ABC] Frieren - 05 [1080p]'', URL = ''https://feed/5'', DownloadUID = [],
      Downloaded = False, Renamed = False, BangumiID = 0, RssLink = []\<rparr>"

definition release_6 :: Torrent where
  "release_6 = release_5\<lparr>Name := ''[ABC] Frieren - 06 [1080p]'', URL := ''https://feed/6''\<rparr>"

definition release_new :: Torrent where
  "release_new =
     release_5\<lparr>Name := ''[XYZ] Dungeon Meshi - 03 [720p]'', URL := ''https://feed/m3''\<rparr>"

definition release_rejected :: Torrent where
  "release_rejected =
     release_5\<lparr>Name := ''[XYZ] Dungeon Meshi - 03 [480p]'', URL := ''https://feed/m3-480''\<rparr>"

definition meshi_720 :: EpisodeMetadata where
  "meshi_720 =
     zero_EpisodeMetadata\<lparr>em_Title := ''Dungeon Meshi'', em_Season := 1, em_Group := ''XYZ'',
       em_Resolution := ''720p''\<rparr>"

definition feed_env :: RefreshEnv where
  "feed_env =
     \<lparr>GetTorrents = (\<lambda>url. [release_5, release_6, release_new, release_rejected]),
      FilterTorrent = (\<lambda>t. Name t \<noteq> ''[XYZ] Dungeon Meshi - 03 [480p]''),
      TitleMetaParse =
        (\<lambda>n. if take 19 n = ''[XYZ] Dungeon Meshi'' then Some meshi_720
              else if take 13 n = ''[ABC] Frieren'' then Some frieren_1080 else None),
      check_fault = (\<lambda>url. None), meta_fault = (\<lambda>n. None),
      exist_fault = (\<lambda>url. None), create_fault = (\<lambda>url. None)\<rparr>"

definition check_fault_env :: RefreshEnv where
  "check_fault_env =
     feed_env\<lparr>check_fault :=
       (\<lambda>url. if url = ''https://feed/6'' then Some ''disk I/O error'' else None)\<rparr>"

definition loop_fault_env :: RefreshEnv where
  "loop_fault_env =
     feed_env\<lparr>meta_fault :=
         (\<lambda>n. if n = ''[ABC] Frieren - 06 [1080p]'' then Some ''disk I/O error'' else None),
       exist_fault :=
         (\<lambda>url. if url = ''https://feed/5'' then Some ''disk I/O error'' else None)\<rparr>"

definition create_fault_env :: RefreshEnv where
  "create_fault_env =
     feed_env\<lparr>create_fault :=
       (\<lambda>url. if url = ''https://feed/5'' then Some ''disk I/O error'' else None)\<rparr>"

definition meta_fault_env :: RefreshEnv where
  "meta_fault_env =
     feed_env\<lparr>meta_fault :=
       (\<lambda>n. if n = ''[ABC] Frieren - 05 [1080p]'' then Some ''disk I/O error'' else None)\<rparr>"

definition world_a :: World where
  "world_a = \<lparr>store = db_a, queue = [], events = []\<rparr>"

text \<open>A world whose store has the first release, downloaded.\<close>

definition world_d :: World where
  "world_d =
     \<lparr>store = db_a\<lparr>torrents := [release_5\<lparr>Downloaded := True, BangumiID := 1\<rparr>]\<rparr>,
      queue = [], events = []\<rparr>"

text \<open>
  A candidate with the release-tracker record 5 and a metadata-catalog record without
  a key, and the store after its merge into \<open>db_a\<close>.
\<close>

definition cand_tmdb_k0 :: Bangumi where
  "cand_tmdb_k0 =
     zero_Bangumi\<lparr>OfficialTitle := ''Frieren'', MikanItem := Some mikan_5,
       TmdbItem := Some (tmdb_9\<lparr>ti_ID := 0, ti_Season := 0\<rparr>)\<rparr>"

definition db_ak0 :: DB where
  "db_ak0 =
     \<lparr>bangumis = [row_a\<lparr>TmdbID := Some 1\<rparr>], mikan_items = [mikan_5],
      tmdb_items = [tmdb_9\<lparr>ti_ID := 1\<rparr>], episode_metadata = [child_1080], torrents = []\<rparr>"

section \<open>Lookups\<close>

lemma find_sort_key_None:
  "find P (sort_key f xs) = None \<longleftrightarrow> (\<forall>x \<in> set xs. \<not> P x)"
  by (auto simp: find_None_iff)

lemma find_sort_key_Some:
  "find P (sort_key f xs) = Some r \<Longrightarrow> r \<in> set xs \<and> P r"
proof -
  assume "find P (sort_key f xs) = Some r"
  then obtain i where "i < length (sort_key f xs)" "P (sort_key f xs ! i)" "r = sort_key f xs ! i"
    unfolding find_Some_iff by blast
  then have "r \<in> set (sort_key f xs) \<and> P r"
    using nth_mem by blast
  then show ?thesis by simp
qed

lemma preload_columns:
  "ID (preload db r) = ID r"
  "OfficialTitle (preload db r) = OfficialTitle r"
  "Year (preload db r) = Year r"
  "Season (preload db r) = Season r"
  "MikanID (preload db r) = MikanID r"
  "TmdbID (preload db r) = TmdbID r"
  "RRSSLink (preload db r) = RRSSLink r"
  "EpsCollect (preload db r) = EpsCollect r"
  "Offset (preload db r) = Offset r"
  "IncludeFilter (preload db r) = IncludeFilter r"
  "ExcludeFilter (preload db r) = ExcludeFilter r"
  "Parse (preload db r) = Parse r"
  "PosterLink (preload db r) = PosterLink r"
  "Deleted (preload db r) = Deleted r"
  by (simp_all add: preload_def)

lemma preload_children:
  "EpisodeMetadata (preload db r) =
     filter (\<lambda>m. em_BangumiID m = ID r) (sort_key em_ID (episode_metadata db))"
  by (simp add: preload_def)

lemma preload_MikanItem:
  "MikanItem (preload db r) =
     (case MikanID r of None \<Rightarrow> None | Some k \<Rightarrow> find (\<lambda>it. mi_ID it = k) (mikan_items db))"
  by (simp add: preload_def)

lemma preload_TmdbItem:
  "TmdbItem (preload db r) =
     (case TmdbID r of None \<Rightarrow> None | Some k \<Rightarrow> find (\<lambda>it. ti_ID it = k) (tmdb_items db))"
  by (simp add: preload_def)

lemma First_by_links_found:
  assumes "First_by_links flt db m t = (old, None)"
  shows "flt = None \<and> (\<exists>r \<in> set (bangumis db). old = preload db r \<and> link_match m t r)"
proof -
  from assms have f: "flt = None"
    by (cases flt) (simp_all add: First_by_links_def)
  with assms obtain r where r: "find (link_match m t) (sort_key ID (bangumis db)) = Some r"
    and o: "old = preload db r"
    by (cases "find (link_match m t) (sort_key ID (bangumis db))")
       (auto simp: First_by_links_def)
  from r have "r \<in> set (bangumis db) \<and> link_match m t r"
    by (rule find_sort_key_Some)
  with f o show ?thesis by blast
qed

lemma First_by_links_not_found:
  assumes "snd (First_by_links flt db m t) = Some ErrRecordNotFound"
  shows "First_by_links flt db m t = (zero_Bangumi, Some ErrRecordNotFound) \<and>
         (\<forall>r \<in> set (bangumis db). \<not> link_match m t r)"
proof -
  from assms have f: "flt = None"
    by (cases flt) (simp_all add: First_by_links_def)
  with assms have n: "find (link_match m t) (sort_key ID (bangumis db)) = None"
    by (cases "find (link_match m t) (sort_key ID (bangumis db))") (simp_all add: First_by_links_def)
  then have "\<forall>r \<in> set (bangumis db). \<not> link_match m t r"
    by (simp only: find_sort_key_None)
  with f n show ?thesis by (simp add: First_by_links_def)
qed

lemma ID_zero_Bangumi: "ID zero_Bangumi = 0"
  by (simp add: zero_Bangumi_def)

section \<open>The three paths of CreateBangumi\<close>

lemma CreateBangumi_abort:
  assumes "snd (First_by_links (first_fault env) db (extract_mikanID c) (extract_tmdbID c)) = Some e"
    and "e \<noteq> ErrRecordNotFound"
  shows "CreateBangumi env db c = (db, Some e)"
proof (cases "First_by_links (first_fault env) db (extract_mikanID c) (extract_tmdbID c)")
  case (Pair old err)
  with assms show ?thesis by (simp add: CreateBangumi_def)
qed

lemma CreateBangumi_create:
  assumes "snd (First_by_links (first_fault env) db (extract_mikanID c) (extract_tmdbID c))
             = Some ErrRecordNotFound"
  shows "CreateBangumi env db c = Save (save_fault env) db c"
  using First_by_links_not_found [OF assms]
  by (simp add: CreateBangumi_def Let_def ID_zero_Bangumi)

lemma CreateBangumi_merge:
  assumes "First_by_links (first_fault env) db (extract_mikanID c) (extract_tmdbID c) = (old, None)"
    and "ID old \<noteq> 0"
  shows "CreateBangumi env db c =
           Save (save_fault env) db
             (merge_metadata (attach_links old c) (EpisodeMetadata c))"
  using assms by (simp add: CreateBangumi_def Let_def)

section \<open>The merge loop\<close>

lemma meta_exists_iff:
  "meta_exists es n \<longleftrightarrow> dedup_key n \<in> set (map dedup_key es)"
  by (induction es) (auto simp: same_record_def dedup_key_def)

lemma dedup_key_owner [simp]: "dedup_key (n\<lparr>em_BangumiID := k\<rparr>) = dedup_key n"
  by (simp add: dedup_key_def)

lemma new_entries_cong:
  "map dedup_key a = map dedup_key a' \<Longrightarrow> new_entries a ns = new_entries a' ns"
proof (induction ns arbitrary: a a')
  case Nil
  show ?case by simp
next
  case (Cons n ns)
  from Cons.prems have "map dedup_key (a @ [n]) = map dedup_key (a' @ [n])" by simp
  then have 1: "new_entries (a @ [n]) ns = new_entries (a' @ [n]) ns" by (rule Cons.IH)
  from Cons.prems have 2: "new_entries a ns = new_entries a' ns" by (rule Cons.IH)
  from Cons.prems have "set (map dedup_key a) = set (map dedup_key a')" by simp
  with 1 2 show ?case by (simp del: set_map)
qed

lemma merge_metadata_eq:
  "merge_metadata old ns =
     old\<lparr>EpisodeMetadata :=
           EpisodeMetadata old
             @ map (\<lambda>n. n\<lparr>em_BangumiID := ID old\<rparr>) (new_entries (EpisodeMetadata old) ns)\<rparr>"
proof (induction ns arbitrary: old)
  case Nil
  show ?case by simp
next
  case (Cons n ns)
  show ?case
  proof (cases "dedup_key n \<in> set (map dedup_key (EpisodeMetadata old))")
    case True
    with Cons.IH [of old] show ?thesis by (simp add: meta_exists_iff)
  next
    case False
    let ?old' = "old\<lparr>EpisodeMetadata := EpisodeMetadata old @ [n\<lparr>em_BangumiID := ID old\<rparr>]\<rparr>"
    have "new_entries (EpisodeMetadata ?old') ns = new_entries (EpisodeMetadata old @ [n]) ns"
      by (rule new_entries_cong) simp
    with False Cons.IH [of ?old'] show ?thesis by (simp add: meta_exists_iff)
  qed
qed

lemma new_entries_subset: "set (new_entries a ns) \<subseteq> set ns"
  by (induction ns arbitrary: a) auto

lemma new_entries_disjoint:
  "x \<in> set (new_entries a ns) \<Longrightarrow> dedup_key x \<notin> set (map dedup_key a)"
proof (induction ns arbitrary: a)
  case Nil
  then show ?case by simp
next
  case (Cons n ns)
  show ?case
  proof (cases "dedup_key n \<in> set (map dedup_key a)")
    case True
    with Cons show ?thesis by simp
  next
    case False
    with Cons.prems have "x = n \<or> x \<in> set (new_entries (a @ [n]) ns)" by simp
    then show ?thesis
    proof
      assume "x = n"
      with False show ?thesis by simp
    next
      assume "x \<in> set (new_entries (a @ [n]) ns)"
      then have "dedup_key x \<notin> set (map dedup_key (a @ [n]))" by (rule Cons.IH)
      then show ?thesis by simp
    qed
  qed
qed

lemma new_entries_distinct: "distinct (map dedup_key (new_entries a ns))"
proof (induction ns arbitrary: a)
  case Nil
  show ?case by simp
next
  case (Cons n ns)
  show ?case
  proof (cases "dedup_key n \<in> set (map dedup_key a)")
    case True
    with Cons.IH show ?thesis by simp
  next
    case False
    have "dedup_key n \<notin> set (map dedup_key (new_entries (a @ [n]) ns))"
    proof
      assume "dedup_key n \<in> set (map dedup_key (new_entries (a @ [n]) ns))"
      then obtain x where "x \<in> set (new_entries (a @ [n]) ns)" "dedup_key x = dedup_key n"
        by auto
      with new_entries_disjoint [of x "a @ [n]" ns] show False by simp
    qed
    with False Cons.IH [of "a @ [n]"] show ?thesis by simp
  qed
qed


lemma new_entries_length: "length (new_entries a ns) \<le> length ns"
proof (induction ns arbitrary: a)
  case Nil
  show ?case by simp
next
  case (Cons n ns)
  from Cons.IH [of a] Cons.IH [of "a @ [n]"] show ?case by simp
qed

lemma attach_links_fields:
  "ID (attach_links old c) = ID old"
  "OfficialTitle (attach_links old c) = OfficialTitle old"
  "Year (attach_links old c) = Year old"
  "Season (attach_links old c) = Season old"
  "RRSSLink (attach_links old c) = RRSSLink old"
  "EpsCollect (attach_links old c) = EpsCollect old"
  "Offset (attach_links old c) = Offset old"
  "IncludeFilter (attach_links old c) = IncludeFilter old"
  "ExcludeFilter (attach_links old c) = ExcludeFilter old"
  "Parse (attach_links old c) = Parse old"
  "PosterLink (attach_links old c) = PosterLink old"
  "Deleted (attach_links old c) = Deleted old"
  "EpisodeMetadata (attach_links old c) = EpisodeMetadata old"
  "MikanID (attach_links old c) = MikanID old"
  "TmdbID (attach_links old c) = TmdbID old"
  "MikanItem (attach_links old c) =
     (if MikanID old = None \<and> MikanItem c \<noteq> None then MikanItem c else MikanItem old)"
  "TmdbItem (attach_links old c) =
     (if TmdbID old = None \<and> TmdbItem c \<noteq> None then TmdbItem c else TmdbItem old)"
  by (auto simp: attach_links_def Let_def)

lemma merge_metadata_fields:
  "ID (merge_metadata old ns) = ID old"
  "OfficialTitle (merge_metadata old ns) = OfficialTitle old"
  "Year (merge_metadata old ns) = Year old"
  "Season (merge_metadata old ns) = Season old"
  "RRSSLink (merge_metadata old ns) = RRSSLink old"
  "EpsCollect (merge_metadata old ns) = EpsCollect old"
  "Offset (merge_metadata old ns) = Offset old"
  "IncludeFilter (merge_metadata old ns) = IncludeFilter old"
  "ExcludeFilter (merge_metadata old ns) = ExcludeFilter old"
  "Parse (merge_metadata old ns) = Parse old"
  "PosterLink (merge_metadata old ns) = PosterLink old"
  "Deleted (merge_metadata old ns) = Deleted old"
  "MikanID (merge_metadata old ns) = MikanID old"
  "TmdbID (merge_metadata old ns) = TmdbID old"
  "MikanItem (merge_metadata old ns) = MikanItem old"
  "TmdbItem (merge_metadata old ns) = TmdbItem old"
  "EpisodeMetadata (merge_metadata old ns) =
     EpisodeMetadata old
       @ map (\<lambda>n. n\<lparr>em_BangumiID := ID old\<rparr>) (new_entries (EpisodeMetadata old) ns)"
  by (simp_all add: merge_metadata_eq)

section \<open>Keys\<close>

lemma max_key_Max: "max_key keys = Max (insert 0 (set keys))"
  unfolding max_key_def using Max.set_eq_fold [of 0 keys] by simp

lemma max_key_ge: "k \<in> set keys \<Longrightarrow> k \<le> max_key keys"
  by (simp add: max_key_Max)

lemma max_key_append: "max_key (keys @ [k]) = max (max_key keys) k"
  by (simp add: max_key_def)

lemma next_key_room: "key_room keys (Suc n) \<Longrightarrow> next_key keys = Some (max_key keys + 1)"
  by (simp add: key_room_def next_key_def)

lemma key_room_le: "key_room keys n \<Longrightarrow> m \<le> n \<Longrightarrow> key_room keys m"
  by (simp add: key_room_def)

section \<open>The belongs-to records\<close>

lemma save_MikanItem_ok:
  assumes "save_MikanItem tbl it = Inr (tbl', k)"
  shows "k = mikan_key tbl it \<and> tbl' = mikan_items_with tbl it"
proof (cases "mi_ID it = 0")
  case True
  with assms show ?thesis
    by (cases "next_key (map mi_ID tbl)")
       (auto simp: save_MikanItem_def mikan_key_def mikan_items_with_def next_key_def
             split: if_splits)
next
  case False
  with assms show ?thesis
    by (cases "mi_ID it \<in> set (map mi_ID tbl)")
       (auto simp: save_MikanItem_def mikan_key_def mikan_items_with_def)
qed

lemma save_MikanItem_room:
  assumes "key_room (map mi_ID tbl) 1"
  shows "save_MikanItem tbl it = Inr (mikan_items_with tbl it, mikan_key tbl it)"
proof (cases "mi_ID it = 0")
  case True
  from assms have "next_key (map mi_ID tbl) = Some (max_key (map mi_ID tbl) + 1)"
    by (simp add: next_key_room)
  with True show ?thesis
    by (simp add: save_MikanItem_def mikan_key_def mikan_items_with_def)
next
  case False
  then show ?thesis
    by (cases "mi_ID it \<in> set (map mi_ID tbl)")
       (auto simp: save_MikanItem_def mikan_key_def mikan_items_with_def)
qed

lemma save_TmdbItem_ok:
  assumes "save_TmdbItem tbl it = Inr (tbl', k)"
  shows "k = tmdb_key tbl it \<and> tbl' = tmdb_items_with tbl it"
proof (cases "ti_ID it = 0")
  case True
  with assms show ?thesis
    by (cases "next_key (map ti_ID tbl)")
       (auto simp: save_TmdbItem_def tmdb_key_def tmdb_items_with_def next_key_def
             split: if_splits)
next
  case False
  with assms show ?thesis
    by (cases "ti_ID it \<in> set (map ti_ID tbl)")
       (auto simp: save_TmdbItem_def tmdb_key_def tmdb_items_with_def)
qed

lemma save_TmdbItem_room:
  assumes "key_room (map ti_ID tbl) 1"
  shows "save_TmdbItem tbl it = Inr (tmdb_items_with tbl it, tmdb_key tbl it)"
proof (cases "ti_ID it = 0")
  case True
  from assms have "next_key (map ti_ID tbl) = Some (max_key (map ti_ID tbl) + 1)"
    by (simp add: next_key_room)
  with True show ?thesis
    by (simp add: save_TmdbItem_def tmdb_key_def tmdb_items_with_def)
next
  case False
  then show ?thesis
    by (cases "ti_ID it \<in> set (map ti_ID tbl)")
       (auto simp: save_TmdbItem_def tmdb_key_def tmdb_items_with_def)
qed

text \<open>The store and the entity after the belongs-to step, when it succeeds.\<close>

lemma save_mikan_link_ok:
  assumes "save_mikan_link db b = Inr (db1, b1)"
  shows "db1 = db\<lparr>mikan_items :=
                   (case MikanItem b of None \<Rightarrow> mikan_items db
                    | Some it \<Rightarrow> mikan_items_with (mikan_items db) it)\<rparr>
       \<and> b1 = b\<lparr>MikanID :=
                  (case MikanItem b of None \<Rightarrow> MikanID b
                   | Some it \<Rightarrow> Some (mikan_key (mikan_items db) it))\<rparr>"
proof (cases "MikanItem b")
  case None
  with assms show ?thesis by (simp add: save_mikan_link_def)
next
  case (Some it)
  show ?thesis
  proof (cases "save_MikanItem (mikan_items db) it")
    case (Inl e)
    with Some assms show ?thesis by (simp add: save_mikan_link_def)
  next
    case (Inr p)
    obtain tbl k where p: "p = (tbl, k)" by (cases p)
    with Inr save_MikanItem_ok have "k = mikan_key (mikan_items db) it"
      "tbl = mikan_items_with (mikan_items db) it" by blast+
    with Some Inr p assms show ?thesis by (simp add: save_mikan_link_def)
  qed
qed

lemma save_tmdb_link_ok:
  assumes "save_tmdb_link db b = Inr (db1, b1)"
  shows "db1 = db\<lparr>tmdb_items :=
                   (case TmdbItem b of None \<Rightarrow> tmdb_items db
                    | Some it \<Rightarrow> tmdb_items_with (tmdb_items db) it)\<rparr>
       \<and> b1 = b\<lparr>TmdbID :=
                  (case TmdbItem b of None \<Rightarrow> TmdbID b
                   | Some it \<Rightarrow> Some (tmdb_key (tmdb_items db) it))\<rparr>"
proof (cases "TmdbItem b")
  case None
  with assms show ?thesis by (simp add: save_tmdb_link_def)
next
  case (Some it)
  show ?thesis
  proof (cases "save_TmdbItem (tmdb_items db) it")
    case (Inl e)
    with Some assms show ?thesis by (simp add: save_tmdb_link_def)
  next
    case (Inr p)
    obtain tbl k where p: "p = (tbl, k)" by (cases p)
    with Inr save_TmdbItem_ok have "k = tmdb_key (tmdb_items db) it"
      "tbl = tmdb_items_with (tmdb_items db) it" by blast+
    with Some Inr p assms show ?thesis by (simp add: save_tmdb_link_def)
  qed
qed

lemma save_mikan_link_room:
  assumes "key_room (map mi_ID (mikan_items db)) 1"
  shows "\<exists>db1 b1. save_mikan_link db b = Inr (db1, b1)"
  using save_MikanItem_room [OF assms]
  by (cases "MikanItem b") (simp_all add: save_mikan_link_def)

lemma save_tmdb_link_room:
  assumes "key_room (map ti_ID (tmdb_items db)) 1"
  shows "\<exists>db1 b1. save_tmdb_link db b = Inr (db1, b1)"
  using save_TmdbItem_room [OF assms]
  by (cases "TmdbItem b") (simp_all add: save_tmdb_link_def)

lemma save_belongs_ok:
  assumes "save_belongs db b = Inr (db1, b1)"
  shows "db1 = db\<lparr>mikan_items :=
                   (case MikanItem b of None \<Rightarrow> mikan_items db
                    | Some it \<Rightarrow> mikan_items_with (mikan_items db) it),
                 tmdb_items :=
                   (case TmdbItem b of None \<Rightarrow> tmdb_items db
                    | Some it \<Rightarrow> tmdb_items_with (tmdb_items db) it)\<rparr>
       \<and> b1 = b\<lparr>MikanID :=
                  (case MikanItem b of None \<Rightarrow> MikanID b
                   | Some it \<Rightarrow> Some (mikan_key (mikan_items db) it)),
                TmdbID :=
                  (case TmdbItem b of None \<Rightarrow> TmdbID b
                   | Some it \<Rightarrow> Some (tmdb_key (tmdb_items db) it))\<rparr>"
proof (cases "save_mikan_link db b")
  case (Inl e)
  with assms show ?thesis by (simp add: save_belongs_def)
next
  case (Inr p)
  obtain db0 b0 where p: "p = (db0, b0)" by (cases p)
  with Inr assms have t: "save_tmdb_link db0 b0 = Inr (db1, b1)"
    by (simp add: save_belongs_def)
  from Inr p have m: "save_mikan_link db b = Inr (db0, b0)" by simp
  note a = save_mikan_link_ok [OF m]
  from a have e: "tmdb_items db0 = tmdb_items db" "TmdbID b0 = TmdbID b"
    "TmdbItem b0 = TmdbItem b" by simp_all
  from a save_tmdb_link_ok [OF t] show ?thesis
    unfolding e by simp
qed

lemma save_belongs_room:
  assumes "key_room (map mi_ID (mikan_items db)) 1" and "key_room (map ti_ID (tmdb_items db)) 1"
  shows "\<exists>db1 b1. save_belongs db b = Inr (db1, b1)"
proof -
  from save_mikan_link_room [OF assms(1)] obtain db0 b0
    where m: "save_mikan_link db b = Inr (db0, b0)" by blast
  from save_mikan_link_ok [OF m] have "tmdb_items db0 = tmdb_items db" by simp
  with assms(2) have "key_room (map ti_ID (tmdb_items db0)) 1" by simp
  from save_tmdb_link_room [OF this] obtain db1 b1
    where "save_tmdb_link db0 b0 = Inr (db1, b1)" by blast
  with m show ?thesis by (simp add: save_belongs_def)
qed

section \<open>The entity's row\<close>

lemma save_row_update:
  "ID b \<noteq> 0 \<Longrightarrow> ID b \<in> set (map ID tbl) \<Longrightarrow>
     save_row tbl b = Inr (map (\<lambda>r. if ID r = ID b then row_of b else r) tbl, ID b)"
  by (simp add: save_row_def)


section \<open>The has-many rows\<close>

lemma save_children_append:
  "save_children bid tbl (xs @ ys) =
     (case save_children bid tbl xs of Inl e \<Rightarrow> Inl e | Inr tbl' \<Rightarrow> save_children bid tbl' ys)"
proof (induction xs arbitrary: tbl)
  case Nil
  show ?case by simp
next
  case (Cons x xs)
  show ?case
    by (cases "save_child bid tbl x") (simp_all add: Cons.IH)
qed

text \<open>Writing back a row as it was loaded changes nothing.\<close>

lemma save_child_loaded:
  assumes nz: "0 \<notin> set (map em_ID tbl)" and dk: "distinct (map em_ID tbl)"
    and du: "distinct (map unique_key tbl)"
    and m: "m \<in> set tbl" and b: "em_BangumiID m = bid"
  shows "save_child bid tbl m = Inr tbl"
proof -
  from dk have ik: "inj_on em_ID (set tbl)" by (simp add: distinct_map)
  from du have iu: "inj_on unique_key (set tbl)" by (simp add: distinct_map)
  have same: "r = m" if "r \<in> set tbl" "em_ID r = em_ID m" for r
    using ik that m by (auto dest: inj_onD)
  from nz m have k0: "em_ID m \<noteq> 0" by auto
  from m have kin: "em_ID m \<in> set (map em_ID tbl)" by simp
  have mb: "m\<lparr>em_BangumiID := bid\<rparr> = m" using b by simp
  have noconf: "\<not> (\<exists>r \<in> set tbl. em_ID r = em_ID m \<and>
        unique_key (r\<lparr>em_BangumiID := bid\<rparr>)
          \<in> set (map unique_key (filter (\<lambda>x. em_ID x \<noteq> em_ID m) tbl)))"
  proof
    assume "\<exists>r \<in> set tbl. em_ID r = em_ID m \<and>
        unique_key (r\<lparr>em_BangumiID := bid\<rparr>)
          \<in> set (map unique_key (filter (\<lambda>x. em_ID x \<noteq> em_ID m) tbl))"
    then obtain r where r: "r \<in> set tbl" "em_ID r = em_ID m"
      and u: "unique_key (r\<lparr>em_BangumiID := bid\<rparr>)
          \<in> set (map unique_key (filter (\<lambda>x. em_ID x \<noteq> em_ID m) tbl))" by blast
    from same [OF r] mb have "unique_key (r\<lparr>em_BangumiID := bid\<rparr>) = unique_key m" by simp
    with u obtain x where x: "x \<in> set tbl" "em_ID x \<noteq> em_ID m" "unique_key x = unique_key m"
      by auto
    from iu x(1) m x(3) have "x = m" by (auto dest: inj_onD)
    with x(2) show False by simp
  qed
  have "map (\<lambda>r. if em_ID r = em_ID m then r\<lparr>em_BangumiID := bid\<rparr> else r) tbl = map (\<lambda>r. r) tbl"
  proof (rule map_cong [OF refl])
    fix r assume r: "r \<in> set tbl"
    show "(if em_ID r = em_ID m then r\<lparr>em_BangumiID := bid\<rparr> else r) = r"
    proof (cases "em_ID r = em_ID m")
      case True
      from same [OF r True] mb show ?thesis by simp
    next
      case False
      then show ?thesis by simp
    qed
  qed
  then have mp: "map (\<lambda>r. if em_ID r = em_ID m then r\<lparr>em_BangumiID := bid\<rparr> else r) tbl = tbl"
    by simp
  show ?thesis
    unfolding save_child_def using k0 kin noconf mp by simp
qed

lemma save_children_loaded:
  assumes nz: "0 \<notin> set (map em_ID tbl)" and dk: "distinct (map em_ID tbl)"
    and du: "distinct (map unique_key tbl)"
    and ms: "set ms \<subseteq> {m \<in> set tbl. em_BangumiID m = bid}"
  shows "save_children bid tbl ms = Inr tbl"
  using ms
proof (induction ms)
  case Nil
  show ?case by simp
next
  case (Cons m ms)
  from Cons.prems have "m \<in> set tbl" "em_BangumiID m = bid" by auto
  from save_child_loaded [OF nz dk du this] Cons show ?case by simp
qed

text \<open>
  The unique-index columns of an inserted row do not depend on its key; for entries
  with a season they are the dedup key and the owner.
\<close>

lemma unique_key_metadata_row:
  "unique_key (metadata_row k bid m) =
     (em_Title m, default_season (em_Season m), em_SubType m, em_Group m, em_Resolution m, bid)"
  by (simp add: unique_key_def metadata_row_def)

lemma metadata_row_owner [simp]:
  "metadata_row k bid (m\<lparr>em_BangumiID := x\<rparr>) = metadata_row k bid m"
  by (simp add: metadata_row_def)

lemma fresh_rows_owner [simp]:
  "fresh_rows k bid (map (\<lambda>m. m\<lparr>em_BangumiID := x\<rparr>) ms) = fresh_rows k bid ms"
  by (induction ms arbitrary: k) simp_all


lemma length_fresh_rows [simp]: "length (fresh_rows k bid ms) = length ms"
  by (induction ms arbitrary: k) simp_all




text \<open>
  Entries without a key, whose index columns differ from each other and from every
  stored row, are inserted in order under the next keys.
\<close>

lemma save_children_fresh:
  assumes "\<forall>m \<in> set ms. em_ID m = 0"
    and "key_room (map em_ID tbl) (length ms)"
    and "distinct (map (\<lambda>m. unique_key (metadata_row 0 bid m)) ms)"
    and "\<forall>m \<in> set ms. unique_key (metadata_row 0 bid m) \<notin> set (map unique_key tbl)"
  shows "save_children bid tbl ms = Inr (tbl @ fresh_rows (max_key (map em_ID tbl)) bid ms)"
  using assms
proof (induction ms arbitrary: tbl)
  case Nil
  show ?case by simp
next
  case (Cons m ms)
  let ?K = "max_key (map em_ID tbl)"
  let ?row = "metadata_row (?K + 1) bid m"
  from Cons.prems(1) have k0: "em_ID m = 0" by simp
  from Cons.prems(2) have nk: "next_key (map em_ID tbl) = Some (?K + 1)"
    by (simp add: next_key_room)
  have uk: "unique_key ?row = unique_key (metadata_row 0 bid m)"
    by (simp add: unique_key_metadata_row)
  from Cons.prems(4) have "unique_key (metadata_row 0 bid m) \<notin> set (map unique_key tbl)"
    by simp
  with uk have free: "unique_key ?row \<notin> set (map unique_key tbl)" by simp
  have step: "save_child bid tbl m = Inr (tbl @ [?row])"
    unfolding save_child_def using k0 nk free by simp
  have mk: "max_key (map em_ID (tbl @ [?row])) = ?K + 1"
    by (simp add: max_key_append metadata_row_def)
  have a1: "\<forall>x \<in> set ms. em_ID x = 0" using Cons.prems(1) by simp
  have a2: "key_room (map em_ID (tbl @ [?row])) (length ms)"
    using Cons.prems(2) mk unfolding key_room_def by simp
  have a3: "distinct (map (\<lambda>m. unique_key (metadata_row 0 bid m)) ms)"
    using Cons.prems(3) by simp
  have a4: "\<forall>x \<in> set ms. unique_key (metadata_row 0 bid x)
               \<notin> set (map unique_key (tbl @ [?row]))"
  proof
    fix x assume x: "x \<in> set ms"
    from Cons.prems(4) x have "unique_key (metadata_row 0 bid x) \<notin> set (map unique_key tbl)"
      by simp
    moreover from Cons.prems(3)
    have "unique_key (metadata_row 0 bid m)
            \<notin> (\<lambda>m. unique_key (metadata_row 0 bid m)) ` set ms" by simp
    with x have "unique_key (metadata_row 0 bid x) \<noteq> unique_key (metadata_row 0 bid m)"
      by (metis imageI)
    ultimately show "unique_key (metadata_row 0 bid x) \<notin> set (map unique_key (tbl @ [?row]))"
      using uk by simp
  qed
  from Cons.IH [OF a1 a2 a3 a4] step mk show ?case by simp
qed

text \<open>For entries with a season, the index columns are the dedup key and the owner.\<close>

lemma unique_row_eq_iff:
  assumes "em_Season m \<noteq> 0" and "em_Season n \<noteq> 0"
  shows "unique_key (metadata_row k bid m) = unique_key (metadata_row k' bid n)
           \<longleftrightarrow> dedup_key m = dedup_key n"
  using assms by (auto simp: unique_key_metadata_row dedup_key_def default_season_def)

lemma unique_row_stored:
  assumes "em_Season n \<noteq> 0"
  shows "unique_key (metadata_row k bid n) = unique_key x
           \<longleftrightarrow> dedup_key n = dedup_key x \<and> em_BangumiID x = bid"
  using assms
  by (simp add: unique_key_metadata_row dedup_key_def default_season_def)
     (auto simp: unique_key_def)

lemma distinct_unique_rows:
  assumes "\<forall>m \<in> set ms. em_Season m \<noteq> 0" and "distinct (map dedup_key ms)"
  shows "distinct (map (\<lambda>m. unique_key (metadata_row 0 bid m)) ms)"
proof -
  have "inj_on (\<lambda>m. unique_key (metadata_row 0 bid m)) (set ms)"
  proof (rule inj_onI)
    fix x y assume x: "x \<in> set ms" and y: "y \<in> set ms"
      and e: "unique_key (metadata_row 0 bid x) = unique_key (metadata_row 0 bid y)"
    from assms(1) x y have "em_Season x \<noteq> 0" "em_Season y \<noteq> 0" by auto
    from unique_row_eq_iff [OF this] e have "dedup_key x = dedup_key y" by blast
    moreover from assms(2) have "inj_on dedup_key (set ms)" by (simp add: distinct_map)
    ultimately show "x = y" using x y by (auto dest: inj_onD)
  qed
  moreover from assms(2) have "distinct ms" by (simp add: distinct_map)
  ultimately show ?thesis by (simp add: distinct_map)
qed

section \<open>Save as a whole\<close>

lemma save_belongs_tables:
  assumes "save_belongs db b = Inr (db1, b1)"
  shows "bangumis db1 = bangumis db" "episode_metadata db1 = episode_metadata db"
    "torrents db1 = torrents db" "EpisodeMetadata b1 = EpisodeMetadata b" "ID b1 = ID b"
  using save_belongs_ok [OF assms] by simp_all

lemma Save_parts:
  assumes "Save flt db b = (db', None)"
  shows "\<exists>db1 b1 rows k tbl.
           save_belongs db b = Inr (db1, b1) \<and>
           save_row (bangumis db) b1 = Inr (rows, k) \<and>
           save_children k (episode_metadata db) (EpisodeMetadata b) = Inr tbl \<and>
           db' = db1\<lparr>bangumis := rows, episode_metadata := tbl\<rparr>"
proof (cases flt)
  case (Some msg)
  with assms show ?thesis by (simp add: Save_def)
next
  case None
  show ?thesis
  proof (cases "save_belongs db b")
    case (Inl e)
    with None assms show ?thesis by (simp add: Save_def)
  next
    case (Inr p)
    obtain db1 b1 where p: "p = (db1, b1)" by (cases p)
    with Inr have sb: "save_belongs db b = Inr (db1, b1)" by simp
    note tb = save_belongs_tables [OF sb]
    show ?thesis
    proof (cases "save_row (bangumis db) b1")
      case (Inl e)
      with None sb tb assms show ?thesis by (simp add: Save_def)
    next
      case (Inr q)
      obtain rows k where q: "q = (rows, k)" by (cases q)
      with Inr have sr: "save_row (bangumis db) b1 = Inr (rows, k)" by simp
      show ?thesis
      proof (cases "save_children k (episode_metadata db) (EpisodeMetadata b)")
        case (Inl e)
        with None sb sr tb assms show ?thesis by (simp add: Save_def)
      next
        case (Inr tbl)
        with None sb sr tb assms have "db' = db1\<lparr>bangumis := rows, episode_metadata := tbl\<rparr>"
          by (simp add: Save_def)
        with sb sr Inr show ?thesis by blast
      qed
    qed
  qed
qed

lemma Save_run:
  assumes sb: "save_belongs db b = Inr (db1, b1)"
    and sr: "save_row (bangumis db) b1 = Inr (rows, k)"
    and sc: "save_children k (episode_metadata db) (EpisodeMetadata b) = Inr tbl"
  shows "Save None db b = (db1\<lparr>bangumis := rows, episode_metadata := tbl\<rparr>, None)"
  using sb sr sc save_belongs_tables [OF sb] by (simp add: Save_def)

section \<open>The merge path\<close>

text \<open>The children that \<open>Preload\<close> attaches are rows of the table owned by the entity.\<close>

lemma preload_children_subset:
  "set (EpisodeMetadata (preload db r))
     = {m \<in> set (episode_metadata db). em_BangumiID m = ID r}"
  by (auto simp: preload_children)

text \<open>What the merge path writes, given that the write succeeds.\<close>

lemma CreateBangumi_merge_ok:
  assumes look: "First_by_links (first_fault env) db (extract_mikanID c) (extract_tmdbID c) = (old, None)"
    and nz: "ID old \<noteq> 0"
    and ok: "CreateBangumi env db c = (db', None)"
  shows "\<exists>db1 b1 tbl.
           save_belongs db (merge_metadata (attach_links old c) (EpisodeMetadata c)) = Inr (db1, b1) \<and>
           db' = db1\<lparr>bangumis := map (\<lambda>r. if ID r = ID old then row_of b1 else r) (bangumis db),
                     episode_metadata := tbl\<rparr>"
proof -
  let ?merged = "merge_metadata (attach_links old c) (EpisodeMetadata c)"
  from CreateBangumi_merge [OF look nz] ok
  have "Save (save_fault env) db ?merged = (db', None)" by simp
  from Save_parts [OF this] obtain db1 b1 rows k tbl
    where sb: "save_belongs db ?merged = Inr (db1, b1)"
      and sr: "save_row (bangumis db) b1 = Inr (rows, k)"
      and d: "db' = db1\<lparr>bangumis := rows, episode_metadata := tbl\<rparr>" by blast
  from First_by_links_found [OF look] obtain r
    where r: "r \<in> set (bangumis db)" and o: "old = preload db r" by blast
  have idb: "ID b1 = ID old"
    using save_belongs_tables(5) [OF sb] by (simp add: merge_metadata_fields attach_links_fields)
  from r o have "ID old \<in> set (map ID (bangumis db))" by (simp add: preload_columns)
  with idb nz have "save_row (bangumis db) b1
      = Inr (map (\<lambda>r. if ID r = ID old then row_of b1 else r) (bangumis db), ID old)"
    by (simp add: save_row_update)
  with sr [symmetric] have "Inr (rows, k)
      = (Inr (map (\<lambda>r. if ID r = ID old then row_of b1 else r) (bangumis db), ID old)
          :: error + Bangumi list \<times> int)"
    by (rule trans)
  then have "rows = map (\<lambda>r. if ID r = ID old then row_of b1 else r) (bangumis db)
      \<and> k = ID old"
    by (simp only: sum.inject prod.inject)
  then have "rows = map (\<lambda>r. if ID r = ID old then row_of b1 else r) (bangumis db)" ..
  with sb d show ?thesis by blast
qed

text \<open>
  The merge path succeeds when storage does not fault, the metadata table satisfies its
  constraints, the candidate's entries come from the title parser, and no table is
  full; the new entries become the next rows of the metadata table.
\<close>

lemma merge_children_run:
  assumes r: "r \<in> set (bangumis db)" and o: "old = preload db r"
    and idx: "index_holds db"
    and fresh: "\<forall>m \<in> set ns. fresh_entry m"
    and room: "key_room (map em_ID (episode_metadata db)) (length ns)"
  shows "save_children (ID old) (episode_metadata db)
           (EpisodeMetadata old
              @ map (\<lambda>n. n\<lparr>em_BangumiID := ID old\<rparr>) (new_entries (EpisodeMetadata old) ns))
         = Inr (episode_metadata db
                  @ fresh_rows (max_key (map em_ID (episode_metadata db))) (ID old)
                      (new_entries (EpisodeMetadata old) ns))"
proof -
  let ?tbl = "episode_metadata db"
  let ?new = "new_entries (EpisodeMetadata old) ns"
  let ?stamped = "map (\<lambda>n. n\<lparr>em_BangumiID := ID old\<rparr>) ?new"
  from idx have nz: "0 \<notin> set (map em_ID ?tbl)" and dk: "distinct (map em_ID ?tbl)"
    and du: "distinct (map unique_key ?tbl)" by (simp_all add: index_holds_def)
  from o have ido: "ID old = ID r" by (simp add: preload_columns)
  from o have ch: "set (EpisodeMetadata old) = {m \<in> set ?tbl. em_BangumiID m = ID old}"
    by (simp add: preload_children_subset preload_columns)
  then have "set (EpisodeMetadata old) \<subseteq> {m \<in> set ?tbl. em_BangumiID m = ID old}" by simp
  from save_children_loaded [OF nz dk du this]
  have loaded: "save_children (ID old) ?tbl (EpisodeMetadata old) = Inr ?tbl" .
  have sub: "set ?new \<subseteq> set ns" by (rule new_entries_subset)
  with fresh have fn: "\<forall>m \<in> set ?new. em_ID m = 0 \<and> em_Season m \<noteq> 0"
    by (auto simp: fresh_entry_def)
  have a1: "\<forall>m \<in> set ?stamped. em_ID m = 0" using fn by auto
  have "length ?new \<le> length ns" by (rule new_entries_length)
  with room have a2: "key_room (map em_ID ?tbl) (length ?stamped)"
    by (simp add: key_room_le)
  have "distinct (map (\<lambda>m. unique_key (metadata_row 0 (ID old) m)) ?new)"
    using fn new_entries_distinct by (simp add: distinct_unique_rows)
  then have a3: "distinct (map (\<lambda>m. unique_key (metadata_row 0 (ID old) m)) ?stamped)"
    by (simp add: comp_def)
  have a4: "\<forall>m \<in> set ?stamped. unique_key (metadata_row 0 (ID old) m) \<notin> set (map unique_key ?tbl)"
  proof
    fix m assume "m \<in> set ?stamped"
    then obtain n where n: "n \<in> set ?new" and m: "m = n\<lparr>em_BangumiID := ID old\<rparr>" by auto
    from fn n have sn: "em_Season n \<noteq> 0" by simp
    show "unique_key (metadata_row 0 (ID old) m) \<notin> set (map unique_key ?tbl)"
    proof
      assume "unique_key (metadata_row 0 (ID old) m) \<in> set (map unique_key ?tbl)"
      then obtain x where x: "x \<in> set ?tbl"
        and e: "unique_key (metadata_row 0 (ID old) n) = unique_key x"
        using m by auto
      from unique_row_stored [OF sn] e
      have dx: "dedup_key n = dedup_key x" and bx: "em_BangumiID x = ID old" by blast+
      from x bx ch have "x \<in> set (EpisodeMetadata old)" by simp
      with dx have "dedup_key n \<in> set (map dedup_key (EpisodeMetadata old))" by auto
      with new_entries_disjoint [OF n] show False by simp
    qed
  qed
  from save_children_fresh [OF a1 a2 a3 a4]
  have "save_children (ID old) ?tbl ?stamped
          = Inr (?tbl @ fresh_rows (max_key (map em_ID ?tbl)) (ID old) ?new)" by simp
  with loaded show ?thesis by (simp add: save_children_append)
qed

lemma CreateBangumi_merge_run:
  assumes look: "First_by_links (first_fault env) db (extract_mikanID c) (extract_tmdbID c) = (old, None)"
    and nz: "ID old \<noteq> 0"
    and nf: "save_fault env = None"
    and idx: "index_holds db"
    and fresh: "\<forall>m \<in> set (EpisodeMetadata c). fresh_entry m"
    and room: "room_for db c"
  shows "\<exists>db1 b1.
           save_belongs db (merge_metadata (attach_links old c) (EpisodeMetadata c)) = Inr (db1, b1) \<and>
           CreateBangumi env db c =
             (db1\<lparr>bangumis := map (\<lambda>r. if ID r = ID old then row_of b1 else r) (bangumis db),
                  episode_metadata :=
                    episode_metadata db
                      @ fresh_rows (max_key (map em_ID (episode_metadata db))) (ID old)
                          (new_entries (EpisodeMetadata old) (EpisodeMetadata c))\<rparr>, None)"
proof -
  let ?merged = "merge_metadata (attach_links old c) (EpisodeMetadata c)"
  from room have rm: "key_room (map mi_ID (mikan_items db)) 1"
    and rt: "key_room (map ti_ID (tmdb_items db)) 1"
    and re: "key_room (map em_ID (episode_metadata db)) (length (EpisodeMetadata c))"
    by (simp_all add: room_for_def)
  from save_belongs_room [OF rm rt] obtain db1 b1
    where sb: "save_belongs db ?merged = Inr (db1, b1)" by blast
  from First_by_links_found [OF look] obtain r
    where r: "r \<in> set (bangumis db)" and o: "old = preload db r" by blast
  have idb: "ID b1 = ID old"
    using save_belongs_tables(5) [OF sb] by (simp add: merge_metadata_fields attach_links_fields)
  from r o have "ID old \<in> set (map ID (bangumis db))" by (simp add: preload_columns)
  with idb nz have sr: "save_row (bangumis db) b1
      = Inr (map (\<lambda>r. if ID r = ID old then row_of b1 else r) (bangumis db), ID old)"
    by (simp add: save_row_update)
  have em: "EpisodeMetadata ?merged
      = EpisodeMetadata old
          @ map (\<lambda>n. n\<lparr>em_BangumiID := ID old\<rparr>)
              (new_entries (EpisodeMetadata old) (EpisodeMetadata c))"
    by (simp add: merge_metadata_fields attach_links_fields)
  from merge_children_run [OF r o idx fresh re] em
  have sc: "save_children (ID old) (episode_metadata db) (EpisodeMetadata ?merged)
      = Inr (episode_metadata db
               @ fresh_rows (max_key (map em_ID (episode_metadata db))) (ID old)
                   (new_entries (EpisodeMetadata old) (EpisodeMetadata c)))" by simp
  from Save_run [OF sb sr sc] CreateBangumi_merge [OF look nz] nf sb
  show ?thesis by simp
qed

text \<open>The row of the entity after the belongs-to step of the merge path.\<close>

lemma merge_row:
  assumes sb: "save_belongs db (merge_metadata (attach_links old c) (EpisodeMetadata c)) = Inr (db1, b1)"
  shows "ID (row_of b1) = ID old"
    "OfficialTitle (row_of b1) = OfficialTitle old"
    "Year (row_of b1) = Year old"
    "Season (row_of b1) = Season old"
    "RRSSLink (row_of b1) = RRSSLink old"
    "EpsCollect (row_of b1) = EpsCollect old"
    "Offset (row_of b1) = Offset old"
    "IncludeFilter (row_of b1) = IncludeFilter old"
    "ExcludeFilter (row_of b1) = ExcludeFilter old"
    "Parse (row_of b1) = Parse old"
    "PosterLink (row_of b1) = PosterLink old"
    "Deleted (row_of b1) = Deleted old"
    "MikanID (row_of b1) =
       (case MikanItem (attach_links old c) of None \<Rightarrow> MikanID old
        | Some it \<Rightarrow> Some (mikan_key (mikan_items db) it))"
    "TmdbID (row_of b1) =
       (case TmdbItem (attach_links old c) of None \<Rightarrow> TmdbID old
        | Some it \<Rightarrow> Some (tmdb_key (tmdb_items db) it))"
    "mikan_items db1 =
       (case MikanItem (attach_links old c) of None \<Rightarrow> mikan_items db
        | Some it \<Rightarrow> mikan_items_with (mikan_items db) it)"
    "tmdb_items db1 =
       (case TmdbItem (attach_links old c) of None \<Rightarrow> tmdb_items db
        | Some it \<Rightarrow> tmdb_items_with (tmdb_items db) it)"
    "torrents db1 = torrents db"
proof -
  let ?m = "merge_metadata (attach_links old c) (EpisodeMetadata c)"
  have e: "MikanItem ?m = MikanItem (attach_links old c)"
    "TmdbItem ?m = TmdbItem (attach_links old c)"
    "MikanID ?m = MikanID old" "TmdbID ?m = TmdbID old"
    by (simp_all add: merge_metadata_fields attach_links_fields)
  note a = save_belongs_ok [OF sb, unfolded e]
  from a have b: "b1 = ?m\<lparr>MikanID :=
                  (case MikanItem (attach_links old c) of None \<Rightarrow> MikanID old
                   | Some it \<Rightarrow> Some (mikan_key (mikan_items db) it)),
                TmdbID :=
                  (case TmdbItem (attach_links old c) of None \<Rightarrow> TmdbID old
                   | Some it \<Rightarrow> Some (tmdb_key (tmdb_items db) it))\<rparr>" by blast
  from a have d: "db1 = db\<lparr>mikan_items :=
                   (case MikanItem (attach_links old c) of None \<Rightarrow> mikan_items db
                    | Some it \<Rightarrow> mikan_items_with (mikan_items db) it),
                 tmdb_items :=
                   (case TmdbItem (attach_links old c) of None \<Rightarrow> tmdb_items db
                    | Some it \<Rightarrow> tmdb_items_with (tmdb_items db) it)\<rparr>" by blast
  show "ID (row_of b1) = ID old"
    "OfficialTitle (row_of b1) = OfficialTitle old"
    "Year (row_of b1) = Year old"
    "Season (row_of b1) = Season old"
    "RRSSLink (row_of b1) = RRSSLink old"
    "EpsCollect (row_of b1) = EpsCollect old"
    "Offset (row_of b1) = Offset old"
    "IncludeFilter (row_of b1) = IncludeFilter old"
    "ExcludeFilter (row_of b1) = ExcludeFilter old"
    "Parse (row_of b1) = Parse old"
    "PosterLink (row_of b1) = PosterLink old"
    "Deleted (row_of b1) = Deleted old"
    unfolding b by (simp_all add: row_of_def merge_metadata_fields attach_links_fields)
  show "MikanID (row_of b1) =
       (case MikanItem (attach_links old c) of None \<Rightarrow> MikanID old
        | Some it \<Rightarrow> Some (mikan_key (mikan_items db) it))"
    "TmdbID (row_of b1) =
       (case TmdbItem (attach_links old c) of None \<Rightarrow> TmdbID old
        | Some it \<Rightarrow> Some (tmdb_key (tmdb_items db) it))"
    unfolding b by (simp_all add: row_of_def)
  show "mikan_items db1 =
       (case MikanItem (attach_links old c) of None \<Rightarrow> mikan_items db
        | Some it \<Rightarrow> mikan_items_with (mikan_items db) it)"
    "tmdb_items db1 =
       (case TmdbItem (attach_links old c) of None \<Rightarrow> tmdb_items db
        | Some it \<Rightarrow> tmdb_items_with (tmdb_items db) it)"
    "torrents db1 = torrents db"
    unfolding d by simp_all
qed

section \<open>The rows of fresh entries\<close>







lemma max_key_Nil [simp]: "max_key [] = 0"
  by (simp add: max_key_def)




section \<open>The create path\<close>




section \<open>First returns the match with the least key\<close>

lemma find_sorted_least:
  assumes "sorted (map f ys)" and "find P ys = Some r" and "x \<in> set ys" and "P x"
  shows "f r \<le> f x"
  using assms
proof (induction ys)
  case Nil
  then show ?case by simp
next
  case (Cons y ys)
  show ?case
  proof (cases "P y")
    case True
    with Cons.prems(2) have "r = y" by simp
    with Cons.prems(1,3) show ?thesis by auto
  next
    case False
    with Cons.prems have "find P ys = Some r" "x \<in> set ys" by auto
    with Cons.IH Cons.prems(1,4) show ?thesis by simp
  qed
qed

lemma find_sort_key_least:
  assumes "find P (sort_key f xs) = Some r" and "x \<in> set xs" and "P x"
  shows "f r \<le> f x"
proof -
  have s: "sorted (map f (sort_key f xs))" by simp
  from assms(2) have x: "x \<in> set (sort_key f xs)" by simp
  from s assms(1) x assms(3) show ?thesis by (rule find_sorted_least)
qed

lemma First_by_links_least:
  assumes "First_by_links flt db m t = (old, None)"
  shows "\<exists>r \<in> set (bangumis db). old = preload db r \<and> link_match m t r \<and>
           (\<forall>x \<in> set (bangumis db). link_match m t x \<longrightarrow> ID r \<le> ID x)"
proof -
  from assms have f: "flt = None"
    by (cases flt) (simp_all add: First_by_links_def)
  with assms obtain r where r: "find (link_match m t) (sort_key ID (bangumis db)) = Some r"
    and o: "old = preload db r"
    by (cases "find (link_match m t) (sort_key ID (bangumis db))")
       (auto simp: First_by_links_def)
  from r have a: "r \<in> set (bangumis db) \<and> link_match m t r"
    by (rule find_sort_key_Some)
  have "\<forall>x \<in> set (bangumis db). link_match m t x \<longrightarrow> ID r \<le> ID x"
    using find_sort_key_least [OF r] by blast
  with a o show ?thesis by blast
qed

lemma First_by_links_iff:
  "(\<exists>old. First_by_links None db m t = (old, None))
     \<longleftrightarrow> (\<exists>r \<in> set (bangumis db). link_match m t r)"
proof
  assume "\<exists>old. First_by_links None db m t = (old, None)"
  then obtain old where "First_by_links None db m t = (old, None)" ..
  from First_by_links_found [OF this] show "\<exists>r \<in> set (bangumis db). link_match m t r"
    by blast
next
  assume "\<exists>r \<in> set (bangumis db). link_match m t r"
  then have "find (link_match m t) (sort_key ID (bangumis db)) \<noteq> None"
    by (simp only: find_sort_key_None) blast
  then obtain r where "find (link_match m t) (sort_key ID (bangumis db)) = Some r" by blast
  then show "\<exists>old. First_by_links None db m t = (old, None)"
    by (simp add: First_by_links_def)
qed

section \<open>One round of the merge loop, from the end\<close>



section \<open>The rows an entity owns\<close>



section \<open>The entity's row after the merge path\<close>

lemma merge_rows_after:
  assumes sb: "save_belongs db (merge_metadata (attach_links old c) (EpisodeMetadata c)) = Inr (db1, b1)"
    and d: "db' = db1\<lparr>bangumis := map (\<lambda>r. if ID r = ID old then row_of b1 else r) (bangumis db),
                     episode_metadata := tbl\<rparr>"
  shows "map ID (bangumis db') = map ID (bangumis db)"
    and "r' \<in> set (bangumis db') \<Longrightarrow> ID r' = ID old \<Longrightarrow> r' = row_of b1"
    and "r \<in> set (bangumis db) \<Longrightarrow> ID r \<noteq> ID old \<Longrightarrow> r \<in> set (bangumis db')"
    and "ID old \<in> set (map ID (bangumis db)) \<Longrightarrow> row_of b1 \<in> set (bangumis db')"
    and "mikan_items db' = mikan_items db1" and "tmdb_items db' = tmdb_items db1"
proof -
  note mr = merge_row [OF sb]
  have b: "bangumis db' = map (\<lambda>r. if ID r = ID old then row_of b1 else r) (bangumis db)"
    by (simp add: d)
  show "map ID (bangumis db') = map ID (bangumis db)"
    unfolding b using mr(1) by (induction "bangumis db") auto
  show "r' \<in> set (bangumis db') \<Longrightarrow> ID r' = ID old \<Longrightarrow> r' = row_of b1"
    unfolding b by auto
  show "r \<in> set (bangumis db) \<Longrightarrow> ID r \<noteq> ID old \<Longrightarrow> r \<in> set (bangumis db')"
    unfolding b by force
  show "ID old \<in> set (map ID (bangumis db)) \<Longrightarrow> row_of b1 \<in> set (bangumis db')"
    unfolding b by force
  show "mikan_items db' = mikan_items db1" "tmdb_items db' = tmdb_items db1"
    by (simp_all add: d)
qed

lemma found_key_stored:
  assumes "First_by_links flt db m t = (old, None)"
  shows "ID old \<in> set (map ID (bangumis db))"
  using First_by_links_found [OF assms] by (auto simp: preload_columns)

text \<open>The links of the row after the merge path.\<close>

lemma kept_mikan_link:
  assumes "old = preload db r" and "MikanID old = Some m" and "m \<noteq> 0"
  shows "(case MikanItem (attach_links old c) of None \<Rightarrow> MikanID old
          | Some it \<Rightarrow> Some (mikan_key (mikan_items db) it)) = Some m"
proof -
  from assms(2) have mi: "MikanItem (attach_links old c) = MikanItem old"
    by (simp add: attach_links_fields)
  show ?thesis
  proof (cases "MikanItem old")
    case None
    with mi assms(2) show ?thesis by simp
  next
    case (Some it)
    with assms(1,2) have "find (\<lambda>it. mi_ID it = m) (mikan_items db) = Some it"
      by (simp add: preload_MikanItem preload_columns)
    then have "mi_ID it = m" by (auto simp: find_Some_iff)
    with assms(3) have "mikan_key (mikan_items db) it = m" by (simp add: mikan_key_def)
    with mi Some show ?thesis by simp
  qed
qed

lemma kept_tmdb_link:
  assumes "old = preload db r" and "TmdbID old = Some t" and "t \<noteq> 0"
  shows "(case TmdbItem (attach_links old c) of None \<Rightarrow> TmdbID old
          | Some it \<Rightarrow> Some (tmdb_key (tmdb_items db) it)) = Some t"
proof -
  from assms(2) have ti: "TmdbItem (attach_links old c) = TmdbItem old"
    by (simp add: attach_links_fields)
  show ?thesis
  proof (cases "TmdbItem old")
    case None
    with ti assms(2) show ?thesis by simp
  next
    case (Some it)
    with assms(1,2) have "find (\<lambda>it. ti_ID it = t) (tmdb_items db) = Some it"
      by (simp add: preload_TmdbItem preload_columns)
    then have "ti_ID it = t" by (auto simp: find_Some_iff)
    with assms(3) have "tmdb_key (tmdb_items db) it = t" by (simp add: tmdb_key_def)
    with ti Some show ?thesis by simp
  qed
qed

lemma null_mikan_link:
  assumes "old = preload db r" and "MikanID old = None"
  shows "MikanItem (attach_links old c) = MikanItem c"
proof -
  from assms have "MikanItem old = None" by (simp add: preload_MikanItem preload_columns)
  with assms(2) show ?thesis by (cases "MikanItem c") (simp_all add: attach_links_fields)
qed

lemma null_tmdb_link:
  assumes "old = preload db r" and "TmdbID old = None"
  shows "TmdbItem (attach_links old c) = TmdbItem c"
proof -
  from assms have "TmdbItem old = None" by (simp add: preload_TmdbItem preload_columns)
  with assms(2) show ?thesis by (cases "TmdbItem c") (simp_all add: attach_links_fields)
qed

section \<open>The Title Match Index\<close>

lemma instr_pos_iff: "0 < instr x y \<longleftrightarrow> sublist y x"
proof (induction x)
  case Nil
  show ?case by simp
next
  case (Cons c cs)
  show ?case
  proof (cases "prefix y (c # cs)")
    case True
    then show ?thesis by (simp add: sublist_Cons_right)
  next
    case False
    with Cons.IH show ?thesis
      by (cases "instr cs y") (simp_all add: sublist_Cons_right)
  qed
qed

lemma title_match_iff:
  "title_match n m \<longleftrightarrow> sublist (em_Title m) n \<and> sublist (em_Group m) n"
  by (simp add: title_match_def instr_pos_iff)

lemma GetBangumiParseByTitle_found:
  assumes "GetBangumiParseByTitle flt db n = Inr p"
  shows "flt = None \<and> p \<in> set (episode_metadata db) \<and> title_match n p"
proof -
  from assms have f: "flt = None"
    by (cases flt) (simp_all add: GetBangumiParseByTitle_def)
  with assms have "find (title_match n) (sort_key em_ID (episode_metadata db)) = Some p"
    by (cases "find (title_match n) (sort_key em_ID (episode_metadata db))")
       (simp_all add: GetBangumiParseByTitle_def)
  from find_sort_key_Some [OF this] f show ?thesis by simp
qed

lemma GetBangumiParseByTitle_error_iff:
  "(\<exists>e. GetBangumiParseByTitle flt db n = Inl e)
     \<longleftrightarrow> flt \<noteq> None \<or> \<not> (\<exists>m \<in> set (episode_metadata db). title_match n m)"
proof (cases flt)
  case (Some msg)
  then show ?thesis by (simp add: GetBangumiParseByTitle_def)
next
  case None
  show ?thesis
  proof (cases "find (title_match n) (sort_key em_ID (episode_metadata db))")
    case none: None
    then have "\<forall>m \<in> set (episode_metadata db). \<not> title_match n m"
      by (simp only: find_sort_key_None)
    with None none show ?thesis by (simp add: GetBangumiParseByTitle_def)
  next
    case (Some p)
    from find_sort_key_Some [OF this] have "\<exists>m \<in> set (episode_metadata db). title_match n m"
      by blast
    with None Some show ?thesis by (simp add: GetBangumiParseByTitle_def)
  qed
qed

lemma GetBangumiParseByTitle_not_found:
  assumes "\<nexists>p. GetBangumiParseByTitle None db n = Inr p"
  shows "GetBangumiParseByTitle None db n = Inl ErrRecordNotFound"
  using assms
  by (cases "find (title_match n) (sort_key em_ID (episode_metadata db))")
     (simp_all add: GetBangumiParseByTitle_def)

lemma GetBangumiParseByTitle_cong:
  "episode_metadata db = episode_metadata db' \<Longrightarrow>
     GetBangumiParseByTitle flt db n = GetBangumiParseByTitle flt db' n"
  by (cases flt) (simp_all add: GetBangumiParseByTitle_def)

section \<open>The discovery loop\<close>

lemma update_values: "set (map snd (AList.update k v al)) \<subseteq> insert v (set (map snd al))"
  by (induction al) auto

lemma FindNewBangumi_step_eligible:
  "eligible env db t \<Longrightarrow>
     parsed (FindNewBangumi_step env db d t) = parsed d @ [Name t] \<and>
     set (dispatched (FindNewBangumi_step env db d t))
       \<subseteq> (if TitleMetaParse env (Name t) = None then {} else {t}) \<union> set (dispatched d)"
proof -
  assume e: "eligible env db t"
  then obtain err where l: "GetBangumiParseByTitle (meta_fault env (Name t)) db (Name t) = Inl err"
    by (cases "GetBangumiParseByTitle (meta_fault env (Name t)) db (Name t)")
       (simp_all add: eligible_def)
  from e have f: "FilterTorrent env t" by (simp add: eligible_def)
  show ?thesis
  proof (cases "TitleMetaParse env (Name t)")
    case None
    with l f show ?thesis by (simp add: FindNewBangumi_step_def dispatched_def)
  next
    case (Some raw)
    with l f have "dispatched (FindNewBangumi_step env db d t)
        = map snd (AList.update (em_Title raw) t (newTorrents d))"
      and p: "parsed (FindNewBangumi_step env db d t) = parsed d @ [Name t]"
      by (simp_all add: FindNewBangumi_step_def dispatched_def)
    then have "set (dispatched (FindNewBangumi_step env db d t))
        \<subseteq> insert t (set (map snd (newTorrents d)))"
      by (simp only: update_values)
    with Some p show ?thesis by (simp add: dispatched_def)
  qed
qed

lemma FindNewBangumi_step_not_eligible:
  "\<not> eligible env db t \<Longrightarrow> FindNewBangumi_step env db d t = d"
  by (cases "GetBangumiParseByTitle (meta_fault env (Name t)) db (Name t)")
     (simp_all add: eligible_def FindNewBangumi_step_def)

lemma FindNewBangumi_loop_parsed:
  "parsed (FindNewBangumi_loop env db d ts)
     = parsed d @ map Name (filter (eligible env db) ts)"
proof (induction ts arbitrary: d)
  case Nil
  show ?case by simp
next
  case (Cons t ts)
  show ?case
  proof (cases "eligible env db t")
    case True
    from FindNewBangumi_step_eligible [OF True, of d] Cons.IH [of "FindNewBangumi_step env db d t"] True
    show ?thesis by simp
  next
    case False
    from FindNewBangumi_step_not_eligible [OF False, of d] Cons.IH [of d] False
    show ?thesis by simp
  qed
qed

lemma FindNewBangumi_loop_dispatched:
  "set (dispatched (FindNewBangumi_loop env db d ts))
     \<subseteq> set (dispatched d)
        \<union> {t \<in> set ts. eligible env db t \<and> TitleMetaParse env (Name t) \<noteq> None}"
proof (induction ts arbitrary: d)
  case Nil
  show ?case by simp
next
  case (Cons t ts)
  let ?d1 = "FindNewBangumi_step env db d t"
  note ih = Cons.IH [of ?d1]
  show ?case
  proof (cases "eligible env db t")
    case True
    from FindNewBangumi_step_eligible [OF True, of d]
    have s: "set (dispatched ?d1)
       \<subseteq> (if TitleMetaParse env (Name t) = None then {} else {t}) \<union> set (dispatched d)"
      by blast
    show ?thesis
    proof
      fix x assume "x \<in> set (dispatched (FindNewBangumi_loop env db d (t # ts)))"
      then have "x \<in> set (dispatched (FindNewBangumi_loop env db ?d1 ts))" by simp
      with ih have "x \<in> set (dispatched ?d1)
          \<or> x \<in> {t \<in> set ts. eligible env db t \<and> TitleMetaParse env (Name t) \<noteq> None}"
        by blast
      then show "x \<in> set (dispatched d)
        \<union> {y \<in> set (t # ts). eligible env db y \<and> TitleMetaParse env (Name y) \<noteq> None}"
      proof
        assume "x \<in> set (dispatched ?d1)"
        with s have "x \<in> (if TitleMetaParse env (Name t) = None then {} else {t}) \<union> set (dispatched d)"
          by (rule subsetD)
        with True show ?thesis by (cases "TitleMetaParse env (Name t) = None") auto
      next
        assume "x \<in> {t \<in> set ts. eligible env db t \<and> TitleMetaParse env (Name t) \<noteq> None}"
        then show ?thesis by auto
      qed
    qed
  next
    case False
    from FindNewBangumi_step_not_eligible [OF False, of d] ih
    show ?thesis by auto
  qed
qed

section \<open>The release table\<close>

lemma CreateTorrent_tables:
  "episode_metadata (fst (CreateTorrent flt db t)) = episode_metadata db"
  "bangumis (fst (CreateTorrent flt db t)) = bangumis db"
  by (cases flt; simp add: CreateTorrent_def)+

lemma CreateTorrent_fault: "flt \<noteq> None \<Longrightarrow> fst (CreateTorrent flt db t) = db"
  by (cases flt) (simp_all add: CreateTorrent_def)

lemma find_replace_same:
  "find (\<lambda>x. URL x = URL t) (map (\<lambda>x. if URL x = URL t then t else x) xs)
     = (if URL t \<in> set (map URL xs) then Some t else None)"
  by (induction xs) auto

lemma find_replace_other:
  "u \<noteq> URL t \<Longrightarrow>
     find (\<lambda>x. URL x = u) (map (\<lambda>x. if URL x = URL t then t else x) xs)
       = find (\<lambda>x. URL x = u) xs"
  by (induction xs) auto

lemma find_append_same:
  "URL t \<notin> set (map URL xs) \<Longrightarrow> find (\<lambda>x. URL x = URL t) (xs @ [t]) = Some t"
  by (induction xs) auto

lemma find_append_other:
  "u \<noteq> URL t \<Longrightarrow> find (\<lambda>x. URL x = u) (xs @ [t]) = find (\<lambda>x. URL x = u) xs"
  by (induction xs) auto

lemma CreateTorrent_saved:
  "GetTorrentByURL None (fst (CreateTorrent None db t)) (URL t) = Inr t"
  by (simp add: CreateTorrent_def GetTorrentByURL_def find_replace_same find_append_same
           del: set_map)

lemma CreateTorrent_other:
  assumes "u \<noteq> URL t"
  shows "GetTorrentByURL f (fst (CreateTorrent flt db t)) u = GetTorrentByURL f db u"
proof (cases flt)
  case (Some msg)
  then show ?thesis by (simp add: CreateTorrent_def)
next
  case None
  have "find (\<lambda>x. URL x = u) (torrents (fst (CreateTorrent None db t)))
      = find (\<lambda>x. URL x = u) (torrents db)"
    using assms by (simp add: CreateTorrent_def find_replace_other find_append_other del: set_map)
  with None show ?thesis by (cases f) (simp_all add: GetTorrentByURL_def)
qed

lemma CreateTorrent_urls:
  "set (map URL (torrents db)) \<subseteq> set (map URL (torrents (fst (CreateTorrent flt db t))))"
  by (cases flt) (auto simp: CreateTorrent_def)

lemma CreateTorrent_url:
  "URL t \<in> set (map URL (torrents (fst (CreateTorrent None db t))))"
  by (auto simp: CreateTorrent_def)

section \<open>The loop of RefreshRSS\<close>

lemma RefreshRSS_loop_append:
  "RefreshRSS_loop env w (xs @ ys) = RefreshRSS_loop env (RefreshRSS_loop env w xs) ys"
  by (induction xs arbitrary: w) simp_all

lemma RefreshRSS_loop_snoc:
  "RefreshRSS_loop env w (xs @ [t]) = RefreshRSS_step env (RefreshRSS_loop env w xs) t"
  by (simp add: RefreshRSS_loop_append)

text \<open>The three ways a round ends.\<close>

lemma RefreshRSS_step_warn:
  assumes "GetBangumiParseByTitle (meta_fault env (Name t)) (store w) (Name t) = Inl e"
  shows "RefreshRSS_step env w t = w\<lparr>events := events w @ [Warn (Name t)]\<rparr>"
  using assms by (simp add: RefreshRSS_step_def)

lemma RefreshRSS_step_skip:
  assumes "GetBangumiParseByTitle (meta_fault env (Name t)) (store w) (Name t) = Inr md"
    and "GetTorrentByURL (exist_fault env (URL t)) (store w) (URL t) = Inr ex"
    and "Downloaded ex"
  shows "RefreshRSS_step env w t = w\<lparr>events := events w @ [Debug (URL t)]\<rparr>"
  using assms by (simp add: RefreshRSS_step_def Let_def)

lemma RefreshRSS_step_queue:
  assumes "GetBangumiParseByTitle (meta_fault env (Name t)) (store w) (Name t) = Inr md"
    and "\<not> (\<exists>ex. GetTorrentByURL (exist_fault env (URL t)) (store w) (URL t) = Inr ex
               \<and> Downloaded ex)"
  shows "RefreshRSS_step env w t =
           w\<lparr>store := fst (CreateTorrent (create_fault env (URL t)) (store w)
                              (t\<lparr>BangumiID := em_BangumiID md\<rparr>)),
             queue := queue w @ [t\<lparr>BangumiID := em_BangumiID md\<rparr>]\<rparr>"
proof (cases "GetTorrentByURL (exist_fault env (URL t)) (store w) (URL t)")
  case (Inl e)
  with assms(1) show ?thesis by (simp add: RefreshRSS_step_def Let_def)
next
  case (Inr ex)
  with assms(2) have "\<not> Downloaded ex" by simp
  with assms(1) Inr show ?thesis by (simp add: RefreshRSS_step_def Let_def)
qed

lemma RefreshRSS_step_cases:
  "RefreshRSS_step env w t = w\<lparr>events := events w @ [Warn (Name t)]\<rparr>
   \<or> RefreshRSS_step env w t = w\<lparr>events := events w @ [Debug (URL t)]\<rparr>
   \<or> (\<exists>md :: EpisodeMetadata. RefreshRSS_step env w t =
           w\<lparr>store := fst (CreateTorrent (create_fault env (URL t)) (store w)
                              (t\<lparr>BangumiID := em_BangumiID md\<rparr>)),
             queue := queue w @ [t\<lparr>BangumiID := em_BangumiID md\<rparr>]\<rparr>)"
proof (cases "GetBangumiParseByTitle (meta_fault env (Name t)) (store w) (Name t)")
  case (Inl e)
  from RefreshRSS_step_warn [OF this] show ?thesis by blast
next
  case (Inr md)
  show ?thesis
  proof (cases "\<exists>ex. GetTorrentByURL (exist_fault env (URL t)) (store w) (URL t) = Inr ex
               \<and> Downloaded ex")
    case True
    then obtain ex where "GetTorrentByURL (exist_fault env (URL t)) (store w) (URL t) = Inr ex"
      "Downloaded ex" by blast
    from RefreshRSS_step_skip [OF Inr this] show ?thesis by blast
  next
    case False
    from RefreshRSS_step_queue [OF Inr False]
    have "\<exists>md :: EpisodeMetadata. RefreshRSS_step env w t =
           w\<lparr>store := fst (CreateTorrent (create_fault env (URL t)) (store w)
                              (t\<lparr>BangumiID := em_BangumiID md\<rparr>)),
             queue := queue w @ [t\<lparr>BangumiID := em_BangumiID md\<rparr>]\<rparr>"
      by (rule exI)
    then show ?thesis by (intro disjI2)
  qed
qed

lemma RefreshRSS_step_frame:
  "episode_metadata (store (RefreshRSS_step env w t)) = episode_metadata (store w)"
  "prefix (queue w) (queue (RefreshRSS_step env w t))"
  "prefix (events w) (events (RefreshRSS_step env w t))"
  "set (map URL (torrents (store w))) \<subseteq> set (map URL (torrents (store (RefreshRSS_step env w t))))"
proof -
  note c = RefreshRSS_step_cases [of env w t]
  from c show "episode_metadata (store (RefreshRSS_step env w t)) = episode_metadata (store w)"
    by (elim disjE exE) (simp_all add: CreateTorrent_tables)
  from c show "prefix (queue w) (queue (RefreshRSS_step env w t))"
    by (elim disjE exE) simp_all
  from c show "prefix (events w) (events (RefreshRSS_step env w t))"
    by (elim disjE exE) simp_all
  from c show "set (map URL (torrents (store w)))
      \<subseteq> set (map URL (torrents (store (RefreshRSS_step env w t))))"
    by (elim disjE exE) (simp_all add: CreateTorrent_urls del: set_map)
qed

lemma RefreshRSS_step_other:
  assumes "u \<noteq> URL t"
  shows "GetTorrentByURL f (store (RefreshRSS_step env w t)) u = GetTorrentByURL f (store w) u"
proof -
  have o: "GetTorrentByURL f (fst (CreateTorrent flt db (t\<lparr>BangumiID := k\<rparr>))) u
      = GetTorrentByURL f db u" for flt db k
    by (rule CreateTorrent_other) (simp add: assms)
  from RefreshRSS_step_cases [of env w t] show ?thesis
    by (elim disjE exE) (simp_all add: o)
qed

lemma RefreshRSS_loop_frame:
  "episode_metadata (store (RefreshRSS_loop env w ts)) = episode_metadata (store w)
   \<and> prefix (queue w) (queue (RefreshRSS_loop env w ts))
   \<and> prefix (events w) (events (RefreshRSS_loop env w ts))
   \<and> set (map URL (torrents (store w)))
        \<subseteq> set (map URL (torrents (store (RefreshRSS_loop env w ts))))"
proof (induction ts arbitrary: w)
  case Nil
  show ?case by simp
next
  case (Cons t ts)
  note s = RefreshRSS_step_frame [where env = env and w = w and t = t]
  note ih = Cons.IH [of "RefreshRSS_step env w t"]
  have 1: "episode_metadata (store (RefreshRSS_loop env w (t # ts))) = episode_metadata (store w)"
    using ih s(1) by simp
  have 2: "prefix (queue w) (queue (RefreshRSS_loop env w (t # ts)))"
    using ih s(2) by (simp del: set_map) (metis prefix_order.order_trans)
  have 3: "prefix (events w) (events (RefreshRSS_loop env w (t # ts)))"
    using ih s(3) by (simp del: set_map) (metis prefix_order.order_trans)
  have 4: "set (map URL (torrents (store w)))
        \<subseteq> set (map URL (torrents (store (RefreshRSS_loop env w (t # ts)))))"
    using ih s(4) by (simp del: set_map) (metis subset_trans)
  from 1 2 3 4 show ?case by blast
qed

lemma RefreshRSS_loop_other:
  assumes "u \<notin> set (map URL ts)"
  shows "GetTorrentByURL f (store (RefreshRSS_loop env w ts)) u = GetTorrentByURL f (store w) u"
  using assms
proof (induction ts arbitrary: w)
  case Nil
  show ?case by simp
next
  case (Cons t ts)
  from Cons.prems have "u \<noteq> URL t" "u \<notin> set (map URL ts)" by auto
  from Cons.IH [OF this(2), of "RefreshRSS_step env w t"] RefreshRSS_step_other [OF this(1)]
  show ?case by simp
qed

section \<open>The pull\<close>

lemma GetTorrentByURL_fault:
  "flt \<noteq> None \<Longrightarrow> \<exists>msg. GetTorrentByURL flt db u = Inl (ErrStorage msg)"
  by (cases flt) (simp_all add: GetTorrentByURL_def)

lemma CheckNewTorrents_loop_fault:
  assumes "\<exists>x \<in> set ts. flt (URL x) \<noteq> None"
  shows "fst (CheckNewTorrents_loop flt db acc ts) = []"
  using assms
proof (induction ts arbitrary: acc)
  case Nil
  then show ?case by simp
next
  case (Cons t ts)
  show ?case
  proof (cases "flt (URL t) = None")
    case False
    from GetTorrentByURL_fault [OF this] obtain msg
      where "GetTorrentByURL (flt (URL t)) db (URL t) = Inl (ErrStorage msg)" by blast
    then show ?thesis by simp
  next
    case True
    with Cons.prems have r: "\<exists>x \<in> set ts. flt (URL x) \<noteq> None" by auto
    show ?thesis
    proof (cases "GetTorrentByURL (flt (URL t)) db (URL t)")
      case (Inl err)
      with Cons.IH [OF r] show ?thesis by simp
    next
      case (Inr existing)
      with Cons.IH [OF r] show ?thesis by simp
    qed
  qed
qed

lemma pull_fault:
  assumes "\<exists>x \<in> set (GetTorrents env url). check_fault env (URL x) \<noteq> None"
  shows "pullRss env db url = []" and "RefreshRSS env w url = w"
proof -
  from CheckNewTorrents_loop_fault [OF assms]
  show p: "pullRss env db url = []" for db
    by (simp add: pullRss_def getTorrents_def CheckNewTorrents_def)
  then show "RefreshRSS env w url = w" by (simp add: RefreshRSS_def)
qed

section \<open>Evaluation on the concrete inputs\<close>

lemmas store_defs =
  First_by_links_def preload_def link_match_def Save_def save_belongs_def save_mikan_link_def
  save_tmdb_link_def save_MikanItem_def save_TmdbItem_def save_row_def row_of_def
  save_child_def metadata_row_def unique_key_def next_key_def max_key_def default_season_def
  default_parse_def extract_tmdbID_def extract_mikanID_def attach_links_def same_record_def
  Let_def

lemmas input_defs =
  zero_Bangumi_def zero_EpisodeMetadata_def frieren_1080_def frieren_720_def
  frieren_s0_1080_def frieren_s0_720_def mikan_5_def tmdb_9_def empty_db_def no_faults_def
  faulty_lookup_def cand_mikan_a_def cand_mikan_b_def cand_s0_a_def cand_s0_b_def
  cand_s0_c_def cand_tmdb_only_def cand_scalar_def row_a_def child_1080_def db_a_def
  loaded_a_def child_720_def db_ab_def row_t_def db_a2_def db_t_def loaded_t_def db_tb_def
  cand_tmdb_k0_def db_ak0_def

lemma run_create_a: "CreateBangumi no_faults empty_db cand_mikan_a = (db_a, None)"
  by (simp add: CreateBangumi_def store_defs input_defs)


lemma lookup_a:
  "First_by_links None db_a 5 t = (loaded_a, None)"
  by (simp add: store_defs input_defs)

lemma lookup_t:
  "First_by_links None db_t m 9 = (loaded_t, None)"
  by (simp add: store_defs input_defs)

lemma run_merge_b: "CreateBangumi no_faults db_a cand_mikan_b = (db_ab, None)"
  by (simp add: CreateBangumi_def store_defs input_defs)

lemma run_merge_tb: "CreateBangumi no_faults db_t cand_mikan_b = (db_tb, None)"
  by (simp add: CreateBangumi_def store_defs input_defs)



lemma run_tmdb_only: "CreateBangumi no_faults db_a cand_tmdb_only = (db_a2, None)"
  by (simp add: CreateBangumi_def store_defs input_defs)

lemma run_scalar: "CreateBangumi no_faults db_t cand_scalar = (db_t, None)"
  by (simp add: CreateBangumi_def store_defs input_defs)

lemma run_merge_k0: "CreateBangumi no_faults db_a cand_tmdb_k0 = (db_ak0, None)"
  by (simp add: CreateBangumi_def store_defs input_defs)

lemma lookup_abc:
  "GetBangumiParseByTitle None db_a ''[ABC] Frieren - 05 [1080p]'' = Inr child_1080"
  by (simp add: GetBangumiParseByTitle_def title_match_def input_defs)

lemma lookup_xyz:
  "GetBangumiParseByTitle None db_a ''[XYZ] Frieren - 05 [1080p]'' = Inl ErrRecordNotFound"
  by (simp add: GetBangumiParseByTitle_def title_match_def input_defs)

lemmas feed_defs =
  feed_url_def release_5_def release_6_def release_new_def release_rejected_def meshi_720_def
  feed_env_def check_fault_env_def loop_fault_env_def create_fault_env_def meta_fault_env_def
  world_a_def world_d_def

lemmas refresh_defs =
  GetBangumiParseByTitle_def title_match_def GetTorrentByURL_def
  CreateTorrent_def CheckNewTorrents_def getTorrents_def pullRss_def RefreshRSS_step_def
  RefreshRSS_def FindNewBangumi_step_def FindNewBangumi_def dispatched_def Let_def

lemma run_find: "FindNewBangumi feed_env db_a feed_url
    = \<lparr>newTorrents = [(''Dungeon Meshi'', release_new)], parsed = [Name release_new]\<rparr>"
  by (simp add: refresh_defs feed_defs input_defs)

lemma run_find_fault: "FindNewBangumi meta_fault_env db_a feed_url
    = \<lparr>newTorrents = [(''Frieren'', release_5), (''Dungeon Meshi'', release_new)],
       parsed = [Name release_5, Name release_new]\<rparr>"
  by (simp add: refresh_defs feed_defs input_defs)

lemma run_refresh: "queue (RefreshRSS feed_env world_a feed_url)
    = [release_5\<lparr>BangumiID := 1, RssLink := feed_url\<rparr>,
       release_6\<lparr>BangumiID := 1, RssLink := feed_url\<rparr>]"
  by (simp add: refresh_defs feed_defs input_defs)

lemma run_check_fault:
  "CheckNewTorrents (check_fault check_fault_env) db_a (GetTorrents check_fault_env feed_url)
     = ([], Some (ErrStorage ''disk I/O error''))"
  by (simp add: refresh_defs feed_defs input_defs)

lemma run_refresh_fault: "RefreshRSS check_fault_env world_a feed_url = world_a"
  by (simp add: refresh_defs feed_defs input_defs)




lemma fresh_b: "\<forall>x \<in> set (EpisodeMetadata cand_mikan_b). fresh_entry x"
  by (simp add: fresh_entry_def input_defs)


lemma room_a_b: "room_for db_a cand_mikan_b"
  by (simp add: room_for_def key_room_def max_key_def input_defs)

lemma room_t_b: "room_for db_t cand_mikan_b"
  by (simp add: room_for_def key_room_def max_key_def input_defs)

lemma index_a: "index_holds db_a"
  by (simp add: index_holds_def unique_key_def input_defs)

lemma index_t: "index_holds db_t"
  by (simp add: index_holds_def unique_key_def input_defs)


lemma premises_a_b:
  "First_by_links (first_fault no_faults) db_a (extract_mikanID cand_mikan_b)
       (extract_tmdbID cand_mikan_b) = (loaded_a, None)
   \<and> ID loaded_a \<noteq> 0 \<and> save_fault no_faults = None \<and> index_holds db_a
   \<and> (\<forall>m \<in> set (EpisodeMetadata cand_mikan_b). fresh_entry m) \<and> room_for db_a cand_mikan_b"
proof -
  have "First_by_links (first_fault no_faults) db_a (extract_mikanID cand_mikan_b)
       (extract_tmdbID cand_mikan_b) = (loaded_a, None)"
    by (simp add: store_defs input_defs)
  moreover have "ID loaded_a \<noteq> 0 \<and> save_fault no_faults = None"
    by (simp add: input_defs)
  ultimately show ?thesis using index_a fresh_b room_a_b by blast
qed

lemma premises_t_b:
  "First_by_links (first_fault no_faults) db_t (extract_mikanID cand_mikan_b)
       (extract_tmdbID cand_mikan_b) = (loaded_t, None)
   \<and> ID loaded_t \<noteq> 0 \<and> save_fault no_faults = None \<and> index_holds db_t
   \<and> (\<forall>m \<in> set (EpisodeMetadata cand_mikan_b). fresh_entry m) \<and> room_for db_t cand_mikan_b"
proof -
  have "First_by_links (first_fault no_faults) db_t (extract_mikanID cand_mikan_b)
       (extract_tmdbID cand_mikan_b) = (loaded_t, None)"
    by (simp add: store_defs input_defs)
  moreover have "ID loaded_t \<noteq> 0 \<and> save_fault no_faults = None"
    by (simp add: input_defs)
  ultimately show ?thesis using index_t fresh_b room_t_b by blast
qed

lemma run_loop_5:
  "RefreshRSS_loop loop_fault_env world_a [release_5]
     = world_a\<lparr>store := db_a\<lparr>torrents := [release_5\<lparr>BangumiID := 1\<rparr>]\<rparr>,
               queue := [release_5\<lparr>BangumiID := 1\<rparr>]\<rparr>"
  by (simp add: refresh_defs feed_defs input_defs)

lemma run_loop_fault:
  "queue (RefreshRSS_loop loop_fault_env world_a [release_5, release_6, release_new])
     = [release_5\<lparr>BangumiID := 1\<rparr>]
   \<and> events (RefreshRSS_loop loop_fault_env world_a [release_5, release_6, release_new])
     = [Warn (Name release_6), Warn (Name release_new)]"
  by (simp add: refresh_defs feed_defs input_defs)

section \<open>Claims\<close>

text \<open>
  C2, as stated, fails. \<open>cand_mikan_a\<close> is created in the empty store: one entity, linked
  to the release-tracker identifier 5 and to no metadata-catalog record. The later
  candidate \<open>cand_tmdb_only\<close> has the same title and only the metadata-catalog record 9.
  The lookup compares \<open>mikan_id\<close> with 0 and \<open>tmdb_id\<close> with 9, finds nothing, and
  the call adds a second row; the first row still has no metadata-catalog link.
\<close>

theorem C2_tmdb_only_counterexample:
  "CreateBangumi no_faults empty_db cand_mikan_a = (db_a, None)
   \<and> map MikanID (bangumis db_a) = [Some 5]
   \<and> map TmdbID (bangumis db_a) = [None]
   \<and> OfficialTitle cand_tmdb_only = OfficialTitle cand_mikan_a
   \<and> MikanID cand_tmdb_only = None \<and> MikanItem cand_tmdb_only = None
   \<and> TmdbItem cand_tmdb_only = Some tmdb_9
   \<and> snd (First_by_links (first_fault no_faults) db_a (extract_mikanID cand_tmdb_only)
            (extract_tmdbID cand_tmdb_only)) = Some ErrRecordNotFound
   \<and> CreateBangumi no_faults db_a cand_tmdb_only = (db_a2, None)
   \<and> map ID (bangumis db_a2) = [1, 2]
   \<and> map MikanID (bangumis db_a2) = [Some 5, None]
   \<and> map TmdbID (bangumis db_a2) = [None, Some 9]"
proof -
  have "snd (First_by_links (first_fault no_faults) db_a (extract_mikanID cand_tmdb_only)
            (extract_tmdbID cand_tmdb_only)) = Some ErrRecordNotFound"
    by (simp add: store_defs input_defs)
  moreover have "map MikanID (bangumis db_a) = [Some 5] \<and> map TmdbID (bangumis db_a) = [None]
      \<and> OfficialTitle cand_tmdb_only = OfficialTitle cand_mikan_a
      \<and> MikanID cand_tmdb_only = None \<and> MikanItem cand_tmdb_only = None
      \<and> TmdbItem cand_tmdb_only = Some tmdb_9
      \<and> map ID (bangumis db_a2) = [1, 2]
      \<and> map MikanID (bangumis db_a2) = [Some 5, None]
      \<and> map TmdbID (bangumis db_a2) = [None, Some 9]"
    by (simp add: input_defs)
  ultimately show ?thesis using run_create_a run_tmdb_only by blast
qed
text \<open>
  C2, amended. The lookup of \<open>CreateBangumi\<close> compares identifiers only. When storage
  works it returns an entity exactly when some stored entity has the release-tracker
  link \<open>mikanID\<close> or the metadata-catalog link \<open>tmdbID\<close>, and the entity returned
  is one of these, the one with the least key, with its associations loaded. Let the
  lookup for the candidate's identifiers return the stored entity \<open>old\<close>, let the write
  not fault, the metadata table satisfy its constraints, the candidate's entries be as
  the title parser hands them over, and no table be full. Then the call succeeds and
  adds no row. If \<open>old\<close> is linked to the release-tracker identifier \<open>m\<close> and to no
  metadata-catalog record, and the candidate carries an embedded metadata-catalog
  record, the row of the entity is afterwards linked to \<open>m\<close> and to the key under
  which the engine holds that record; and the same with the two catalogs exchanged.
\<close>

theorem C2_or_match:
  "((\<exists>old. First_by_links None db mikanID tmdbID = (old, None))
      \<longleftrightarrow> (\<exists>r \<in> set (bangumis db). MikanID r = Some mikanID \<or> TmdbID r = Some tmdbID))
   \<and> (\<forall>found. First_by_links None db mikanID tmdbID = (found, None) \<longrightarrow>
         (\<exists>r \<in> set (bangumis db). found = preload db r
            \<and> (MikanID r = Some mikanID \<or> TmdbID r = Some tmdbID)
            \<and> (\<forall>x \<in> set (bangumis db).
                  MikanID x = Some mikanID \<or> TmdbID x = Some tmdbID \<longrightarrow> ID r \<le> ID x)))
   \<and> (First_by_links (first_fault env) db (extract_mikanID c) (extract_tmdbID c) = (old, None)
        \<and> ID old \<noteq> 0 \<and> save_fault env = None \<and> index_holds db
        \<and> (\<forall>m \<in> set (EpisodeMetadata c). fresh_entry m) \<and> room_for db c
      \<longrightarrow> (\<exists>db'. CreateBangumi env db c = (db', None)
             \<and> map ID (bangumis db') = map ID (bangumis db)
             \<and> (\<exists>r' \<in> set (bangumis db'). ID r' = ID old)
             \<and> (\<forall>r' \<in> set (bangumis db'). ID r' = ID old \<longrightarrow>
                   (\<forall>m ti. MikanID old = Some m \<and> m \<noteq> 0 \<and> TmdbID old = None
                            \<and> TmdbItem c = Some ti \<longrightarrow>
                      MikanID r' = Some m \<and> TmdbID r' = Some (tmdb_key (tmdb_items db) ti))
                 \<and> (\<forall>t mi. TmdbID old = Some t \<and> t \<noteq> 0 \<and> MikanID old = None
                            \<and> MikanItem c = Some mi \<longrightarrow>
                      TmdbID r' = Some t \<and> MikanID r' = Some (mikan_key (mikan_items db) mi)))))"
proof (intro conjI)
  show "(\<exists>old. First_by_links None db mikanID tmdbID = (old, None))
      \<longleftrightarrow> (\<exists>r \<in> set (bangumis db). MikanID r = Some mikanID \<or> TmdbID r = Some tmdbID)"
    using First_by_links_iff [of db mikanID tmdbID] by (simp only: link_match_def)
next
  show "\<forall>found. First_by_links None db mikanID tmdbID = (found, None) \<longrightarrow>
         (\<exists>r \<in> set (bangumis db). found = preload db r
            \<and> (MikanID r = Some mikanID \<or> TmdbID r = Some tmdbID)
            \<and> (\<forall>x \<in> set (bangumis db).
                  MikanID x = Some mikanID \<or> TmdbID x = Some tmdbID \<longrightarrow> ID r \<le> ID x))"
  proof (intro allI impI)
    fix found assume "First_by_links None db mikanID tmdbID = (found, None)"
    from First_by_links_least [OF this]
    show "\<exists>r \<in> set (bangumis db). found = preload db r
            \<and> (MikanID r = Some mikanID \<or> TmdbID r = Some tmdbID)
            \<and> (\<forall>x \<in> set (bangumis db).
                  MikanID x = Some mikanID \<or> TmdbID x = Some tmdbID \<longrightarrow> ID r \<le> ID x)"
      by (simp only: link_match_def)
  qed
next
  show "First_by_links (first_fault env) db (extract_mikanID c) (extract_tmdbID c) = (old, None)
        \<and> ID old \<noteq> 0 \<and> save_fault env = None \<and> index_holds db
        \<and> (\<forall>m \<in> set (EpisodeMetadata c). fresh_entry m) \<and> room_for db c
      \<longrightarrow> (\<exists>db'. CreateBangumi env db c = (db', None)
             \<and> map ID (bangumis db') = map ID (bangumis db)
             \<and> (\<exists>r' \<in> set (bangumis db'). ID r' = ID old)
             \<and> (\<forall>r' \<in> set (bangumis db'). ID r' = ID old \<longrightarrow>
                   (\<forall>m ti. MikanID old = Some m \<and> m \<noteq> 0 \<and> TmdbID old = None
                            \<and> TmdbItem c = Some ti \<longrightarrow>
                      MikanID r' = Some m \<and> TmdbID r' = Some (tmdb_key (tmdb_items db) ti))
                 \<and> (\<forall>t mi. TmdbID old = Some t \<and> t \<noteq> 0 \<and> MikanID old = None
                            \<and> MikanItem c = Some mi \<longrightarrow>
                      TmdbID r' = Some t \<and> MikanID r' = Some (mikan_key (mikan_items db) mi))))"
  proof
    assume h: "First_by_links (first_fault env) db (extract_mikanID c) (extract_tmdbID c) = (old, None)
        \<and> ID old \<noteq> 0 \<and> save_fault env = None \<and> index_holds db
        \<and> (\<forall>m \<in> set (EpisodeMetadata c). fresh_entry m) \<and> room_for db c"
    then have look: "First_by_links (first_fault env) db (extract_mikanID c) (extract_tmdbID c) = (old, None)"
      and nz: "ID old \<noteq> 0" and sf: "save_fault env = None" and idx: "index_holds db"
      and fresh: "\<forall>m \<in> set (EpisodeMetadata c). fresh_entry m" and room: "room_for db c"
      by blast+
    from CreateBangumi_merge_run [OF look nz sf idx fresh room] obtain db1 b1
      where sb: "save_belongs db (merge_metadata (attach_links old c) (EpisodeMetadata c)) = Inr (db1, b1)"
        and run: "CreateBangumi env db c =
             (db1\<lparr>bangumis := map (\<lambda>r. if ID r = ID old then row_of b1 else r) (bangumis db),
                  episode_metadata :=
                    episode_metadata db
                      @ fresh_rows (max_key (map em_ID (episode_metadata db))) (ID old)
                          (new_entries (EpisodeMetadata old) (EpisodeMetadata c))\<rparr>, None)"
      by blast
    define db' where "db' = db1\<lparr>bangumis := map (\<lambda>r. if ID r = ID old then row_of b1 else r) (bangumis db),
                  episode_metadata :=
                    episode_metadata db
                      @ fresh_rows (max_key (map em_ID (episode_metadata db))) (ID old)
                          (new_entries (EpisodeMetadata old) (EpisodeMetadata c))\<rparr>"
    from run have run': "CreateBangumi env db c = (db', None)" by (simp add: db'_def)
    note ra = merge_rows_after [OF sb db'_def]
    note mr = merge_row [OF sb]
    from First_by_links_found [OF look] obtain r
      where r: "r \<in> set (bangumis db)" and o: "old = preload db r" by blast
    have ex: "\<exists>r' \<in> set (bangumis db'). ID r' = ID old"
      using ra(4) [OF found_key_stored [OF look]] mr(1) by blast
    have links: "\<forall>r' \<in> set (bangumis db'). ID r' = ID old \<longrightarrow>
                   (\<forall>m ti. MikanID old = Some m \<and> m \<noteq> 0 \<and> TmdbID old = None
                            \<and> TmdbItem c = Some ti \<longrightarrow>
                      MikanID r' = Some m \<and> TmdbID r' = Some (tmdb_key (tmdb_items db) ti))
                 \<and> (\<forall>t mi. TmdbID old = Some t \<and> t \<noteq> 0 \<and> MikanID old = None
                            \<and> MikanItem c = Some mi \<longrightarrow>
                      TmdbID r' = Some t \<and> MikanID r' = Some (mikan_key (mikan_items db) mi))"
    proof (intro ballI impI conjI allI)
      fix r' m ti
      assume r': "r' \<in> set (bangumis db')" "ID r' = ID old"
        and a: "MikanID old = Some m \<and> m \<noteq> 0 \<and> TmdbID old = None \<and> TmdbItem c = Some ti"
      from ra(2) [OF r'] have e: "r' = row_of b1" .
      from a have "MikanID old = Some m" "m \<noteq> 0" by blast+
      from kept_mikan_link [OF o this] mr(13) e show "MikanID r' = Some m" by simp
      from a have "TmdbID old = None" "TmdbItem c = Some ti" by blast+
      with null_tmdb_link [OF o, of c] mr(14) e
      show "TmdbID r' = Some (tmdb_key (tmdb_items db) ti)" by simp
    next
      fix r' t mi
      assume r': "r' \<in> set (bangumis db')" "ID r' = ID old"
        and a: "TmdbID old = Some t \<and> t \<noteq> 0 \<and> MikanID old = None \<and> MikanItem c = Some mi"
      from ra(2) [OF r'] have e: "r' = row_of b1" .
      from a have "TmdbID old = Some t" "t \<noteq> 0" by blast+
      from kept_tmdb_link [OF o this] mr(14) e show "TmdbID r' = Some t" by simp
      from a have "MikanID old = None" "MikanItem c = Some mi" by blast+
      with null_mikan_link [OF o, of c] mr(13) e
      show "MikanID r' = Some (mikan_key (mikan_items db) mi)" by simp
    qed
    from run' ra(1) ex links
    show "\<exists>db'. CreateBangumi env db c = (db', None)
             \<and> map ID (bangumis db') = map ID (bangumis db)
             \<and> (\<exists>r' \<in> set (bangumis db'). ID r' = ID old)
             \<and> (\<forall>r' \<in> set (bangumis db'). ID r' = ID old \<longrightarrow>
                   (\<forall>m ti. MikanID old = Some m \<and> m \<noteq> 0 \<and> TmdbID old = None
                            \<and> TmdbItem c = Some ti \<longrightarrow>
                      MikanID r' = Some m \<and> TmdbID r' = Some (tmdb_key (tmdb_items db) ti))
                 \<and> (\<forall>t mi. TmdbID old = Some t \<and> t \<noteq> 0 \<and> MikanID old = None
                            \<and> MikanItem c = Some mi \<longrightarrow>
                      TmdbID r' = Some t \<and> MikanID r' = Some (mikan_key (mikan_items db) mi)))"
      by blast
  qed
qed
theorem C2_or_match_witness:
  "First_by_links None db_a 5 9 = (loaded_a, None)
   \<and> (\<exists>r \<in> set (bangumis db_a). loaded_a = preload db_a r \<and> MikanID r = Some 5)
   \<and> MikanID loaded_a = Some 5 \<and> TmdbID loaded_a = None \<and> TmdbItem cand_mikan_b = Some tmdb_9
   \<and> CreateBangumi no_faults db_a cand_mikan_b = (db_ab, None)
   \<and> map ID (bangumis db_ab) = map ID (bangumis db_a)
   \<and> (\<exists>r' \<in> set (bangumis db_ab). ID r' = ID loaded_a \<and> MikanID r' = Some 5 \<and> TmdbID r' = Some 9)
   \<and> First_by_links None db_t 5 9 = (loaded_t, None)
   \<and> TmdbID loaded_t = Some 9 \<and> MikanID loaded_t = None \<and> MikanItem cand_mikan_b = Some mikan_5
   \<and> CreateBangumi no_faults db_t cand_mikan_b = (db_tb, None)
   \<and> map ID (bangumis db_tb) = map ID (bangumis db_t)
   \<and> (\<exists>r' \<in> set (bangumis db_tb). ID r' = ID loaded_t \<and> TmdbID r' = Some 9 \<and> MikanID r' = Some 5)"
proof -
  note ta = C2_or_match [where db = db_a and mikanID = 5 and tmdbID = 9 and env = no_faults
      and c = cand_mikan_b and old = loaded_a]
  note tt = C2_or_match [where db = db_t and mikanID = 5 and tmdbID = 9 and env = no_faults
      and c = cand_mikan_b and old = loaded_t]
  have f: "MikanID loaded_a = Some 5" "TmdbID loaded_a = None" "TmdbItem cand_mikan_b = Some tmdb_9"
    "TmdbID loaded_t = Some 9" "MikanID loaded_t = None" "MikanItem cand_mikan_b = Some mikan_5"
    "tmdb_key (tmdb_items db_a) tmdb_9 = 9" "mikan_key (mikan_items db_t) mikan_5 = 5"
    by (simp_all add: tmdb_key_def mikan_key_def input_defs)
  from ta lookup_a [of 9] have "\<exists>r \<in> set (bangumis db_a). loaded_a = preload db_a r
      \<and> (MikanID r = Some 5 \<or> TmdbID r = Some 9)" by blast
  then obtain r where r: "r \<in> set (bangumis db_a)" "loaded_a = preload db_a r" by blast
  from f(1) have "MikanID (preload db_a r) = Some 5" unfolding r(2) [symmetric] .
  then have "MikanID r = Some 5" by (simp only: preload_columns)
  with r have 1: "\<exists>r \<in> set (bangumis db_a). loaded_a = preload db_a r \<and> MikanID r = Some 5"
    by blast
  from ta premises_a_b obtain db' where
    a: "CreateBangumi no_faults db_a cand_mikan_b = (db', None)"
      "map ID (bangumis db') = map ID (bangumis db_a)"
      "\<exists>r' \<in> set (bangumis db'). ID r' = ID loaded_a"
      "\<forall>r' \<in> set (bangumis db'). ID r' = ID loaded_a \<longrightarrow>
         (\<forall>m ti. MikanID loaded_a = Some m \<and> m \<noteq> 0 \<and> TmdbID loaded_a = None
                  \<and> TmdbItem cand_mikan_b = Some ti \<longrightarrow>
            MikanID r' = Some m \<and> TmdbID r' = Some (tmdb_key (tmdb_items db_a) ti))
         \<and> (\<forall>t mi. TmdbID loaded_a = Some t \<and> t \<noteq> 0 \<and> MikanID loaded_a = None
                  \<and> MikanItem cand_mikan_b = Some mi \<longrightarrow>
            TmdbID r' = Some t \<and> MikanID r' = Some (mikan_key (mikan_items db_a) mi))"
    by blast
  from a(1) run_merge_b have da: "db' = db_ab" by simp
  from a(3) obtain r' where r': "r' \<in> set (bangumis db')" "ID r' = ID loaded_a" by blast
  with a(4) f(1,2,3) have "MikanID r' = Some 5 \<and> TmdbID r' = Some (tmdb_key (tmdb_items db_a) tmdb_9)"
    by force
  with r' f(7) have 2: "\<exists>r' \<in> set (bangumis db_ab). ID r' = ID loaded_a \<and> MikanID r' = Some 5
      \<and> TmdbID r' = Some 9"
    unfolding da by auto
  from a(2) have 3: "map ID (bangumis db_ab) = map ID (bangumis db_a)" unfolding da .
  from tt premises_t_b obtain db'' where
    b: "CreateBangumi no_faults db_t cand_mikan_b = (db'', None)"
      "map ID (bangumis db'') = map ID (bangumis db_t)"
      "\<exists>r' \<in> set (bangumis db''). ID r' = ID loaded_t"
      "\<forall>r' \<in> set (bangumis db''). ID r' = ID loaded_t \<longrightarrow>
         (\<forall>m ti. MikanID loaded_t = Some m \<and> m \<noteq> 0 \<and> TmdbID loaded_t = None
                  \<and> TmdbItem cand_mikan_b = Some ti \<longrightarrow>
            MikanID r' = Some m \<and> TmdbID r' = Some (tmdb_key (tmdb_items db_t) ti))
         \<and> (\<forall>t mi. TmdbID loaded_t = Some t \<and> t \<noteq> 0 \<and> MikanID loaded_t = None
                  \<and> MikanItem cand_mikan_b = Some mi \<longrightarrow>
            TmdbID r' = Some t \<and> MikanID r' = Some (mikan_key (mikan_items db_t) mi))"
    by blast
  from b(1) run_merge_tb have dt: "db'' = db_tb" by simp
  from b(3) obtain q where q: "q \<in> set (bangumis db'')" "ID q = ID loaded_t" by blast
  with b(4) f(4,5,6) have "TmdbID q = Some 9 \<and> MikanID q = Some (mikan_key (mikan_items db_t) mikan_5)"
    by force
  with q f(8) have 4: "\<exists>r' \<in> set (bangumis db_tb). ID r' = ID loaded_t \<and> TmdbID r' = Some 9
      \<and> MikanID r' = Some 5"
    unfolding dt by auto
  from b(2) have 5: "map ID (bangumis db_tb) = map ID (bangumis db_t)" unfolding dt .
  from lookup_a [of 9] lookup_t [of 5] 1 2 3 4 5 f(1-6) run_merge_b run_merge_tb
  show ?thesis by blast
qed
text \<open>
  C3, as stated, fails. The stored entity of \<open>db_t\<close> has no release-tracker link, the
  candidate \<open>cand_scalar\<close> supplies the identifier 5 in its scalar field, the lookup
  finds the entity by its metadata-catalog link, and after the call the stored link is
  still null.
\<close>

theorem C3_scalar_link_counterexample:
  "MikanID cand_scalar = Some 5 \<and> MikanItem cand_scalar = None
   \<and> First_by_links (first_fault no_faults) db_t (extract_mikanID cand_scalar)
        (extract_tmdbID cand_scalar) = (loaded_t, None)
   \<and> ID loaded_t \<noteq> 0 \<and> MikanID loaded_t = None
   \<and> map MikanID (bangumis db_t) = [None]
   \<and> CreateBangumi no_faults db_t cand_scalar = (db_t, None)"
proof -
  have "First_by_links (first_fault no_faults) db_t (extract_mikanID cand_scalar)
        (extract_tmdbID cand_scalar) = (loaded_t, None)"
    by (simp add: store_defs input_defs)
  moreover have "MikanID cand_scalar = Some 5 \<and> MikanItem cand_scalar = None
      \<and> ID loaded_t \<noteq> 0 \<and> MikanID loaded_t = None \<and> map MikanID (bangumis db_t) = [None]"
    by (simp add: input_defs)
  ultimately show ?thesis using run_scalar by blast
qed
text \<open>
  C3, amended. On the merge path, after a successful write, when the stored entity has
  no release-tracker link: if the candidate carries an embedded release-tracker record,
  every row of the entity is linked to the key under which the engine holds that
  record (the record's own key, or the next key of the catalog table when the record
  has none), and the catalog table has the record under that key unless it had a record
  with that key, which stays as it was; if the candidate carries no embedded record,
  the link stays null and the catalog table is unchanged, whatever the candidate's
  scalar field holds. The same for the metadata catalog.
\<close>

theorem C3_link_fill_in:
  assumes look: "First_by_links (first_fault env) db (extract_mikanID c) (extract_tmdbID c) = (old, None)"
    and nz: "ID old \<noteq> 0"
    and ok: "CreateBangumi env db c = (db', None)"
  shows "(\<exists>r' \<in> set (bangumis db'). ID r' = ID old)
     \<and> (MikanID old = None \<longrightarrow>
          (\<forall>r' \<in> set (bangumis db'). ID r' = ID old \<longrightarrow>
             MikanID r' = map_option (mikan_key (mikan_items db)) (MikanItem c))
          \<and> mikan_items db' =
              (case MikanItem c of None \<Rightarrow> mikan_items db
               | Some mi \<Rightarrow> mikan_items_with (mikan_items db) mi))
     \<and> (TmdbID old = None \<longrightarrow>
          (\<forall>r' \<in> set (bangumis db'). ID r' = ID old \<longrightarrow>
             TmdbID r' = map_option (tmdb_key (tmdb_items db)) (TmdbItem c))
          \<and> tmdb_items db' =
              (case TmdbItem c of None \<Rightarrow> tmdb_items db
               | Some ti \<Rightarrow> tmdb_items_with (tmdb_items db) ti))"
proof -
  from CreateBangumi_merge_ok [OF look nz ok] obtain db1 b1 tbl
    where sb: "save_belongs db (merge_metadata (attach_links old c) (EpisodeMetadata c)) = Inr (db1, b1)"
      and d: "db' = db1\<lparr>bangumis := map (\<lambda>r. if ID r = ID old then row_of b1 else r) (bangumis db),
                     episode_metadata := tbl\<rparr>" by blast
  note ra = merge_rows_after [OF sb d]
  note mr = merge_row [OF sb]
  from First_by_links_found [OF look] obtain r
    where r: "r \<in> set (bangumis db)" and o: "old = preload db r" by blast
  have ex: "\<exists>r' \<in> set (bangumis db'). ID r' = ID old"
    using ra(4) [OF found_key_stored [OF look]] mr(1) by blast
  have mk: "MikanID old = None \<longrightarrow>
          (\<forall>r' \<in> set (bangumis db'). ID r' = ID old \<longrightarrow>
             MikanID r' = map_option (mikan_key (mikan_items db)) (MikanItem c))
          \<and> mikan_items db' =
              (case MikanItem c of None \<Rightarrow> mikan_items db
               | Some mi \<Rightarrow> mikan_items_with (mikan_items db) mi)"
  proof (intro impI conjI ballI)
    fix r' assume n: "MikanID old = None" and r': "r' \<in> set (bangumis db')" "ID r' = ID old"
    from ra(2) [OF r'] have e: "r' = row_of b1" .
    from mr(13) null_mikan_link [OF o n, of c] n e
    show "MikanID r' = map_option (mikan_key (mikan_items db)) (MikanItem c)"
      by (cases "MikanItem c") simp_all
  next
    assume n: "MikanID old = None"
    from mr(15) null_mikan_link [OF o n, of c] ra(5)
    show "mikan_items db' =
              (case MikanItem c of None \<Rightarrow> mikan_items db
               | Some mi \<Rightarrow> mikan_items_with (mikan_items db) mi)" by simp
  qed
  have tk: "TmdbID old = None \<longrightarrow>
          (\<forall>r' \<in> set (bangumis db'). ID r' = ID old \<longrightarrow>
             TmdbID r' = map_option (tmdb_key (tmdb_items db)) (TmdbItem c))
          \<and> tmdb_items db' =
              (case TmdbItem c of None \<Rightarrow> tmdb_items db
               | Some ti \<Rightarrow> tmdb_items_with (tmdb_items db) ti)"
  proof (intro impI conjI ballI)
    fix r' assume n: "TmdbID old = None" and r': "r' \<in> set (bangumis db')" "ID r' = ID old"
    from ra(2) [OF r'] have e: "r' = row_of b1" .
    from mr(14) null_tmdb_link [OF o n, of c] n e
    show "TmdbID r' = map_option (tmdb_key (tmdb_items db)) (TmdbItem c)"
      by (cases "TmdbItem c") simp_all
  next
    assume n: "TmdbID old = None"
    from mr(16) null_tmdb_link [OF o n, of c] ra(6)
    show "tmdb_items db' =
              (case TmdbItem c of None \<Rightarrow> tmdb_items db
               | Some ti \<Rightarrow> tmdb_items_with (tmdb_items db) ti)" by simp
  qed
  from ex mk tk show ?thesis by blast
qed
theorem C3_link_fill_in_witness:
  "First_by_links (first_fault no_faults) db_t (extract_mikanID cand_mikan_b)
       (extract_tmdbID cand_mikan_b) = (loaded_t, None)
   \<and> ID loaded_t \<noteq> 0 \<and> MikanID loaded_t = None \<and> MikanItem cand_mikan_b = Some mikan_5
   \<and> CreateBangumi no_faults db_t cand_mikan_b = (db_tb, None)
   \<and> (\<exists>r' \<in> set (bangumis db_tb). ID r' = ID loaded_t \<and> MikanID r' = Some 5)
   \<and> mikan_items db_t = [] \<and> mikan_items db_tb = [mikan_5]
   \<and> First_by_links (first_fault no_faults) db_a (extract_mikanID cand_tmdb_k0)
       (extract_tmdbID cand_tmdb_k0) = (loaded_a, None)
   \<and> ID loaded_a \<noteq> 0 \<and> TmdbID loaded_a = None
   \<and> TmdbItem cand_tmdb_k0 = Some (tmdb_9\<lparr>ti_ID := 0, ti_Season := 0\<rparr>)
   \<and> CreateBangumi no_faults db_a cand_tmdb_k0 = (db_ak0, None)
   \<and> (\<exists>r' \<in> set (bangumis db_ak0). ID r' = ID loaded_a \<and> TmdbID r' = Some 1)
   \<and> tmdb_items db_a = [] \<and> tmdb_items db_ak0 = [tmdb_9\<lparr>ti_ID := 1\<rparr>]"
proof -
  have lt: "First_by_links (first_fault no_faults) db_t (extract_mikanID cand_mikan_b)
       (extract_tmdbID cand_mikan_b) = (loaded_t, None)"
    using premises_t_b by blast
  have la: "First_by_links (first_fault no_faults) db_a (extract_mikanID cand_tmdb_k0)
       (extract_tmdbID cand_tmdb_k0) = (loaded_a, None)"
    by (simp add: store_defs input_defs)
  have f: "ID loaded_t \<noteq> 0" "MikanID loaded_t = None" "MikanItem cand_mikan_b = Some mikan_5"
    "mikan_items db_t = []" "mikan_items db_tb = [mikan_5]"
    "ID loaded_a \<noteq> 0" "TmdbID loaded_a = None"
    "TmdbItem cand_tmdb_k0 = Some (tmdb_9\<lparr>ti_ID := 0, ti_Season := 0\<rparr>)"
    "tmdb_items db_a = []" "tmdb_items db_ak0 = [tmdb_9\<lparr>ti_ID := 1\<rparr>]"
    by (simp_all add: input_defs)
  have k: "mikan_key [] mikan_5 = 5" "tmdb_key [] (tmdb_9\<lparr>ti_ID := 0, ti_Season := 0\<rparr>) = 1"
    by (simp_all add: mikan_key_def tmdb_key_def max_key_def input_defs)
  note t = C3_link_fill_in [OF lt f(1) run_merge_tb]
  note u = C3_link_fill_in [OF la f(6) run_merge_k0]
  from t obtain r' where r': "r' \<in> set (bangumis db_tb)" "ID r' = ID loaded_t" by blast
  from t f(2) r' have "MikanID r' = map_option (mikan_key (mikan_items db_t)) (MikanItem cand_mikan_b)"
    by blast
  then have "MikanID r' = Some 5" unfolding f(3) f(4) by (simp add: k)
  with r' have 1: "\<exists>r' \<in> set (bangumis db_tb). ID r' = ID loaded_t \<and> MikanID r' = Some 5"
    by blast
  from u obtain q where q: "q \<in> set (bangumis db_ak0)" "ID q = ID loaded_a" by blast
  from u f(7) q have "TmdbID q = map_option (tmdb_key (tmdb_items db_a)) (TmdbItem cand_tmdb_k0)"
    by blast
  then have "TmdbID q = Some 1" unfolding f(8) f(9) by (simp add: k)
  with q have 2: "\<exists>r' \<in> set (bangumis db_ak0). ID r' = ID loaded_a \<and> TmdbID r' = Some 1"
    by blast
  from lt la f 1 2 run_merge_tb run_merge_k0 show ?thesis by blast
qed
text \<open>
  C6. With a working storage, \<open>GetBangumiParseByTitle\<close> returns a record exactly when
  some stored record has its title and its subtitle group as substrings of the release
  name; the record returned is a stored one with both substrings in the name; and when
  no stored record qualifies the result is record-not-found.
\<close>

theorem C6_containment_matching:
  "((\<exists>parser. GetBangumiParseByTitle None db torrentName = Inr parser) \<longleftrightarrow>
      (\<exists>m \<in> set (episode_metadata db).
          sublist (em_Title m) torrentName \<and> sublist (em_Group m) torrentName))
   \<and> (\<forall>parser. GetBangumiParseByTitle None db torrentName = Inr parser \<longrightarrow>
          parser \<in> set (episode_metadata db)
        \<and> sublist (em_Title parser) torrentName \<and> sublist (em_Group parser) torrentName)
   \<and> ((\<nexists>parser. GetBangumiParseByTitle None db torrentName = Inr parser) \<longrightarrow>
          GetBangumiParseByTitle None db torrentName = Inl ErrRecordNotFound)"
proof -
  have "(\<exists>parser. GetBangumiParseByTitle None db torrentName = Inr parser)
      \<longleftrightarrow> \<not> (\<exists>e. GetBangumiParseByTitle None db torrentName = Inl e)"
    by (cases "GetBangumiParseByTitle None db torrentName") simp_all
  also have "\<dots> \<longleftrightarrow> (\<exists>m \<in> set (episode_metadata db). title_match torrentName m)"
    by (simp only: GetBangumiParseByTitle_error_iff) simp
  finally have a: "(\<exists>parser. GetBangumiParseByTitle None db torrentName = Inr parser) \<longleftrightarrow>
      (\<exists>m \<in> set (episode_metadata db).
          sublist (em_Title m) torrentName \<and> sublist (em_Group m) torrentName)"
    by (simp only: title_match_iff)
  have b: "\<forall>parser. GetBangumiParseByTitle None db torrentName = Inr parser \<longrightarrow>
          parser \<in> set (episode_metadata db)
        \<and> sublist (em_Title parser) torrentName \<and> sublist (em_Group parser) torrentName"
  proof (intro allI impI)
    fix parser assume "GetBangumiParseByTitle None db torrentName = Inr parser"
    from GetBangumiParseByTitle_found [OF this]
    show "parser \<in> set (episode_metadata db)
        \<and> sublist (em_Title parser) torrentName \<and> sublist (em_Group parser) torrentName"
      by (simp only: title_match_iff)
  qed
  have c: "(\<nexists>parser. GetBangumiParseByTitle None db torrentName = Inr parser) \<longrightarrow>
          GetBangumiParseByTitle None db torrentName = Inl ErrRecordNotFound"
    by (intro impI) (rule GetBangumiParseByTitle_not_found)
  from a b c show ?thesis by blast
qed
theorem C6_containment_matching_witness:
  "episode_metadata db_a = [child_1080]
   \<and> em_Title child_1080 = ''Frieren'' \<and> em_Group child_1080 = ''ABC''
   \<and> GetBangumiParseByTitle None db_a ''[ABC] Frieren - 05 [1080p]'' = Inr child_1080
   \<and> sublist ''Frieren'' ''[ABC] Frieren - 05 [1080p]''
   \<and> sublist ''ABC'' ''[ABC] Frieren - 05 [1080p]''
   \<and> GetBangumiParseByTitle None db_a ''[XYZ] Frieren - 05 [1080p]'' = Inl ErrRecordNotFound
   \<and> \<not> (sublist ''Frieren'' ''[XYZ] Frieren - 05 [1080p]''
          \<and> sublist ''ABC'' ''[XYZ] Frieren - 05 [1080p]'')"
proof -
  note t = C6_containment_matching [where db = db_a and torrentName = "''[ABC] Frieren - 05 [1080p]''"]
  note u = C6_containment_matching [where db = db_a and torrentName = "''[XYZ] Frieren - 05 [1080p]''"]
  have e: "episode_metadata db_a = [child_1080]"
    by (simp add: input_defs)
  have f: "em_Title child_1080 = ''Frieren''" "em_Group child_1080 = ''ABC''"
    by (simp_all add: input_defs)
  from t lookup_abc
  have "sublist (em_Title child_1080) ''[ABC] Frieren - 05 [1080p]''
      \<and> sublist (em_Group child_1080) ''[ABC] Frieren - 05 [1080p]''"
    by blast
  with f have a: "sublist ''Frieren'' ''[ABC] Frieren - 05 [1080p]''
      \<and> sublist ''ABC'' ''[ABC] Frieren - 05 [1080p]''"
    by simp
  from lookup_xyz have "\<nexists>parser. GetBangumiParseByTitle None db_a ''[XYZ] Frieren - 05 [1080p]''
      = Inr parser" by simp
  with u have "\<not> (\<exists>m \<in> set (episode_metadata db_a).
      sublist (em_Title m) ''[XYZ] Frieren - 05 [1080p]''
      \<and> sublist (em_Group m) ''[XYZ] Frieren - 05 [1080p]'')"
    by blast
  with e f have b: "\<not> (sublist ''Frieren'' ''[XYZ] Frieren - 05 [1080p]''
          \<and> sublist ''ABC'' ''[XYZ] Frieren - 05 [1080p]'')"
    by simp
  from e f lookup_abc lookup_xyz a b show ?thesis by blast
qed
text \<open>
  C7. When the entity lookup of \<open>CreateBangumi\<close> fails with an error other than
  record-not-found, the call returns that error and the store it was given, unchanged:
  nothing is written. When the lookup reports record-not-found, the call is the create
  path: it is \<open>db.Save\<close> of the candidate.
\<close>

theorem C7_lookup_fault_aborts:
  "(snd (First_by_links (first_fault env) db (extract_mikanID c) (extract_tmdbID c)) = Some e
      \<and> e \<noteq> ErrRecordNotFound
    \<longrightarrow> CreateBangumi env db c = (db, Some e))
   \<and> (snd (First_by_links (first_fault env) db (extract_mikanID c) (extract_tmdbID c))
        = Some ErrRecordNotFound
    \<longrightarrow> CreateBangumi env db c = Save (save_fault env) db c)"
  using CreateBangumi_abort [of env db c e] CreateBangumi_create [of env db c] by blast
theorem C7_lookup_fault_aborts_witness:
  "snd (First_by_links (first_fault faulty_lookup) db_a (extract_mikanID cand_mikan_b)
          (extract_tmdbID cand_mikan_b)) = Some (ErrStorage ''database is locked'')
   \<and> ErrStorage ''database is locked'' \<noteq> ErrRecordNotFound
   \<and> CreateBangumi faulty_lookup db_a cand_mikan_b = (db_a, Some (ErrStorage ''database is locked''))
   \<and> snd (First_by_links (first_fault no_faults) db_a (extract_mikanID cand_tmdb_only)
          (extract_tmdbID cand_tmdb_only)) = Some ErrRecordNotFound
   \<and> CreateBangumi no_faults db_a cand_tmdb_only = Save (save_fault no_faults) db_a cand_tmdb_only
   \<and> Save (save_fault no_faults) db_a cand_tmdb_only = (db_a2, None)"
proof -
  have h1: "snd (First_by_links (first_fault faulty_lookup) db_a (extract_mikanID cand_mikan_b)
          (extract_tmdbID cand_mikan_b)) = Some (ErrStorage ''database is locked'')
      \<and> ErrStorage ''database is locked'' \<noteq> ErrRecordNotFound"
    by (simp add: First_by_links_def faulty_lookup_def)
  have h2: "snd (First_by_links (first_fault no_faults) db_a (extract_mikanID cand_tmdb_only)
          (extract_tmdbID cand_tmdb_only)) = Some ErrRecordNotFound"
    by (simp add: store_defs input_defs)
  note t = C7_lookup_fault_aborts [where env = faulty_lookup and db = db_a and c = cand_mikan_b
      and e = "ErrStorage ''database is locked''"]
  note u = C7_lookup_fault_aborts [where env = no_faults and db = db_a and c = cand_tmdb_only]
  from t h1 have c1: "CreateBangumi faulty_lookup db_a cand_mikan_b
      = (db_a, Some (ErrStorage ''database is locked''))" by blast
  from u h2 have c2: "CreateBangumi no_faults db_a cand_tmdb_only
      = Save (save_fault no_faults) db_a cand_tmdb_only" by blast
  with run_tmdb_only have c3: "Save (save_fault no_faults) db_a cand_tmdb_only = (db_a2, None)"
    by simp
  from h1 h2 c1 c2 c3 show ?thesis by blast
qed
text \<open>
  C8, as stated, fails. \<open>RefreshRSS\<close> gets its releases from \<open>pullRss\<close>, whose
  \<open>CheckNewTorrents\<close> returns at the first existence lookup that fails with a storage
  fault, and \<open>getTorrents\<close> drops the error. With a fault at the lookup of
  \<open>release_6\<close>, the pull is empty and \<open>RefreshRSS\<close> leaves the world as it was:
  \<open>release_5\<close>, which is queued when the storage works, is not processed.
\<close>

theorem C8_pull_aborts_counterexample:
  "GetTorrents check_fault_env feed_url = [release_5, release_6, release_new, release_rejected]
   \<and> check_fault check_fault_env (URL release_5) = None
   \<and> check_fault check_fault_env (URL release_6) = Some ''disk I/O error''
   \<and> queue (RefreshRSS feed_env world_a feed_url)
        = [release_5\<lparr>BangumiID := 1, RssLink := feed_url\<rparr>,
           release_6\<lparr>BangumiID := 1, RssLink := feed_url\<rparr>]
   \<and> CheckNewTorrents (check_fault check_fault_env) db_a (GetTorrents check_fault_env feed_url)
        = ([], Some (ErrStorage ''disk I/O error''))
   \<and> pullRss check_fault_env db_a feed_url = []
   \<and> RefreshRSS check_fault_env world_a feed_url = world_a
   \<and> queue world_a = [] \<and> events world_a = []"
proof -
  have "GetTorrents check_fault_env feed_url = [release_5, release_6, release_new, release_rejected]
      \<and> check_fault check_fault_env (URL release_5) = None
      \<and> check_fault check_fault_env (URL release_6) = Some ''disk I/O error''
      \<and> queue world_a = [] \<and> events world_a = []"
    by (simp add: feed_defs)
  moreover have "pullRss check_fault_env db_a feed_url = []"
    by (simp add: pullRss_def getTorrents_def run_check_fault)
  ultimately show ?thesis
    using run_refresh run_check_fault run_refresh_fault by blast
qed
text \<open>
  C8, amended. Let the loop of \<open>RefreshRSS\<close> run on the list \<open>pre @ t # post\<close> from the
  world \<open>w\<close>; \<open>w1\<close> is the world after \<open>pre\<close>, \<open>w2\<close> the world after \<open>t\<close>, \<open>wf\<close>
  the world at the end. Whatever happened to the releases of \<open>pre\<close>, the round of \<open>t\<close>
  takes place and the loop goes on with \<open>post\<close>, which keeps what the round added to
  the queue and to the log. The metadata lookup of \<open>t\<close> gives what it gives on the
  store of \<open>w\<close>, and so does the existence lookup when no release of \<open>pre\<close> has the
  URL of \<open>t\<close>. If the metadata lookup returns an error, the round logs the warning and
  changes nothing else. If it returns a record and the existence lookup returns a
  downloaded release, the round logs the skip and changes nothing else. Otherwise (the
  existence lookup faults, finds nothing, or finds a release not downloaded) the release
  is queued with the entity's identifier; it is then saved, found under its URL after
  the round and with its URL in the store at the end, when the write does not fault,
  and it is queued without being saved when the write faults. The pull that feeds the
  loop is not per-item: when the existence lookup of \<open>CheckNewTorrents\<close> faults for
  one release of the feed, the pull is empty and \<open>RefreshRSS\<close> leaves the world as it
  was.
\<close>

theorem C8_loop_isolation:
  "(let w1 = RefreshRSS_loop env w pre;
        w2 = RefreshRSS_loop env w (pre @ [t]);
        wf = RefreshRSS_loop env w (pre @ t # post);
        meta = GetBangumiParseByTitle (meta_fault env (Name t)) (store w) (Name t);
        existing = GetTorrentByURL (exist_fault env (URL t)) (store w1) (URL t)
    in wf = RefreshRSS_loop env w2 post
     \<and> prefix (queue w2) (queue wf) \<and> prefix (events w2) (events wf)
     \<and> GetBangumiParseByTitle (meta_fault env (Name t)) (store w1) (Name t) = meta
     \<and> (URL t \<notin> set (map URL pre) \<longrightarrow>
          existing = GetTorrentByURL (exist_fault env (URL t)) (store w) (URL t))
     \<and> (\<forall>err. meta = Inl err \<longrightarrow> w2 = w1\<lparr>events := events w1 @ [Warn (Name t)]\<rparr>)
     \<and> (\<forall>metaData e. meta = Inr metaData \<and> existing = Inr e \<and> Downloaded e \<longrightarrow>
          w2 = w1\<lparr>events := events w1 @ [Debug (URL t)]\<rparr>)
     \<and> (\<forall>metaData. meta = Inr metaData \<and> \<not> (\<exists>e. existing = Inr e \<and> Downloaded e) \<longrightarrow>
          queue w2 = queue w1 @ [t\<lparr>BangumiID := em_BangumiID metaData\<rparr>]
        \<and> events w2 = events w1
        \<and> (create_fault env (URL t) = None \<longrightarrow>
             GetTorrentByURL None (store w2) (URL t) = Inr (t\<lparr>BangumiID := em_BangumiID metaData\<rparr>)
           \<and> URL t \<in> set (map URL (torrents (store wf))))
        \<and> (create_fault env (URL t) \<noteq> None \<longrightarrow> store w2 = store w1)))
   \<and> ((\<exists>x \<in> set (GetTorrents env url). check_fault env (URL x) \<noteq> None) \<longrightarrow>
        pullRss env (store w) url = [] \<and> RefreshRSS env w url = w)"
proof -
  define w1 where "w1 = RefreshRSS_loop env w pre"
  define w2 where "w2 = RefreshRSS_loop env w (pre @ [t])"
  define wf where "wf = RefreshRSS_loop env w (pre @ t # post)"
  define meta where "meta = GetBangumiParseByTitle (meta_fault env (Name t)) (store w) (Name t)"
  define existing where "existing = GetTorrentByURL (exist_fault env (URL t)) (store w1) (URL t)"
  have step: "w2 = RefreshRSS_step env w1 t"
    by (simp add: w1_def w2_def RefreshRSS_loop_snoc)
  have fin: "wf = RefreshRSS_loop env w2 post"
    using RefreshRSS_loop_append [of env w "pre @ [t]" post] by (simp add: wf_def w2_def)
  note fr = RefreshRSS_loop_frame [of env w2 post, folded fin]
  have pq: "prefix (queue w2) (queue wf)" and pe: "prefix (events w2) (events wf)"
    and urls: "set (map URL (torrents (store w2))) \<subseteq> set (map URL (torrents (store wf)))"
    using fr by blast+
  have "episode_metadata (store w1) = episode_metadata (store w)"
    using RefreshRSS_loop_frame [of env w pre] by (simp add: w1_def)
  then have m1: "GetBangumiParseByTitle (meta_fault env (Name t)) (store w1) (Name t) = meta"
    unfolding meta_def by (rule GetBangumiParseByTitle_cong)
  have ex0: "URL t \<notin> set (map URL pre) \<longrightarrow>
          existing = GetTorrentByURL (exist_fault env (URL t)) (store w) (URL t)"
    unfolding existing_def w1_def by (intro impI) (rule RefreshRSS_loop_other)
  have a: "\<forall>err. meta = Inl err \<longrightarrow> w2 = w1\<lparr>events := events w1 @ [Warn (Name t)]\<rparr>"
  proof (intro allI impI)
    fix err assume "meta = Inl err"
    with m1 have "GetBangumiParseByTitle (meta_fault env (Name t)) (store w1) (Name t) = Inl err"
      by simp
    from RefreshRSS_step_warn [OF this] step
    show "w2 = w1\<lparr>events := events w1 @ [Warn (Name t)]\<rparr>" by simp
  qed
  have b: "\<forall>metaData e. meta = Inr metaData \<and> existing = Inr e \<and> Downloaded e \<longrightarrow>
          w2 = w1\<lparr>events := events w1 @ [Debug (URL t)]\<rparr>"
  proof (intro allI impI)
    fix metaData e assume h: "meta = Inr metaData \<and> existing = Inr e \<and> Downloaded e"
    with m1 have 1: "GetBangumiParseByTitle (meta_fault env (Name t)) (store w1) (Name t) = Inr metaData"
      by simp
    from h have 2: "GetTorrentByURL (exist_fault env (URL t)) (store w1) (URL t) = Inr e"
      and 3: "Downloaded e" by (simp_all add: existing_def)
    from RefreshRSS_step_skip [OF 1 2 3] step
    show "w2 = w1\<lparr>events := events w1 @ [Debug (URL t)]\<rparr>" by simp
  qed
  have c: "\<forall>metaData. meta = Inr metaData \<and> \<not> (\<exists>e. existing = Inr e \<and> Downloaded e) \<longrightarrow>
          queue w2 = queue w1 @ [t\<lparr>BangumiID := em_BangumiID metaData\<rparr>]
        \<and> events w2 = events w1
        \<and> (create_fault env (URL t) = None \<longrightarrow>
             GetTorrentByURL None (store w2) (URL t) = Inr (t\<lparr>BangumiID := em_BangumiID metaData\<rparr>)
           \<and> URL t \<in> set (map URL (torrents (store wf))))
        \<and> (create_fault env (URL t) \<noteq> None \<longrightarrow> store w2 = store w1)"
  proof (intro allI impI)
    fix metaData :: EpisodeMetadata
    assume h: "meta = Inr metaData \<and> \<not> (\<exists>e. existing = Inr e \<and> Downloaded e)"
    let ?t = "t\<lparr>BangumiID := em_BangumiID metaData\<rparr>"
    from h m1 have 1: "GetBangumiParseByTitle (meta_fault env (Name t)) (store w1) (Name t) = Inr metaData"
      by simp
    from h have 2: "\<not> (\<exists>ex. GetTorrentByURL (exist_fault env (URL t)) (store w1) (URL t) = Inr ex
               \<and> Downloaded ex)" by (simp add: existing_def)
    from RefreshRSS_step_queue [OF 1 2] step
    have e: "w2 = w1\<lparr>store := fst (CreateTorrent (create_fault env (URL t)) (store w1) ?t),
                     queue := queue w1 @ [?t]\<rparr>" by simp
    have q: "queue w2 = queue w1 @ [?t]" and ev: "events w2 = events w1"
      and st: "store w2 = fst (CreateTorrent (create_fault env (URL t)) (store w1) ?t)"
      by (simp_all add: e)
    have s1: "create_fault env (URL t) = None \<longrightarrow>
             GetTorrentByURL None (store w2) (URL t) = Inr ?t
           \<and> URL t \<in> set (map URL (torrents (store wf)))"
    proof
      assume n: "create_fault env (URL t) = None"
      have "GetTorrentByURL None (fst (CreateTorrent None (store w1) ?t)) (URL ?t) = Inr ?t"
        by (rule CreateTorrent_saved)
      with n st have g: "GetTorrentByURL None (store w2) (URL t) = Inr ?t" by simp
      have "URL ?t \<in> set (map URL (torrents (fst (CreateTorrent None (store w1) ?t))))"
        by (rule CreateTorrent_url)
      with n st have "URL t \<in> set (map URL (torrents (store w2)))" by simp
      with urls have "URL t \<in> set (map URL (torrents (store wf)))" by (rule subsetD)
      with g show "GetTorrentByURL None (store w2) (URL t) = Inr ?t
           \<and> URL t \<in> set (map URL (torrents (store wf)))" by blast
    qed
    have s2: "create_fault env (URL t) \<noteq> None \<longrightarrow> store w2 = store w1"
      using st by (simp add: CreateTorrent_fault)
    from q ev s1 s2
    show "queue w2 = queue w1 @ [?t] \<and> events w2 = events w1
        \<and> (create_fault env (URL t) = None \<longrightarrow>
             GetTorrentByURL None (store w2) (URL t) = Inr ?t
           \<and> URL t \<in> set (map URL (torrents (store wf))))
        \<and> (create_fault env (URL t) \<noteq> None \<longrightarrow> store w2 = store w1)" by blast
  qed
  have p: "(\<exists>x \<in> set (GetTorrents env url). check_fault env (URL x) \<noteq> None) \<longrightarrow>
        pullRss env (store w) url = [] \<and> RefreshRSS env w url = w"
    using pull_fault [of env url] by blast
  from fin pq pe m1 ex0 a b c p show ?thesis
    unfolding Let_def w1_def [symmetric] w2_def [symmetric] wf_def [symmetric]
      meta_def [symmetric] existing_def [symmetric]
    by blast
qed
theorem C8_loop_isolation_witness:
  "meta_fault loop_fault_env (Name release_6) = Some ''disk I/O error''
   \<and> exist_fault loop_fault_env (URL release_5) = Some ''disk I/O error''
   \<and> RefreshRSS_loop loop_fault_env world_a [release_5]
        = world_a\<lparr>store := db_a\<lparr>torrents := [release_5\<lparr>BangumiID := 1\<rparr>]\<rparr>,
                  queue := [release_5\<lparr>BangumiID := 1\<rparr>]\<rparr>
   \<and> GetTorrentByURL None (store (RefreshRSS_loop loop_fault_env world_a [release_5]))
        (URL release_5) = Inr (release_5\<lparr>BangumiID := 1\<rparr>)
   \<and> URL release_5 \<in> set (map URL (torrents (store
        (RefreshRSS_loop loop_fault_env world_a [release_5, release_6, release_new]))))
   \<and> RefreshRSS_loop loop_fault_env world_a [release_5, release_6]
        = world_a\<lparr>store := db_a\<lparr>torrents := [release_5\<lparr>BangumiID := 1\<rparr>]\<rparr>,
                  queue := [release_5\<lparr>BangumiID := 1\<rparr>],
                  events := [Warn (Name release_6)]\<rparr>
   \<and> queue (RefreshRSS_loop loop_fault_env world_a [release_5, release_6, release_new])
        = [release_5\<lparr>BangumiID := 1\<rparr>]
   \<and> events (RefreshRSS_loop loop_fault_env world_a [release_5, release_6, release_new])
        = [Warn (Name release_6), Warn (Name release_new)]
   \<and> GetTorrentByURL None (store world_d) (URL release_5)
        = Inr (release_5\<lparr>Downloaded := True, BangumiID := 1\<rparr>)
   \<and> RefreshRSS_loop feed_env world_d [release_5]
        = world_d\<lparr>events := [Debug (URL release_5)]\<rparr>
   \<and> create_fault create_fault_env (URL release_5) = Some ''disk I/O error''
   \<and> queue (RefreshRSS_loop create_fault_env world_a [release_5]) = [release_5\<lparr>BangumiID := 1\<rparr>]
   \<and> store (RefreshRSS_loop create_fault_env world_a [release_5]) = db_a
   \<and> release_6 \<in> set (GetTorrents check_fault_env feed_url)
   \<and> check_fault check_fault_env (URL release_6) = Some ''disk I/O error''
   \<and> pullRss check_fault_env (store world_a) feed_url = []
   \<and> RefreshRSS check_fault_env world_a feed_url = world_a"
proof -
  note t1 = C8_loop_isolation [where env = loop_fault_env and w = world_a and pre = "[]"
      and t = release_5 and post = "[release_6, release_new]" and url = feed_url,
      unfolded Let_def append.simps RefreshRSS_loop.simps(1)]
  note t2 = C8_loop_isolation [where env = loop_fault_env and w = world_a and pre = "[release_5]"
      and t = release_6 and post = "[release_new]" and url = feed_url,
      unfolded Let_def append.simps]
  note t3 = C8_loop_isolation [where env = feed_env and w = world_d and pre = "[]"
      and t = release_5 and post = "[]" and url = feed_url,
      unfolded Let_def append.simps RefreshRSS_loop.simps(1)]
  note t4 = C8_loop_isolation [where env = create_fault_env and w = world_a and pre = "[]"
      and t = release_5 and post = "[]" and url = feed_url,
      unfolded Let_def append.simps RefreshRSS_loop.simps(1)]
  note t5 = C8_loop_isolation [where env = check_fault_env and w = world_a and pre = "[]"
      and t = release_5 and post = "[]" and url = feed_url]
  have f: "meta_fault loop_fault_env (Name release_6) = Some ''disk I/O error''"
    "exist_fault loop_fault_env (URL release_5) = Some ''disk I/O error''"
    "create_fault create_fault_env (URL release_5) = Some ''disk I/O error''"
    "release_6 \<in> set (GetTorrents check_fault_env feed_url)"
    "check_fault check_fault_env (URL release_6) = Some ''disk I/O error''"
    "create_fault loop_fault_env (URL release_5) = None"
    by (simp_all add: feed_defs)
  have m5: "GetBangumiParseByTitle (meta_fault loop_fault_env (Name release_5)) (store world_a)
              (Name release_5) = Inr child_1080"
    and n5: "\<not> (\<exists>e. GetTorrentByURL (exist_fault loop_fault_env (URL release_5)) (store world_a)
              (URL release_5) = Inr e \<and> Downloaded e)"
    and b1: "em_BangumiID child_1080 = 1"
    by (simp_all add: refresh_defs feed_defs input_defs)
  from t1 m5 n5 f(6)
  have s5: "GetTorrentByURL None (store (RefreshRSS_loop loop_fault_env world_a [release_5]))
        (URL release_5) = Inr (release_5\<lparr>BangumiID := em_BangumiID child_1080\<rparr>)
      \<and> URL release_5 \<in> set (map URL (torrents (store
          (RefreshRSS_loop loop_fault_env world_a [release_5, release_6, release_new]))))"
    by blast
  have m6: "GetBangumiParseByTitle (meta_fault loop_fault_env (Name release_6)) (store world_a)
              (Name release_6) = Inl (ErrStorage ''disk I/O error'')"
    by (simp add: refresh_defs feed_defs input_defs)
  from t2 m6
  have "RefreshRSS_loop loop_fault_env world_a [release_5, release_6]
      = (RefreshRSS_loop loop_fault_env world_a [release_5])
          \<lparr>events := events (RefreshRSS_loop loop_fault_env world_a [release_5])
                       @ [Warn (Name release_6)]\<rparr>"
    by blast
  then have s6: "RefreshRSS_loop loop_fault_env world_a [release_5, release_6]
        = world_a\<lparr>store := db_a\<lparr>torrents := [release_5\<lparr>BangumiID := 1\<rparr>]\<rparr>,
                  queue := [release_5\<lparr>BangumiID := 1\<rparr>],
                  events := [Warn (Name release_6)]\<rparr>"
    unfolding run_loop_5 by (simp add: world_a_def)
  have md: "GetBangumiParseByTitle (meta_fault feed_env (Name release_5)) (store world_d)
              (Name release_5) = Inr child_1080"
    and xd: "GetTorrentByURL (exist_fault feed_env (URL release_5)) (store world_d) (URL release_5)
              = Inr (release_5\<lparr>Downloaded := True, BangumiID := 1\<rparr>)"
    and dd: "Downloaded (release_5\<lparr>Downloaded := True, BangumiID := 1\<rparr>)"
    and gd: "GetTorrentByURL None (store world_d) (URL release_5)
        = Inr (release_5\<lparr>Downloaded := True, BangumiID := 1\<rparr>)"
    and ed: "events world_d = []"
    by (simp_all add: refresh_defs feed_defs input_defs)
  from t3 md xd dd
  have "RefreshRSS_loop feed_env world_d [release_5]
      = world_d\<lparr>events := events world_d @ [Debug (URL release_5)]\<rparr>"
    by blast
  then have sd: "RefreshRSS_loop feed_env world_d [release_5]
      = world_d\<lparr>events := [Debug (URL release_5)]\<rparr>"
    unfolding ed by simp
  have mc: "GetBangumiParseByTitle (meta_fault create_fault_env (Name release_5)) (store world_a)
              (Name release_5) = Inr child_1080"
    and nc: "\<not> (\<exists>e. GetTorrentByURL (exist_fault create_fault_env (URL release_5)) (store world_a)
              (URL release_5) = Inr e \<and> Downloaded e)"
    and qa: "queue world_a = []" and sa: "store world_a = db_a"
    and cf: "create_fault create_fault_env (URL release_5) \<noteq> None"
    by (simp_all add: refresh_defs feed_defs input_defs)
  from t4 mc nc cf
  have "queue (RefreshRSS_loop create_fault_env world_a [release_5])
        = queue world_a @ [release_5\<lparr>BangumiID := em_BangumiID child_1080\<rparr>]
      \<and> store (RefreshRSS_loop create_fault_env world_a [release_5]) = store world_a"
    by blast
  then have sc: "queue (RefreshRSS_loop create_fault_env world_a [release_5]) = [release_5\<lparr>BangumiID := 1\<rparr>]
      \<and> store (RefreshRSS_loop create_fault_env world_a [release_5]) = db_a"
    unfolding qa sa b1 by simp
  from f(4,5) have "\<exists>x \<in> set (GetTorrents check_fault_env feed_url).
      check_fault check_fault_env (URL x) \<noteq> None" by force
  with t5 have sp: "pullRss check_fault_env (store world_a) feed_url = []
      \<and> RefreshRSS check_fault_env world_a feed_url = world_a"
    by blast
  from s5 have s5': "GetTorrentByURL None (store (RefreshRSS_loop loop_fault_env world_a [release_5]))
        (URL release_5) = Inr (release_5\<lparr>BangumiID := 1\<rparr>)
      \<and> URL release_5 \<in> set (map URL (torrents (store
          (RefreshRSS_loop loop_fault_env world_a [release_5, release_6, release_new]))))"
    unfolding b1 .
  from f(1,2,3,4,5) run_loop_5 s5' s6 run_loop_fault gd sd sc sp show ?thesis by blast
qed
text \<open>
  C9, as stated, fails. \<open>FindNewBangumi\<close> tests \<open>err != nil\<close>: a storage fault of the
  metadata lookup counts as no metadata. The store \<open>db_a\<close> has a record whose title
  and group are inside the name of \<open>release_5\<close>, and the lookup finds it when storage
  works. With a fault at that lookup, the name is passed to the title parser and the
  release is dispatched for resolution.
\<close>

theorem C9_lookup_fault_counterexample:
  "GetTorrents meta_fault_env feed_url = [release_5, release_6, release_new, release_rejected]
   \<and> episode_metadata db_a = [child_1080]
   \<and> sublist (em_Title child_1080) (Name release_5)
   \<and> sublist (em_Group child_1080) (Name release_5)
   \<and> GetBangumiParseByTitle None db_a (Name release_5) = Inr child_1080
   \<and> meta_fault meta_fault_env (Name release_5) = Some ''disk I/O error''
   \<and> GetBangumiParseByTitle (meta_fault meta_fault_env (Name release_5)) db_a (Name release_5)
        = Inl (ErrStorage ''disk I/O error'')
   \<and> parsed (FindNewBangumi meta_fault_env db_a feed_url) = [Name release_5, Name release_new]
   \<and> dispatched (FindNewBangumi meta_fault_env db_a feed_url) = [release_5, release_new]"
proof -
  have "GetTorrents meta_fault_env feed_url = [release_5, release_6, release_new, release_rejected]
      \<and> episode_metadata db_a = [child_1080]
      \<and> meta_fault meta_fault_env (Name release_5) = Some ''disk I/O error''"
    by (simp add: feed_defs input_defs)
  moreover have "GetBangumiParseByTitle None db_a (Name release_5) = Inr child_1080"
    using lookup_abc by (simp add: release_5_def)
  moreover have "title_match (Name release_5) child_1080"
    by (simp add: title_match_def feed_defs input_defs)
  then have "sublist (em_Title child_1080) (Name release_5)
      \<and> sublist (em_Group child_1080) (Name release_5)"
    by (simp only: title_match_iff)
  moreover have "GetBangumiParseByTitle (meta_fault meta_fault_env (Name release_5)) db_a
      (Name release_5) = Inl (ErrStorage ''disk I/O error'')"
    by (simp add: GetBangumiParseByTitle_def feed_defs)
  moreover have "parsed (FindNewBangumi meta_fault_env db_a feed_url) = [Name release_5, Name release_new]
      \<and> dispatched (FindNewBangumi meta_fault_env db_a feed_url) = [release_5, release_new]"
    by (simp add: run_find_fault dispatched_def)
  ultimately show ?thesis by blast
qed
text \<open>
  C9, amended. The names \<open>FindNewBangumi\<close> passes to the title parser are, in order,
  the names of the pulled releases for which \<open>GetBangumiParseByTitle\<close> returned an
  error and which passed \<open>FilterTorrent\<close>; every release dispatched for resolution is
  a pulled release of that kind for which the parser returned a result. The lookup
  returns an error exactly when the storage faults or no stored record has its title and
  its group inside the name.
\<close>

theorem C9_fast_slow_split:
  "parsed (FindNewBangumi env db url) =
     map Name (filter (\<lambda>t. isl (GetBangumiParseByTitle (meta_fault env (Name t)) db (Name t))
                            \<and> FilterTorrent env t)
                 (GetTorrents env url))
   \<and> set (dispatched (FindNewBangumi env db url))
       \<subseteq> {t \<in> set (GetTorrents env url).
            isl (GetBangumiParseByTitle (meta_fault env (Name t)) db (Name t))
            \<and> FilterTorrent env t \<and> TitleMetaParse env (Name t) \<noteq> None}
   \<and> (isl (GetBangumiParseByTitle flt db torrentName) \<longleftrightarrow>
        flt \<noteq> None
        \<or> \<not> (\<exists>m \<in> set (episode_metadata db).
                sublist (em_Title m) torrentName \<and> sublist (em_Group m) torrentName))"
proof (intro conjI)
  have e: "eligible env db = (\<lambda>t. isl (GetBangumiParseByTitle (meta_fault env (Name t)) db (Name t))
                            \<and> FilterTorrent env t)"
    by (rule ext) (simp add: eligible_def)
  show "parsed (FindNewBangumi env db url) =
     map Name (filter (\<lambda>t. isl (GetBangumiParseByTitle (meta_fault env (Name t)) db (Name t))
                            \<and> FilterTorrent env t)
                 (GetTorrents env url))"
    using FindNewBangumi_loop_parsed [of env db "\<lparr>newTorrents = [], parsed = []\<rparr>" "GetTorrents env url"]
    by (simp add: FindNewBangumi_def e)
  show "set (dispatched (FindNewBangumi env db url))
       \<subseteq> {t \<in> set (GetTorrents env url).
            isl (GetBangumiParseByTitle (meta_fault env (Name t)) db (Name t))
            \<and> FilterTorrent env t \<and> TitleMetaParse env (Name t) \<noteq> None}"
    using FindNewBangumi_loop_dispatched [of env db "\<lparr>newTorrents = [], parsed = []\<rparr>" "GetTorrents env url"]
    by (simp add: FindNewBangumi_def eligible_def dispatched_def)
  have "isl (GetBangumiParseByTitle flt db torrentName)
      \<longleftrightarrow> (\<exists>e. GetBangumiParseByTitle flt db torrentName = Inl e)"
    by (cases "GetBangumiParseByTitle flt db torrentName") simp_all
  then show "isl (GetBangumiParseByTitle flt db torrentName) \<longleftrightarrow>
        flt \<noteq> None
        \<or> \<not> (\<exists>m \<in> set (episode_metadata db).
                sublist (em_Title m) torrentName \<and> sublist (em_Group m) torrentName)"
    by (simp only: GetBangumiParseByTitle_error_iff title_match_iff)
qed
theorem C9_fast_slow_split_witness:
  "GetTorrents feed_env feed_url = [release_5, release_6, release_new, release_rejected]
   \<and> filter (\<lambda>t. isl (GetBangumiParseByTitle (meta_fault feed_env (Name t)) db_a (Name t))
                   \<and> FilterTorrent feed_env t)
        (GetTorrents feed_env feed_url) = [release_new]
   \<and> parsed (FindNewBangumi feed_env db_a feed_url) = [Name release_new]
   \<and> dispatched (FindNewBangumi feed_env db_a feed_url) = [release_new]
   \<and> isl (GetBangumiParseByTitle None db_a (Name release_new))
   \<and> \<not> (\<exists>m \<in> set (episode_metadata db_a).
           sublist (em_Title m) (Name release_new) \<and> sublist (em_Group m) (Name release_new))
   \<and> isl (GetBangumiParseByTitle (Some ''disk I/O error'') db_a (Name release_5))"
proof -
  note t = C9_fast_slow_split [where env = feed_env and db = db_a and url = feed_url
      and flt = None and torrentName = "Name release_new"]
  note u = C9_fast_slow_split [where env = feed_env and db = db_a and url = feed_url
      and flt = "Some ''disk I/O error''" and torrentName = "Name release_5"]
  have g: "GetTorrents feed_env feed_url = [release_5, release_6, release_new, release_rejected]"
    by (simp add: feed_defs)
  have fl: "filter (\<lambda>t. isl (GetBangumiParseByTitle (meta_fault feed_env (Name t)) db_a (Name t))
                   \<and> FilterTorrent feed_env t)
        (GetTorrents feed_env feed_url) = [release_new]"
    by (simp add: refresh_defs feed_defs input_defs)
  from t have "parsed (FindNewBangumi feed_env db_a feed_url) =
     map Name (filter (\<lambda>t. isl (GetBangumiParseByTitle (meta_fault feed_env (Name t)) db_a (Name t))
                            \<and> FilterTorrent feed_env t)
                 (GetTorrents feed_env feed_url))" by blast
  then have p: "parsed (FindNewBangumi feed_env db_a feed_url) = [Name release_new]"
    unfolding fl by simp
  have d: "dispatched (FindNewBangumi feed_env db_a feed_url) = [release_new]"
    by (simp add: run_find dispatched_def)
  have i: "isl (GetBangumiParseByTitle None db_a (Name release_new))"
    by (simp add: refresh_defs feed_defs input_defs)
  with t have n: "\<not> (\<exists>m \<in> set (episode_metadata db_a).
           sublist (em_Title m) (Name release_new) \<and> sublist (em_Group m) (Name release_new))"
    by blast
  from u have j: "isl (GetBangumiParseByTitle (Some ''disk I/O error'') db_a (Name release_5))"
    by blast
  from g fl p d i n j show ?thesis by blast
qed
text \<open>
  C10. On the merge path (the lookup found the stored entity \<open>old\<close>, a row of the table
  with its associations loaded, and the write succeeded) the row of \<open>old\<close> is still
  there, and every row with its key has the display title, year, season, RSS link,
  collected flag, offset, include and exclude filters, parser choice, poster link and
  soft-delete flag that \<open>old\<close> had. The values of the candidate for these fields are
  not read. The rows of the other entities stay.
\<close>

theorem C10_merge_frame:
  assumes "First_by_links (first_fault env) db (extract_mikanID c) (extract_tmdbID c) = (old, None)"
    and "ID old \<noteq> 0"
    and "CreateBangumi env db c = (db', None)"
  shows "(\<exists>r0 \<in> set (bangumis db). old = preload db r0 \<and> row_of r0 = row_of old)
     \<and> (\<exists>r \<in> set (bangumis db'). ID r = ID old)
     \<and> (\<forall>r \<in> set (bangumis db'). ID r = ID old \<longrightarrow>
           OfficialTitle r = OfficialTitle old \<and> Year r = Year old \<and> Season r = Season old
         \<and> RRSSLink r = RRSSLink old \<and> EpsCollect r = EpsCollect old \<and> Offset r = Offset old
         \<and> IncludeFilter r = IncludeFilter old \<and> ExcludeFilter r = ExcludeFilter old
         \<and> Parse r = Parse old \<and> PosterLink r = PosterLink old \<and> Deleted r = Deleted old)
     \<and> (\<forall>r \<in> set (bangumis db). ID r \<noteq> ID old \<longrightarrow> r \<in> set (bangumis db'))"
proof -
  from CreateBangumi_merge_ok [OF assms] obtain db1 b1 tbl
    where sb: "save_belongs db (merge_metadata (attach_links old c) (EpisodeMetadata c)) = Inr (db1, b1)"
      and d: "db' = db1\<lparr>bangumis := map (\<lambda>r. if ID r = ID old then row_of b1 else r) (bangumis db),
                     episode_metadata := tbl\<rparr>" by blast
  note ra = merge_rows_after [OF sb d]
  note mr = merge_row [OF sb]
  from First_by_links_found [OF assms(1)] obtain r0
    where r0: "r0 \<in> set (bangumis db)" "old = preload db r0" by blast
  have "row_of (preload db r0) = row_of r0" by (simp add: row_of_def preload_def)
  with r0 have c1: "\<exists>r0 \<in> set (bangumis db). old = preload db r0 \<and> row_of r0 = row_of old"
    by auto
  have c2: "\<exists>r \<in> set (bangumis db'). ID r = ID old"
    using ra(4) [OF found_key_stored [OF assms(1)]] mr(1) by blast
  have c3: "\<forall>r \<in> set (bangumis db'). ID r = ID old \<longrightarrow>
           OfficialTitle r = OfficialTitle old \<and> Year r = Year old \<and> Season r = Season old
         \<and> RRSSLink r = RRSSLink old \<and> EpsCollect r = EpsCollect old \<and> Offset r = Offset old
         \<and> IncludeFilter r = IncludeFilter old \<and> ExcludeFilter r = ExcludeFilter old
         \<and> Parse r = Parse old \<and> PosterLink r = PosterLink old \<and> Deleted r = Deleted old"
  proof (intro ballI impI)
    fix r assume r: "r \<in> set (bangumis db')" "ID r = ID old"
    from ra(2) [OF r] have e: "r = row_of b1" .
    show "OfficialTitle r = OfficialTitle old \<and> Year r = Year old \<and> Season r = Season old
         \<and> RRSSLink r = RRSSLink old \<and> EpsCollect r = EpsCollect old \<and> Offset r = Offset old
         \<and> IncludeFilter r = IncludeFilter old \<and> ExcludeFilter r = ExcludeFilter old
         \<and> Parse r = Parse old \<and> PosterLink r = PosterLink old \<and> Deleted r = Deleted old"
      unfolding e by (simp only: mr(2-12) simp_thms)
  qed
  have c4: "\<forall>r \<in> set (bangumis db). ID r \<noteq> ID old \<longrightarrow> r \<in> set (bangumis db')"
    using ra(3) by blast
  from c1 c2 c3 c4 show ?thesis by blast
qed
theorem C10_merge_frame_witness:
  "First_by_links (first_fault no_faults) db_a (extract_mikanID cand_mikan_b)
       (extract_tmdbID cand_mikan_b) = (loaded_a, None)
   \<and> ID loaded_a \<noteq> 0
   \<and> CreateBangumi no_faults db_a cand_mikan_b = (db_ab, None)
   \<and> OfficialTitle cand_mikan_b = ''Sousou no Frieren'' \<and> Season cand_mikan_b = 2
   \<and> Parse cand_mikan_b = ''mikan'' \<and> RRSSLink cand_mikan_b = ''https://feed/b''
   \<and> (\<exists>r \<in> set (bangumis db_ab). ID r = 1 \<and> OfficialTitle r = ''Frieren'' \<and> Year r = []
         \<and> Season r = 1 \<and> RRSSLink r = [] \<and> \<not> EpsCollect r \<and> Offset r = 0
         \<and> IncludeFilter r = [] \<and> ExcludeFilter r = [] \<and> Parse r = ''tmdb''
         \<and> PosterLink r = [] \<and> \<not> Deleted r)"
proof -
  have lk: "First_by_links (first_fault no_faults) db_a (extract_mikanID cand_mikan_b)
       (extract_tmdbID cand_mikan_b) = (loaded_a, None)"
    using premises_a_b by blast
  have nz: "ID loaded_a \<noteq> 0" by (simp add: input_defs)
  note t = C10_merge_frame [OF lk nz run_merge_b]
  have f: "OfficialTitle cand_mikan_b = ''Sousou no Frieren''" "Season cand_mikan_b = 2"
    "Parse cand_mikan_b = ''mikan''" "RRSSLink cand_mikan_b = ''https://feed/b''"
    by (simp_all add: input_defs)
  have g: "ID loaded_a = 1" "OfficialTitle loaded_a = ''Frieren''" "Year loaded_a = []"
    "Season loaded_a = 1" "RRSSLink loaded_a = []" "\<not> EpsCollect loaded_a" "Offset loaded_a = 0"
    "IncludeFilter loaded_a = []" "ExcludeFilter loaded_a = []" "Parse loaded_a = ''tmdb''"
    "PosterLink loaded_a = []" "\<not> Deleted loaded_a"
    by (simp_all add: input_defs)
  from t obtain r where r: "r \<in> set (bangumis db_ab)" "ID r = ID loaded_a" by blast
  with t have "OfficialTitle r = OfficialTitle loaded_a \<and> Year r = Year loaded_a
      \<and> Season r = Season loaded_a \<and> RRSSLink r = RRSSLink loaded_a
      \<and> EpsCollect r = EpsCollect loaded_a \<and> Offset r = Offset loaded_a
      \<and> IncludeFilter r = IncludeFilter loaded_a \<and> ExcludeFilter r = ExcludeFilter loaded_a
      \<and> Parse r = Parse loaded_a \<and> PosterLink r = PosterLink loaded_a
      \<and> Deleted r = Deleted loaded_a" by blast
  with r g have "\<exists>r \<in> set (bangumis db_ab). ID r = 1 \<and> OfficialTitle r = ''Frieren'' \<and> Year r = []
         \<and> Season r = 1 \<and> RRSSLink r = [] \<and> \<not> EpsCollect r \<and> Offset r = 0
         \<and> IncludeFilter r = [] \<and> ExcludeFilter r = [] \<and> Parse r = ''tmdb''
         \<and> PosterLink r = [] \<and> \<not> Deleted r"
    by auto
  with lk nz run_merge_b f show ?thesis by blast
qed

end
